(* ===== verification/Prelude.thy ===== *)
theory Prelude
  imports Main "HOL-Library.Word"
begin

text \<open>
  What every component shares: the values a Go \<open>any\<close> can hold here, errors as values with
  the standard library's \<open>errors.Is\<close>, \<open>errors.As\<close> and \<open>errors.Join\<close>, contexts, the
  functions of \<open>strings\<close> the code calls, and generic lemmas on lists and maps.

  Bytes and strings are both \<^typ>\<open>string\<close> (a list of 8-bit characters): a Go string is a
  sequence of bytes. \<open>strings.ToLower\<close> and \<open>strings.TrimSpace\<close> are modelled on ASCII, which
  is all the names the configuration compares them with contain.

  An instant (\<open>time.Time\<close>) is the number of nanoseconds since the Unix epoch in UTC; the
  location and the monotonic reading of a \<open>time.Time\<close> are not modelled.
\<close>

named_theorems go_run \<open>definitions that run an operation of the code on a concrete input\<close>

section \<open>Values\<close>

type_synonym go_time = int

datatype int_kind = KInt | KInt8 | KInt16 | KInt32 | KInt64 | KUint8 | KUint16 | KUint32 | KUint64

text \<open>
  The dynamic values of an \<open>any\<close>: what a binlog row cell, a decoded JSON value or a primary
  key can be. Floats are kept as their IEEE 754 bit patterns; \<open>VOther\<close> stands for a value of a type that
  \<open>encoding/json\<close> does not support, with its name.
\<close>

datatype go_val =
    VNil
  | VBytes string
  | VInt int_kind int
  | VFloat32 "32 word"
  | VFloat64 "64 word"
  | VBool bool
  | VString string
  | VTime go_time
  | VSlice "go_val list"
  | VMap "(string \<times> go_val) list"
  | VOther string

section \<open>Errors\<close>

datatype json_error_kind =
    JsonSyntaxError | JsonMarshalerError | JsonUnsupportedTypeError | JsonUnsupportedValueError
  | JsonUnmarshalTypeError

text \<open>
  An error is a value. The sentinels that the code compares with are constructors of their
  own; \<open>ErrNew\<close> is \<open>errors.New\<close> or a \<open>fmt.Errorf\<close> without \<open>%w\<close> (its text and the values it
  formats), \<open>Wrap\<close> is a \<open>fmt.Errorf\<close> whose \<open>%w\<close> verb holds the last argument, \<open>Joined\<close> is
  \<open>errors.Join\<close>, and \<open>LibErr\<close> is an error of a library outside the repository.
\<close>

datatype go_error =
    CtxCanceled
  | CtxDeadlineExceeded
  | RedisNil
  | IoEOF
  | PulsarTopicTerminated
  | ErrUnroutable
  | ErrDeliveriesClosed
  | ErrNilHandler
  | OsNotExist
  | JsonErr json_error_kind
  | LibErr string
  | ErrNew string "fmt_arg list"
  | Wrap string "fmt_arg list" go_error
  | Joined "go_error list"
and fmt_arg =
    FStr string
  | FInt int
  | FVal go_val
  | FErr go_error

text \<open>\<open>errors.Is\<close>: the target is found by walking the chain of wrapped and joined errors.\<close>

fun errors_Is :: "go_error \<Rightarrow> go_error \<Rightarrow> bool" where
  "errors_Is (Wrap m xs e) t = (Wrap m xs e = t \<or> errors_Is e t)"
| "errors_Is (Joined es) t = (Joined es = t \<or> (\<exists>e \<in> set es. errors_Is e t))"
| "errors_Is e t = (e = t)"

text \<open>\<open>errors.As\<close> for the typed errors of \<open>encoding/json\<close>.\<close>

fun errors_As_json :: "go_error \<Rightarrow> json_error_kind \<Rightarrow> bool" where
  "errors_As_json (Wrap m xs e) k = errors_As_json e k"
| "errors_As_json (Joined es) k = (\<exists>e \<in> set es. errors_As_json e k)"
| "errors_As_json (JsonErr k') k = (k' = k)"
| "errors_As_json e k = False"

text \<open>\<open>errors.Join\<close>: nil errors are dropped, and the join of nothing is nil.\<close>

definition errors_Join :: "go_error option list \<Rightarrow> go_error option" where
  "errors_Join errs =
     (let es = map the (filter (\<lambda>e. e \<noteq> None) errs)
      in if es = [] then None else Some (Joined es))"

lemma errors_Join_None [simp]: "errors_Join errs = None \<longleftrightarrow> (\<forall>e \<in> set errs. e = None)"
  by (auto simp: errors_Join_def Let_def filter_empty_conv)

lemma errors_Join_SomeD:
  "errors_Join errs = Some e \<Longrightarrow> \<exists>es. e = Joined es \<and> set es = {x. Some x \<in> set errs}"
  by (auto simp: errors_Join_def Let_def image_iff split: if_splits) force

lemma errors_Is_refl: "errors_Is e e"
  by (cases e) simp_all

lemma errors_Is_Join:
  "errors_Join errs = Some e \<Longrightarrow> \<forall>es. t \<noteq> Joined es \<Longrightarrow>
   errors_Is e t \<longleftrightarrow> (\<exists>x. Some x \<in> set errs \<and> errors_Is x t)"
  by (drule errors_Join_SomeD) fastforce

section \<open>Returning and panicking\<close>

text \<open>
  A call either returns or panics. The code guards against nil and ranges by hand, so where it
  dereferences a nil interface or sends on a closed channel the model answers \<open>Panics\<close>.
\<close>

datatype 'a outcome = Returns 'a | Panics string

section \<open>Contexts\<close>

text \<open>
  A context is a view of the world: \<open>ctx.Err()\<close> asked in the world \<open>w\<close> is \<open>ctx w\<close>, with
  \<open>None\<close> for nil.
\<close>

type_synonym 'w ctx = "'w \<Rightarrow> go_error option"

section \<open>Strings\<close>

fun strings_HasPrefix :: "string \<Rightarrow> string \<Rightarrow> bool" where
  "strings_HasPrefix s [] = True"
| "strings_HasPrefix [] (c # cs) = False"
| "strings_HasPrefix (x # s) (c # cs) = (x = c \<and> strings_HasPrefix s cs)"

fun strings_Contains :: "string \<Rightarrow> string \<Rightarrow> bool" where
  "strings_Contains [] t = (t = [])"
| "strings_Contains (x # s) t = (strings_HasPrefix (x # s) t \<or> strings_Contains s t)"

lemma strings_Contains_char [simp]: "strings_Contains s [c] \<longleftrightarrow> c \<in> set s"
  by (induction s) auto

definition is_space :: "char \<Rightarrow> bool" where
  "is_space c \<longleftrightarrow> c \<in> {CHR '' '', CHR 0x09, CHR 0x0A, CHR 0x0B, CHR 0x0C, CHR 0x0D}"

definition strings_TrimSpace :: "string \<Rightarrow> string" where
  "strings_TrimSpace s = rev (dropWhile is_space (rev (dropWhile is_space s)))"

definition char_lower :: "char \<Rightarrow> char" where
  "char_lower c =
     (let n = of_char c :: nat in if 65 \<le> n \<and> n \<le> 90 then char_of (n + 32) else c)"

definition strings_ToLower :: "string \<Rightarrow> string" where
  "strings_ToLower s = map char_lower s"

text \<open>The spelling a configured name is compared in: \<open>strings.ToLower(strings.TrimSpace(s))\<close>.\<close>

definition fold_name :: "string \<Rightarrow> string" where
  "fold_name s = strings_ToLower (strings_TrimSpace s)"

section \<open>Lists and maps\<close>

text \<open>An append to the slice a Go map holds: a missing entry is an empty slice.\<close>

definition map_append :: "('k \<rightharpoonup> 'v list) \<Rightarrow> 'k \<Rightarrow> 'v \<Rightarrow> ('k \<rightharpoonup> 'v list)" where
  "map_append m k v = m(k \<mapsto> (case m k of None \<Rightarrow> [] | Some vs \<Rightarrow> vs) @ [v])"

definition slice_of :: "('k \<rightharpoonup> 'v list) \<Rightarrow> 'k \<Rightarrow> 'v list" where
  "slice_of m k = (case m k of None \<Rightarrow> [] | Some vs \<Rightarrow> vs)"

lemma slice_of_empty [simp]: "slice_of Map.empty k = []"
  by (simp add: slice_of_def)

lemma slice_of_append [simp]:
  "slice_of (map_append m k v) k' = (if k' = k then slice_of m k @ [v] else slice_of m k')"
  by (simp add: slice_of_def map_append_def)

lemma append_char_unique:
  assumes "a @ c # b = a' @ c # b'" and "c \<notin> set a" "c \<notin> set b" "c \<notin> set a'" "c \<notin> set b'"
  shows "a = a' \<and> b = b'"
  using assms by (auto simp: append_eq_append_conv2 append_eq_Cons_conv Cons_eq_append_conv)

text \<open>What every step keeps holds in every state a run reaches.\<close>

lemma rtranclp_invariant:
  assumes "step\<^sup>*\<^sup>* s0 s" and "I s0" and "\<And>s s'. step s s' \<Longrightarrow> I s \<Longrightarrow> I s'"
  shows "I s"
  using assms(1,2) by (induction rule: rtranclp_induct) (auto intro: assms(3))

text \<open>Every element of a list is in the relation \<open>R\<close> to what comes before it.\<close>

fun before :: "('a list \<Rightarrow> 'a \<Rightarrow> bool) \<Rightarrow> 'a list \<Rightarrow> bool" where
  "before R [] = True"
| "before R (a # as) = (R [] a \<and> before (\<lambda>xs. R (a # xs)) as)"

lemma before_append: "before R (xs @ ys) \<longleftrightarrow> before R xs \<and> before (\<lambda>zs. R (xs @ zs)) ys"
  by (induction xs arbitrary: R) auto

lemma beforeD: "before R (xs @ a # ys) \<Longrightarrow> R xs a"
  by (simp add: before_append)

lemma before_mono: "before R xs \<Longrightarrow> (\<And>zs a. R zs a \<Longrightarrow> S zs a) \<Longrightarrow> before S xs"
  by (induction xs arbitrary: R S) auto

lemma before_append_local:
  "before R xs \<Longrightarrow> before R ys \<Longrightarrow> (\<And>zs a. R zs a \<Longrightarrow> R (xs @ zs) a) \<Longrightarrow> before R (xs @ ys)"
  by (auto simp: before_append intro: before_mono)

lemma count_list_zero_iff: "count_list xs c = 0 \<longleftrightarrow> c \<notin> set xs"
  by (rule count_list_0_iff)

end
