(* ===== verification/Types.thy ===== *)
theory Types
  imports Prelude "HOL-Library.Finite_Map"
begin

text \<open>
  \<open>types/event.go\<close>: the event every producer publishes and every consumer reads. A Go
  \<open>map[string]any\<close> is a finite map; the nil map and the empty map read the same and are one
  value here. The integer fields are Go \<open>int64\<close>s, kept at their width.
\<close>

type_synonym int64 = "64 word"
type_synonym row_map = "(string, go_val) fmap"

datatype EventRowType = InsertEventRowType | UpdateEventRowType | DeleteEventRowType | OtherEventRowType string

definition EventRowType_string :: "EventRowType \<Rightarrow> string" where
  "EventRowType_string t =
     (case t of InsertEventRowType \<Rightarrow> ''insert'' | UpdateEventRowType \<Rightarrow> ''update''
      | DeleteEventRowType \<Rightarrow> ''delete'' | OtherEventRowType s \<Rightarrow> s)"

record EventRowData =
  rTime :: int64
  rDatabase :: string
  rTable :: string
  rType :: EventRowType
  rData :: row_map
  rOld :: row_map

record EventData =
  eTime :: go_time
  eServerID :: int64
  ePos :: int64
  eRow :: EventRowData

text \<open>The zero value \<open>types.EventData{}\<close>; the zero \<open>time.Time\<close> is the first instant of year 1.\<close>

definition zero_time :: go_time where
  "zero_time = - 62135596800000000000"

definition zeroRow :: EventRowData where
  "zeroRow = \<lparr>rTime = 0, rDatabase = '''', rTable = '''', rType = OtherEventRowType '''',
     rData = fmempty, rOld = fmempty\<rparr>"

definition zeroEvent :: EventData where
  "zeroEvent = \<lparr>eTime = zero_time, eServerID = 0, ePos = 0, eRow = zeroRow\<rparr>"

text \<open>The integers of a kind, and the values of the type they claim.\<close>

fun kind_range :: "int_kind \<Rightarrow> int \<times> int" where
  "kind_range KInt8 = (- (2 ^ 7), 2 ^ 7)" | "kind_range KInt16 = (- (2 ^ 15), 2 ^ 15)"
| "kind_range KInt32 = (- (2 ^ 31), 2 ^ 31)" | "kind_range KInt64 = (- (2 ^ 63), 2 ^ 63)"
| "kind_range KInt = (- (2 ^ 63), 2 ^ 63)" | "kind_range KUint8 = (0, 2 ^ 8)" | "kind_range KUint16 = (0, 2 ^ 16)"
| "kind_range KUint32 = (0, 2 ^ 32)" | "kind_range KUint64 = (0, 2 ^ 64)"

fun in_range :: "go_val \<Rightarrow> bool" where
  "in_range (VInt k i) \<longleftrightarrow> fst (kind_range k) \<le> i \<and> i < snd (kind_range k)"
| "in_range _ \<longleftrightarrow> True"

text \<open>Indexing a map: a missing key reads as nil.\<close>

definition map_index :: "row_map \<Rightarrow> string \<Rightarrow> go_val \<times> bool" where
  "map_index m k = (case fmlookup m k of None \<Rightarrow> (VNil, False) | Some v \<Rightarrow> (v, True))"

end
