(* ===== verification/Decimal.thy ===== *)
theory Decimal
  imports Prelude
begin

text \<open>
  \<open>strconv.FormatUint\<close>, \<open>ParseUint\<close>, \<open>FormatInt\<close> and \<open>ParseInt\<close> in base 10, as the code uses them
  for message numbers, row values and JSON numbers, with their round trips. A parse error is
  \<open>None\<close>: the code only looks at whether there is one.
\<close>

definition digit_char :: "nat \<Rightarrow> char" where
  "digit_char d = char_of (48 + d)"

definition is_digit :: "char \<Rightarrow> bool" where
  "is_digit c \<longleftrightarrow> 48 \<le> (of_char c :: nat) \<and> (of_char c :: nat) \<le> 57"

definition digit_val :: "char \<Rightarrow> nat" where
  "digit_val c = of_char c - 48"

fun FormatUint :: "nat \<Rightarrow> string" where
  "FormatUint n = (if n < 10 then [digit_char n] else FormatUint (n div 10) @ [digit_char (n mod 10)])"

declare FormatUint.simps [simp del]

fun dec_value :: "nat \<Rightarrow> string \<Rightarrow> nat option" where
  "dec_value acc [] = Some acc"
| "dec_value acc (c # cs) = (if is_digit c then dec_value (acc * 10 + digit_val c) cs else None)"

definition ParseUint :: "string \<Rightarrow> nat \<Rightarrow> nat option" where
  "ParseUint s bits =
     (if s = [] then None
      else case dec_value 0 s of None \<Rightarrow> None | Some n \<Rightarrow> if n < 2 ^ bits then Some n else None)"

definition FormatInt :: "int \<Rightarrow> string" where
  "FormatInt k = (if k < 0 then CHR ''-'' # FormatUint (nat (- k)) else FormatUint (nat k))"

text \<open>\<open>ParseInt(s, 10, bits)\<close>: one optional sign, then an unsigned number up to the cutoff.\<close>

definition ParseInt :: "string \<Rightarrow> nat \<Rightarrow> int option" where
  "ParseInt s bits =
     (if s = [] then None
      else
        (let neg = (hd s = CHR ''-'');
             digits = (if hd s = CHR ''+'' \<or> hd s = CHR ''-'' then tl s else s) in
         case ParseUint digits 64 of
           None \<Rightarrow> None
         | Some un \<Rightarrow>
             if \<not> neg \<and> un \<ge> 2 ^ (bits - 1) then None
             else if neg \<and> un > 2 ^ (bits - 1) then None
             else Some (if neg then - int un else int un)))"

lemma of_char_digit_char [simp]: "d < 10 \<Longrightarrow> of_char (digit_char d) = (48 + d :: nat)"
  by (simp add: digit_char_def)

lemma is_digit_digit_char [simp]: "d < 10 \<Longrightarrow> is_digit (digit_char d)"
  by (simp add: is_digit_def)

lemma digit_val_digit_char [simp]: "d < 10 \<Longrightarrow> digit_val (digit_char d) = d"
  by (simp add: digit_val_def)

lemma digit_char_inject: "c < 10 \<Longrightarrow> d < 10 \<Longrightarrow> digit_char c = digit_char d \<longleftrightarrow> c = d"
  by (metis digit_val_digit_char)

lemma dec_value_digits: "list_all is_digit ds \<Longrightarrow> \<exists>m. dec_value v ds = Some m"
  by (induction ds arbitrary: v) auto

lemma dec_value_append:
  "dec_value acc (xs @ ys) = (case dec_value acc xs of None \<Rightarrow> None | Some n \<Rightarrow> dec_value n ys)"
  by (induction xs arbitrary: acc) auto

lemma FormatUint_not_Nil [simp]: "FormatUint n \<noteq> []"
  by (subst FormatUint.simps) simp

lemma dec_value_FormatUint [simp]: "dec_value 0 (FormatUint n) = Some n"
proof (induction n rule: FormatUint.induct)
  case (1 n)
  show ?case
  proof (cases "n < 10")
    case True
    then show ?thesis by (subst FormatUint.simps) simp
  next
    case False
    with "1.IH" show ?thesis by (subst FormatUint.simps) (simp add: dec_value_append)
  qed
qed

lemma FormatUint_digits: "list_all is_digit (FormatUint n)"
proof (induction n rule: FormatUint.induct)
  case (1 n)
  then show ?case by (subst FormatUint.simps) auto
qed

lemma ParseUint_FormatUint [simp]: "n < 2 ^ bits \<Longrightarrow> ParseUint (FormatUint n) bits = Some n"
  by (simp add: ParseUint_def)

lemma FormatUint_inject [simp]: "FormatUint m = FormatUint n \<longleftrightarrow> m = n"
  by (metis dec_value_FormatUint option.inject)

lemma is_digit_not_sign: "is_digit c \<Longrightarrow> c \<noteq> CHR ''-'' \<and> c \<noteq> CHR ''+''"
  by (auto simp: is_digit_def)

lemma ParseInt_FormatInt:
  assumes "- (2 ^ 63) \<le> k" and "k < 2 ^ 63"
  shows "ParseInt (FormatInt k) 64 = Some k"
proof (cases "k < 0")
  case True
  have "nat (- k) < 2 ^ 64" "\<not> 2 ^ 63 < nat (- k)" using assms by (simp_all add: nat_less_iff)
  with True show ?thesis by (simp add: ParseInt_def FormatInt_def Let_def)
next
  case False
  obtain c cs where c: "FormatUint (nat k) = c # cs" by (cases "FormatUint (nat k)") auto
  have "is_digit c" using FormatUint_digits [of "nat k"] c by simp
  then have sign: "c \<noteq> CHR ''-''" "c \<noteq> CHR ''+''" using is_digit_not_sign by auto
  have "nat k < 2 ^ 64" "nat k < 2 ^ 63" using assms(2) by (simp_all add: nat_less_iff)
  then have "ParseUint (c # cs) 64 = Some (nat k)" using c [symmetric] by simp
  with False sign assms(2) c show ?thesis
    by (simp add: ParseInt_def FormatInt_def Let_def nat_less_iff not_le [symmetric])
qed

lemma of_char_zero_digit: "of_char (CHR ''0'') = (48 :: nat)"
  by simp

lemma FormatUint_leading_zero: "FormatUint n = CHR ''0'' # cs \<Longrightarrow> n = 0 \<and> cs = []"
proof (induction n arbitrary: cs rule: FormatUint.induct)
  case (1 n)
  show ?case
  proof (cases "n < 10")
    case True
    then have "digit_char n = CHR ''0''" "cs = []" using 1(2) by (simp_all add: FormatUint.simps [of n])
    moreover have "digit_char 0 = CHR ''0''" by (metis char_of_char digit_char_def add_0_right of_char_zero_digit)
    ultimately show ?thesis using True digit_char_inject [of n 0] by simp
  next
    case False
    then obtain ds where "FormatUint (n div 10) = CHR ''0'' # ds"
      using 1(2) by (auto simp: FormatUint.simps [of n] append_eq_Cons_conv)
    with 1(1) [OF False] have "n div 10 = 0" by blast
    with False show ?thesis by simp
  qed
qed

end
