(* ===== verification/Go_Time.thy ===== *)
theory Go_Time
  imports Decimal "HOL-Library.Monad_Syntax"
begin

text \<open>
  \<open>time.Parse\<close> for the one layout the code uses, \<open>2006-01-02 15:04:05\<close>: the row values of the date
  and time columns and the bounds of a manual run. The layout has no zone, so the instant is in
  UTC. An error is \<open>None\<close>: the code keeps the text, or reports its own error.
\<close>

section \<open>The calendar\<close>

definition is_leap :: "int \<Rightarrow> bool" where
  "is_leap y \<longleftrightarrow> y mod 4 = 0 \<and> (y mod 100 \<noteq> 0 \<or> y mod 400 = 0)"

definition days_in :: "nat \<Rightarrow> int \<Rightarrow> nat" where
  "days_in m y =
     (if m = 2 then (if is_leap y then 29 else 28) else if m \<in> {4, 6, 9, 11} then 30 else 31)"

text \<open>The days from the first of January 1970 to a date.\<close>

definition days_before_year :: "int \<Rightarrow> int" where
  "days_before_year y = 365 * (y - 1) + (y - 1) div 4 - (y - 1) div 100 + (y - 1) div 400"

definition epoch_days :: "int \<Rightarrow> nat \<Rightarrow> nat \<Rightarrow> int" where
  "epoch_days y m d =
     days_before_year y + (\<Sum>k\<leftarrow>[1..<m]. int (days_in k y)) + int d - 1 - 719162"

definition instant :: "int \<Rightarrow> nat \<Rightarrow> nat \<Rightarrow> nat \<Rightarrow> nat \<Rightarrow> nat \<Rightarrow> nat \<Rightarrow> go_time" where
  "instant y m d hh mm ss ns =
     (((epoch_days y m d * 24 + int hh) * 60 + int mm) * 60 + int ss) * 1000000000 + int ns"

section \<open>The fields of a time\<close>

text \<open>\<open>getnum\<close>: one or two digits, two when \<open>fixed\<close>.\<close>

definition getnum :: "bool \<Rightarrow> string \<Rightarrow> (nat \<times> string) option" where
  "getnum fixed s =
     (case s of
        a # b # r \<Rightarrow>
          if \<not> is_digit a then None
          else if is_digit b then Some (digit_val a * 10 + digit_val b, r)
          else if fixed then None else Some (digit_val a, b # r)
      | [a] \<Rightarrow> if is_digit a \<and> \<not> fixed then Some (digit_val a, []) else None
      | [] \<Rightarrow> None)"

definition within :: "nat \<Rightarrow> nat \<Rightarrow> nat \<times> string \<Rightarrow> (nat \<times> string) option" where
  "within lo hi = (\<lambda>(n, r). if lo \<le> n \<and> n < hi then Some (n, r) else None)"

definition skip_char :: "char \<Rightarrow> string \<Rightarrow> string option" where
  "skip_char c s = (case s of d # r \<Rightarrow> if d = c then Some r else None | [] \<Rightarrow> None)"

text \<open>A space of the layout stands for any number of them.\<close>

definition skip_spaces :: "string \<Rightarrow> string option" where
  "skip_spaces s =
     (if s \<noteq> [] \<and> hd s \<noteq> CHR '' '' then None else Some (dropWhile (\<lambda>c. c = CHR '' '') s))"

definition year_digits :: "string \<Rightarrow> (nat \<times> string) option" where
  "year_digits s =
     (if length s < 4 then None
      else do { n \<leftarrow> dec_value 0 (take 4 s); Some (n, drop 4 s) })"

text \<open>
  A fraction of a second is accepted after the seconds although the layout has none; digits after
  the ninth are cut off.
\<close>

definition fraction_digits :: "string \<Rightarrow> nat \<times> string" where
  "fraction_digits s =
     (case s of
        c # d # r \<Rightarrow>
          if (c = CHR ''.'' \<or> c = CHR '','') \<and> is_digit d then
            (let ds = takeWhile is_digit (d # r); kept = take 9 ds in
             (the (dec_value 0 kept) * 10 ^ (9 - length kept), dropWhile is_digit (d # r)))
          else (0, s)
      | _ \<Rightarrow> (0, s))"

definition time_Parse :: "string \<Rightarrow> go_time option" where
  "time_Parse s = do {
     (year, s) \<leftarrow> year_digits s;
     (month, s) \<leftarrow> skip_char CHR ''-'' s \<bind> getnum True \<bind> within 1 13;
     (day, s) \<leftarrow> skip_char CHR ''-'' s \<bind> getnum True;
     (hour, s) \<leftarrow> skip_spaces s \<bind> getnum False \<bind> within 0 24;
     (minute, s) \<leftarrow> skip_char CHR '':'' s \<bind> getnum True \<bind> within 0 60;
     (sec, s) \<leftarrow> skip_char CHR '':'' s \<bind> getnum True \<bind> within 0 60;
     (let (nsec, s) = fraction_digits s in
      if s \<noteq> [] \<or> day < 1 \<or> days_in month (int year) < day then None
      else Some (instant (int year) month day hour minute sec nsec)) }"

section \<open>The calendar is consecutive\<close>

lemma div_pred: "0 < k \<Longrightarrow> y div k = (y - 1) div k + (if y mod k = 0 then 1 else 0)" for y k :: int
proof -
  assume k: "0 < k"
  define q r where "q = y div k" and "r = y mod k"
  have y: "y = k * q + r" "0 \<le> r" "r < k" using k by (simp_all add: q_def r_def)
  have "(y - 1) div k = (if r = 0 then q - 1 else q)"
  proof (cases "r = 0")
    case True
    then have "(y - 1) div k = q - 1"
      using y k by (intro int_div_pos_eq [where r = "k - 1"]) (simp_all add: algebra_simps)
    with True show ?thesis by simp
  next
    case False
    then have "(y - 1) div k = q" using y k by (intro int_div_pos_eq [where r = "r - 1"]) simp_all
    with False show ?thesis by simp
  qed
  then show ?thesis by (simp add: q_def r_def)
qed

lemma days_before_Suc_year: "days_before_year (y + 1) = days_before_year y + (if is_leap y then 366 else 365)"
proof -
  have count: "a = a' + of_bool p \<Longrightarrow> b = b' + of_bool q \<Longrightarrow> c = c' + of_bool r \<Longrightarrow> (r \<Longrightarrow> q) \<Longrightarrow> (q \<Longrightarrow> p) \<Longrightarrow>
      365 * y + a - b + c = 365 * (y - 1) + a' - b' + c' + (if p \<and> (\<not> q \<or> r) then 366 else 365)"
    for a b c a' b' c' :: int and p q r
    by (cases p; cases q; cases r) simp_all
  have one: "(if y mod k = 0 then 1 else 0) = (of_bool (k dvd y) :: int)" for k
    by (simp add: mod_eq_0_iff_dvd)
  have "400 dvd y \<Longrightarrow> 100 dvd y" "100 dvd y \<Longrightarrow> 4 dvd y"
    by (erule dvd_trans [rotated], simp)+
  then show ?thesis
    unfolding days_before_year_def is_leap_def mod_eq_0_iff_dvd add_diff_cancel_right'
    using div_pred [of 4 y, unfolded one] div_pred [of 100 y, unfolded one] div_pred [of 400 y, unfolded one]
    by (intro count) simp_all
qed

lemma months_upto: "[1..<12] = [1, 2, 3, 4, 5, 6, 7, 8, 9, 10, 11]"
  by (simp add: upt_rec)

lemma epoch_days_next:
  "epoch_days y m (Suc d) = epoch_days y m d + 1"
  "1 \<le> m \<Longrightarrow> epoch_days y (Suc m) 1 = epoch_days y m (days_in m y) + 1"
  "epoch_days (y + 1) 1 1 = epoch_days y 12 31 + 1"
  "epoch_days 1970 1 1 = 0"
proof -
  show "epoch_days (y + 1) 1 1 = epoch_days y 12 31 + 1"
    unfolding epoch_days_def days_before_Suc_year months_upto by (simp add: days_in_def)
  show "epoch_days 1970 1 1 = 0" by (simp add: epoch_days_def days_before_year_def)
qed (simp_all add: epoch_days_def)

end
