(* ===== verification/Json_String.thy ===== *)
theory Json_String
  imports Prelude
begin

text \<open>
  Strings in \<open>encoding/json\<close>: what \<open>Marshal\<close> writes for a Go string and what \<open>Unmarshal\<close> reads back
  from a literal. A Go string is a sequence of bytes; what is not UTF-8 is written and read as the
  replacement character.
\<close>

abbreviation byte :: "char \<Rightarrow> nat" where
  "byte c \<equiv> of_char c"

abbreviation chr :: "nat \<Rightarrow> char" where
  "chr n \<equiv> char_of n"

section \<open>UTF-8\<close>

text \<open>
  The length of the rune a string begins with, 0 when it does not begin with a valid one
  (\<open>utf8.DecodeRune\<close>: the ranges of the second byte exclude overlong forms, surrogates and what
  lies above U+10FFFF).
\<close>

definition continuation :: "char \<Rightarrow> bool" where
  "continuation c \<longleftrightarrow> 128 \<le> byte c \<and> byte c < 192"

fun rune_len :: "string \<Rightarrow> nat" where
  "rune_len [] = 0"
| "rune_len (c # s) =
     (if byte c < 128 then 1
      else if 194 \<le> byte c \<and> byte c < 224 then
        (case s of d # _ \<Rightarrow> if continuation d then 2 else 0 | _ \<Rightarrow> 0)
      else if 224 \<le> byte c \<and> byte c < 240 then
        (case s of d # e # _ \<Rightarrow>
           if continuation d \<and> continuation e \<and> (byte c = 224 \<longrightarrow> 160 \<le> byte d) \<and> (byte c = 237 \<longrightarrow> byte d < 160)
           then 3 else 0
         | _ \<Rightarrow> 0)
      else if 240 \<le> byte c \<and> byte c < 245 then
        (case s of d # e # f # _ \<Rightarrow>
           if continuation d \<and> continuation e \<and> continuation f \<and> (byte c = 240 \<longrightarrow> 144 \<le> byte d) \<and>
             (byte c = 244 \<longrightarrow> byte d < 144)
           then 4 else 0
         | _ \<Rightarrow> 0)
      else 0)"

lemma rune_len_le: "rune_len s \<le> length s"
  by (cases s) (auto split: list.splits)

lemma rune_len_multi: "byte c \<ge> 128 \<Longrightarrow> rune_len (c # s) = 0 \<or> 2 \<le> rune_len (c # s)"
  by (auto split: list.splits)

lemma rune_len_append:
  assumes "rune_len s \<noteq> 0"
  shows "rune_len (take (rune_len s) s @ t) = rune_len s"
  using assms by (cases s) (auto split: list.splits if_splits)

text \<open>The bytes of a code point, and the replacement character U+FFFD.\<close>

definition utf8_encode :: "nat \<Rightarrow> string" where
  "utf8_encode n =
     (if n < 128 then [chr n]
      else if n < 2048 then [chr (192 + n div 64), chr (128 + n mod 64)]
      else if n < 65536 then [chr (224 + n div 4096), chr (128 + n div 64 mod 64), chr (128 + n mod 64)]
      else [chr (240 + n div 262144), chr (128 + n div 4096 mod 64), chr (128 + n div 64 mod 64), chr (128 + n mod 64)])"

definition replacement :: string where
  "replacement = [chr 239, chr 191, chr 189]"

fun valid_utf8 :: "string \<Rightarrow> bool" where
  "valid_utf8 s =
     (if s = [] then True else if rune_len s = 0 then False else valid_utf8 (drop (rune_len s) s))"

declare valid_utf8.simps [simp del]

section \<open>Writing a string\<close>

definition hex_char :: "nat \<Rightarrow> char" where
  "hex_char n = (if n < 10 then chr (48 + n) else chr (87 + n))"

text \<open>What is written for one ASCII character; HTML's special characters are escaped too.\<close>

definition escape :: "char \<Rightarrow> string" where
  "escape c =
     (if c = CHR 0x22 then [CHR 0x5C, CHR 0x22]
      else if c = CHR 0x5C then [CHR 0x5C, CHR 0x5C]
      else if byte c = 8 then [CHR 0x5C, CHR ''b'']
      else if byte c = 12 then [CHR 0x5C, CHR ''f'']
      else if byte c = 10 then [CHR 0x5C, CHR ''n'']
      else if byte c = 13 then [CHR 0x5C, CHR ''r'']
      else if byte c = 9 then [CHR 0x5C, CHR ''t'']
      else if byte c < 32 \<or> c = CHR ''<'' \<or> c = CHR ''>'' \<or> c = CHR ''&'' then
        [CHR 0x5C, CHR ''u'', CHR ''0'', CHR ''0'', hex_char (byte c div 16), hex_char (byte c mod 16)]
      else [c])"

definition line_separator :: string where
  "line_separator = [chr 226, chr 128, chr 168]"

definition paragraph_separator :: string where
  "paragraph_separator = [chr 226, chr 128, chr 169]"

function quote_body :: "string \<Rightarrow> string" where
  "quote_body [] = []"
| "quote_body (c # s) =
     (if byte c < 128 then escape c @ quote_body s
      else
        (let n = rune_len (c # s) in
         if n = 0 then CHR 0x5C # ''ufffd'' @ quote_body s
         else
           (let r = take n (c # s) in
            (if r = line_separator then CHR 0x5C # ''u2028''
             else if r = paragraph_separator then CHR 0x5C # ''u2029''
             else r) @ quote_body (drop n (c # s)))))"
  by pat_completeness auto
termination
  by (relation "measure length") (auto dest!: rune_len_multi [THEN disjE])

definition quote_string :: "string \<Rightarrow> string" where
  "quote_string s = CHR 0x22 # quote_body s @ [CHR 0x22]"

section \<open>Reading a string\<close>

definition hex_val :: "char \<Rightarrow> nat option" where
  "hex_val c =
     (if 48 \<le> byte c \<and> byte c \<le> 57 then Some (byte c - 48)
      else if 97 \<le> byte c \<and> byte c \<le> 102 then Some (byte c - 87)
      else if 65 \<le> byte c \<and> byte c \<le> 70 then Some (byte c - 55)
      else None)"

definition getu4 :: "string \<Rightarrow> (nat \<times> string) option" where
  "getu4 s =
     (case s of
        a # b # c # d # r \<Rightarrow>
          (case (hex_val a, hex_val b, hex_val c, hex_val d) of
             (Some a, Some b, Some c, Some d) \<Rightarrow> Some (4096 * a + 256 * b + 16 * c + d, r)
           | _ \<Rightarrow> None)
      | _ \<Rightarrow> None)"

text \<open>A code unit after \<open>\u\<close>: the two halves of a surrogate pair make one code point.\<close>

definition unicode_escape :: "string \<Rightarrow> (string \<times> string) option" where
  "unicode_escape s =
     (case getu4 s of
        None \<Rightarrow> None
      | Some (u, r) \<Rightarrow>
          if 0xD800 \<le> u \<and> u < 0xE000 then
            (case r of
               p # q # r' \<Rightarrow>
                 (if p = CHR 0x5C \<and> q = CHR ''u'' then
                    (case getu4 r' of
                       Some (v, r'') \<Rightarrow>
                         if u < 0xDC00 \<and> 0xDC00 \<le> v \<and> v < 0xE000
                         then Some (utf8_encode (0x10000 + (u - 0xD800) * 1024 + (v - 0xDC00)), r'')
                         else Some (replacement, r)
                     | None \<Rightarrow> Some (replacement, r))
                  else Some (replacement, r))
             | _ \<Rightarrow> Some (replacement, r))
          else Some (utf8_encode u, r))"

definition escape_at :: "string \<Rightarrow> (string \<times> string) option" where
  "escape_at s =
     (case s of
        [] \<Rightarrow> None
      | c # r \<Rightarrow>
          if c = CHR 0x22 \<or> c = CHR 0x5C \<or> c = CHR ''/'' then Some ([c], r)
          else if c = CHR ''b'' then Some ([chr 8], r)
          else if c = CHR ''f'' then Some ([chr 12], r)
          else if c = CHR ''n'' then Some ([chr 10], r)
          else if c = CHR ''r'' then Some ([chr 13], r)
          else if c = CHR ''t'' then Some ([chr 9], r)
          else if c = CHR ''u'' then unicode_escape r
          else None)"

lemma getu4_shorter: "getu4 s = Some (u, r) \<Longrightarrow> length r < length s"
  by (auto simp: getu4_def split: list.splits option.splits)

lemma unicode_escape_shorter: "unicode_escape s = Some (x, r) \<Longrightarrow> length r < length s"
  by (auto simp: unicode_escape_def split: option.splits prod.splits if_splits list.splits dest!: getu4_shorter)

lemma escape_at_shorter: "escape_at s = Some (x, r) \<Longrightarrow> length r < length s"
  by (auto simp: escape_at_def split: list.splits if_splits dest!: unicode_escape_shorter)

definition prepend :: "string \<Rightarrow> (string \<times> 'a) option \<Rightarrow> (string \<times> 'a) option" where
  "prepend x = map_option (\<lambda>(s, r). (x @ s, r))"

lemma prepend_simps [simp]: "prepend x None = None" "prepend x (Some (s, r)) = Some (x @ s, r)"
  by (simp_all add: prepend_def)

text \<open>What follows the opening quote of a literal, up to the closing one.\<close>

function read_string :: "string \<Rightarrow> (string \<times> string) option" where
  "read_string [] = None"
| "read_string (c # s) =
     (if c = CHR 0x22 then Some ([], s)
      else if c = CHR 0x5C then
        (case escape_at s of None \<Rightarrow> None | Some (x, r) \<Rightarrow> prepend x (read_string r))
      else if byte c < 32 then None
      else if byte c < 128 then prepend [c] (read_string s)
      else
        (let n = rune_len (c # s) in
         if n = 0 then prepend replacement (read_string s)
         else prepend (take n (c # s)) (read_string (drop n (c # s)))))"
  by pat_completeness auto
termination
  by (relation "measure length") (auto dest: escape_at_shorter)

declare read_string.simps(2) [simp del]

section \<open>The round trip of a string\<close>

lemma hex_val_hex_char [simp]: "n < 16 \<Longrightarrow> hex_val (hex_char n) = Some n"
  by (auto simp: hex_val_def hex_char_def)

lemma unicode_escape_hex:
  "n < 128 \<Longrightarrow> unicode_escape (CHR ''0'' # CHR ''0'' # hex_char (n div 16) # hex_char (n mod 16) # s) = Some ([chr n], s)"
  by (simp add: unicode_escape_def getu4_def utf8_encode_def hex_val_def [of "CHR ''0''"])

lemma read_escaped: "escape_at (d # s) = Some (x, r) \<Longrightarrow> read_string (CHR 0x5C # d # s) = prepend x (read_string r)"
  by (simp add: read_string.simps(2))

lemma byte_eqD: "byte c = n \<Longrightarrow> c = chr n"
  by auto

lemma read_ascii:
  assumes "byte c < 128"
  shows "read_string (escape c @ s) = prepend [c] (read_string s)"
proof (cases "escape c = [c]")
  case True
  then have "c \<noteq> CHR 0x22" "c \<noteq> CHR 0x5C" "\<not> byte c < 32" by (auto simp: escape_def split: if_splits)
  with True assms show ?thesis by (simp add: read_string.simps(2))
next
  case False
  have "\<exists>d t. escape c = CHR 0x5C # d # t \<and> escape_at (d # t @ s) = Some ([c], s)"
    using False assms unicode_escape_hex [OF assms, of s]
    by (auto simp: escape_def escape_at_def dest!: byte_eqD split: if_splits)
  then show ?thesis using read_escaped by fastforce
qed

lemma read_rune:
  assumes "128 \<le> byte c" and "rune_len (c # s) = n" and "n \<noteq> 0"
  shows "read_string (take n (c # s) @ t) = prepend (take n (c # s)) (read_string t)"
proof -
  have n: "2 \<le> n" "n \<le> length (c # s)" using assms rune_len_multi [of c s] rune_len_le [of "c # s"] by auto
  then obtain m where m: "n = Suc m" by (cases n) auto
  have len: "rune_len (c # take m s @ t) = n"
    using rune_len_append [of "c # s" t] assms(2,3) m by simp
  have "take n (c # take m s @ t) = take n (c # s)" "drop n (c # take m s @ t) = t"
    using n m by simp_all
  then have "read_string (c # take m s @ t) = prepend (take n (c # s)) (read_string t)"
    using assms(1,3) len by (subst read_string.simps(2)) (auto simp: Let_def)
  with m show ?thesis by simp
qed

lemma read_separators:
  "read_string (CHR 0x5C # ''u2028'' @ t) = prepend line_separator (read_string t)"
  "read_string (CHR 0x5C # ''u2029'' @ t) = prepend paragraph_separator (read_string t)"
  by (simp_all add: read_string.simps(2) escape_at_def unicode_escape_def getu4_def hex_val_def utf8_encode_def
      line_separator_def paragraph_separator_def)

lemma valid_utf8_Cons:
  "valid_utf8 (c # s) \<longleftrightarrow> rune_len (c # s) \<noteq> 0 \<and> valid_utf8 (drop (rune_len (c # s)) (c # s))"
  by (subst valid_utf8.simps) simp

lemma read_quote_body: "valid_utf8 s \<Longrightarrow> read_string (quote_body s @ CHR 0x22 # t) = Some (s, t)"
proof (induction s rule: quote_body.induct)
  case 1
  then show ?case by (simp add: read_string.simps(2))
next
  case (2 c s)
  show ?case
  proof (cases "byte c < 128")
    case True
    then have "valid_utf8 s" using 2(4) by (simp add: valid_utf8_Cons)
    with 2(1) True show ?thesis by (simp add: read_ascii)
  next
    case False
    define n where "n = rune_len (c # s)"
    have n: "n \<noteq> 0" "valid_utf8 (drop n (c # s))" using 2(4) unfolding valid_utf8_Cons n_def by blast+
    have IH: "read_string (quote_body (drop n (c # s)) @ CHR 0x22 # t) = Some (drop n (c # s), t)"
      using 2(3) [OF False n_def n(1) refl n(2)] .
    have "quote_body (c # s) = (if take n (c # s) = line_separator then CHR 0x5C # ''u2028''
        else if take n (c # s) = paragraph_separator then CHR 0x5C # ''u2029'' else take n (c # s)) @
        quote_body (drop n (c # s))"
      using False n(1) n_def by (simp only: quote_body.simps(2) Let_def if_False)
    then have "read_string (quote_body (c # s) @ CHR 0x22 # t) =
        prepend (take n (c # s)) (read_string (quote_body (drop n (c # s)) @ CHR 0x22 # t))"
      using read_separators [of "quote_body (drop n (c # s)) @ CHR 0x22 # t"] read_rune [of c s n] False n(1) n_def
      by (simp only: append_assoc append_Cons split: if_split) auto
    with IH show ?thesis by simp
  qed
qed

end
