(* ===== verification/Json.thy ===== *)
theory Json
  imports Json_String Decimal
begin

text \<open>
  The JSON values \<open>encoding/json\<close> reads: the scanner of \<open>Unmarshal\<close> as a function from a text to
  a value and what follows it. Numbers are kept as their literals, objects as the list of their
  members with duplicates. A value nested deeper than 10000 levels is an error.
\<close>

datatype json = JNull | JBool bool | JNum string | JStr string | JArr "json list" | JObj "(string \<times> json) list"

section \<open>Tokens\<close>

definition is_json_space :: "char \<Rightarrow> bool" where
  "is_json_space c \<longleftrightarrow> c = CHR '' '' \<or> c = CHR 0x09 \<or> c = CHR 0x0A \<or> c = CHR 0x0D"

definition skip :: "string \<Rightarrow> string" where
  "skip s = dropWhile is_json_space s"

text \<open>What follows a given character, or a given word, after spaces.\<close>

definition expect :: "char \<Rightarrow> string \<Rightarrow> string option" where
  "expect c s = (case skip s of [] \<Rightarrow> None | d # r \<Rightarrow> if d = c then Some r else None)"

definition literal :: "string \<Rightarrow> json \<Rightarrow> string \<Rightarrow> (json \<times> string) option" where
  "literal word v s = (if strings_HasPrefix s word then Some (v, drop (length word) s) else None)"

text \<open>
  A number: a sign, an integer without leading zeros, a fraction, an exponent. Each part is
  the number of characters it takes, \<open>None\<close> for a part that is cut off.
\<close>

definition digits :: "string \<Rightarrow> nat" where
  "digits s = length (takeWhile is_digit s)"

definition int_part :: "string \<Rightarrow> nat option" where
  "int_part s =
     (case s of [] \<Rightarrow> None
      | c # r \<Rightarrow> if c = CHR ''0'' then Some 1 else if is_digit c then Some (digits s) else None)"

definition fraction :: "string \<Rightarrow> nat option" where
  "fraction s =
     (case s of
        c # r \<Rightarrow> if c = CHR ''.'' then (if digits r = 0 then None else Some (1 + digits r)) else Some 0
      | [] \<Rightarrow> Some 0)"

definition exponent :: "string \<Rightarrow> nat option" where
  "exponent s =
     (case s of
        c # r \<Rightarrow>
          if c = CHR ''e'' \<or> c = CHR ''E'' then
            (let sign = (if r \<noteq> [] \<and> (hd r = CHR ''+'' \<or> hd r = CHR ''-'') then 1 else 0);
                 n = digits (drop sign r)
             in if n = 0 then None else Some (1 + sign + n))
          else Some 0
      | [] \<Rightarrow> Some 0)"

definition number :: "string \<Rightarrow> (json \<times> string) option" where
  "number s =
     (let sign = (if s \<noteq> [] \<and> hd s = CHR ''-'' then 1 else 0) in
      case int_part (drop sign s) of
        None \<Rightarrow> None
      | Some i \<Rightarrow>
          (case fraction (drop (sign + i) s) of
             None \<Rightarrow> None
           | Some f \<Rightarrow>
               (case exponent (drop (sign + i + f) s) of
                  None \<Rightarrow> None
                | Some e \<Rightarrow> (let n = sign + i + f + e in Some (JNum (take n s), drop n s)))))"

section \<open>Values\<close>

text \<open>
  \<open>depth\<close> is how many more levels may be opened. The first argument bounds the recursion:
  \<open>parse_more\<close> says that anything above twice the length of the text gives the same answer.
\<close>

fun parse_value :: "nat \<Rightarrow> nat \<Rightarrow> string \<Rightarrow> (json \<times> string) option"
  and parse_elements :: "nat \<Rightarrow> nat \<Rightarrow> string \<Rightarrow> (json list \<times> string) option"
  and parse_members :: "nat \<Rightarrow> nat \<Rightarrow> string \<Rightarrow> ((string \<times> json) list \<times> string) option" where
  "parse_value 0 depth s = None"
| "parse_value (Suc n) depth s =
     (case skip s of
        [] \<Rightarrow> None
      | c # r \<Rightarrow>
          if c = CHR 0x22 then map_option (\<lambda>(x, r). (JStr x, r)) (read_string r)
          else if c = CHR 0x7B then
            (if depth = 0 then None
             else case expect CHR 0x7D r of
               Some r' \<Rightarrow> Some (JObj [], r')
             | None \<Rightarrow> map_option (\<lambda>(ms, r). (JObj ms, r)) (parse_members n (depth - 1) r))
          else if c = CHR ''['' then
            (if depth = 0 then None
             else case expect CHR '']'' r of
               Some r' \<Rightarrow> Some (JArr [], r')
             | None \<Rightarrow> map_option (\<lambda>(vs, r). (JArr vs, r)) (parse_elements n (depth - 1) r))
          else if c = CHR ''t'' then literal ''true'' (JBool True) (c # r)
          else if c = CHR ''f'' then literal ''false'' (JBool False) (c # r)
          else if c = CHR ''n'' then literal ''null'' JNull (c # r)
          else number (c # r))"
| "parse_elements 0 depth s = None"
| "parse_elements (Suc n) depth s =
     (case parse_value n depth s of
        None \<Rightarrow> None
      | Some (v, r) \<Rightarrow>
          (case expect CHR '','' r of
             Some r' \<Rightarrow> map_option (\<lambda>(vs, r). (v # vs, r)) (parse_elements n depth r')
           | None \<Rightarrow> map_option (\<lambda>r. ([v], r)) (expect CHR '']'' r)))"
| "parse_members 0 depth s = None"
| "parse_members (Suc n) depth s =
     (case Option.bind (expect CHR 0x22 s) read_string of
        None \<Rightarrow> None
      | Some (k, r) \<Rightarrow>
          (case Option.bind (expect CHR '':'' r) (parse_value n depth) of
             None \<Rightarrow> None
           | Some (v, r) \<Rightarrow>
               (case expect CHR '','' r of
                  Some r' \<Rightarrow> map_option (\<lambda>(ms, r). ((k, v) # ms, r)) (parse_members n depth r')
                | None \<Rightarrow> map_option (\<lambda>r. ([(k, v)], r)) (expect CHR 0x7D r))))"

text \<open>A whole text: one value with nothing but spaces around it.\<close>

definition parse_json :: "string \<Rightarrow> json option" where
  "parse_json s =
     (case parse_value (Suc (2 * length s)) 10000 s of
        Some (v, r) \<Rightarrow> if skip r = [] then Some v else None
      | None \<Rightarrow> None)"

section \<open>What is left is shorter\<close>

lemma skip_le: "length (skip s) \<le> length s"
  by (simp add: skip_def length_dropWhile_le)

lemma skip_Cons: "\<not> is_json_space c \<Longrightarrow> skip (c # s) = c # s"
  by (simp add: skip_def)

lemma expect_shorter: "expect c s = Some r \<Longrightarrow> length r < length s"
  using skip_le [of s] by (auto simp: expect_def split: list.splits if_splits)

lemma literal_le: "literal w v s = Some (x, r) \<Longrightarrow> length r \<le> length s - length w"
  by (auto simp: literal_def split: if_splits)

lemma drop_shorter: "n \<noteq> 0 \<Longrightarrow> length (drop n (c # s)) < Suc (length s)"
  by (cases n) auto

lemma read_string_shorter: "read_string s = Some (x, r) \<Longrightarrow> length r < length s"
proof (induction s arbitrary: x rule: read_string.induct)
  case (2 c s)
  show ?case
    using 2(1-4) 2(5) [unfolded read_string.simps(2)] drop_shorter [of "rune_len (c # s)" c s]
    by (fastforce simp: prepend_def Let_def simp del: rune_len.simps split: if_splits option.splits dest: escape_at_shorter)
qed simp

lemma number_shorter: "number s = Some (v, r) \<Longrightarrow> length r < length s"
  by (auto simp: number_def Let_def int_part_def digits_def split: option.splits if_splits list.splits)

lemma parse_shorter_all:
  "(\<forall>depth s v r. parse_value n depth s = Some (v, r) \<longrightarrow> length r < length s) \<and>
   (\<forall>depth s vs r. parse_elements n depth s = Some (vs, r) \<longrightarrow> length r < length s) \<and>
   (\<forall>depth s ms r. parse_members n depth s = Some (ms, r) \<longrightarrow> length r < length s)"
proof (induction n)
  case (Suc n)
  note val = Suc.IH [THEN conjunct1, rule_format]
    and elements = Suc.IH [THEN conjunct2, THEN conjunct1, rule_format]
    and members = Suc.IH [THEN conjunct2, THEN conjunct2, rule_format]
  show ?case
  proof (intro conjI allI impI)
    fix depth s v r assume a: "parse_value (Suc n) depth s = Some (v, r)"
    then obtain c t where t: "skip s = c # t" by (cases "skip s") auto
    have "length r < length (c # t)"
      using a t
      by (auto split: if_splits option.splits
          dest: read_string_shorter expect_shorter number_shorter literal_le elements members intro: less_SucI)
    with skip_le [of s] t show "length r < length s" by simp
  next
    fix depth s vs r assume "parse_elements (Suc n) depth s = Some (vs, r)"
    then show "length r < length s"
      by (auto split: option.splits dest!: expect_shorter val elements)
  next
    fix depth s ms r assume "parse_members (Suc n) depth s = Some (ms, r)"
    then show "length r < length s"
      by (auto simp: bind_eq_Some_conv split: option.splits
          dest!: expect_shorter read_string_shorter val members)
  qed
qed simp

lemmas parse_shorter =
  parse_shorter_all [THEN conjunct1, rule_format]
  parse_shorter_all [THEN conjunct2, THEN conjunct1, rule_format]
  parse_shorter_all [THEN conjunct2, THEN conjunct2, rule_format]

lemma parse_more:
  "(\<forall>m depth s. 2 * length s < n \<and> n \<le> m \<longrightarrow> parse_value m depth s = parse_value n depth s) \<and>
   (\<forall>m depth s. Suc (2 * length s) < n \<and> n \<le> m \<longrightarrow> parse_elements m depth s = parse_elements n depth s) \<and>
   (\<forall>m depth s. Suc (2 * length s) < n \<and> n \<le> m \<longrightarrow> parse_members m depth s = parse_members n depth s)"
proof (induction n)
  case (Suc n)
  note val = Suc.IH [THEN conjunct1, rule_format]
    and elements = Suc.IH [THEN conjunct2, THEN conjunct1, rule_format]
    and members = Suc.IH [THEN conjunct2, THEN conjunct2, rule_format]
  show ?case
  proof (intro conjI allI impI)
    fix m depth and s :: string assume a: "2 * length s < Suc n \<and> Suc n \<le> m"
    then obtain k where k: "m = Suc k" "n \<le> k" by (cases m) auto
    show "parse_value m depth s = parse_value (Suc n) depth s"
    proof (cases "skip s")
      case (Cons c t)
      then have "Suc (2 * length t) < n" using a skip_le [of s] by simp
      then show ?thesis using k elements [of t k] members [of t k] Cons by (simp split: option.split)
    qed (simp add: k)
  next
    fix m depth and s :: string assume a: "Suc (2 * length s) < Suc n \<and> Suc n \<le> m"
    then obtain k where k: "m = Suc k" "n \<le> k" by (cases m) auto
    have v: "parse_value k depth s = parse_value n depth s" using a k by (intro val) simp
    have "parse_elements k depth r' = parse_elements n depth r'"
      if "parse_value n depth s = Some (x, r)" "expect CHR '','' r = Some r'" for x r r'
      using parse_shorter(1) [OF that(1)] expect_shorter [OF that(2)] a k by (intro elements) simp
    with v show "parse_elements m depth s = parse_elements (Suc n) depth s"
      unfolding k(1) by (auto split: option.split)
  next
    fix m depth and s :: string assume a: "Suc (2 * length s) < Suc n \<and> Suc n \<le> m"
    then obtain k where k: "m = Suc k" "n \<le> k" by (cases m) auto
    show "parse_members m depth s = parse_members (Suc n) depth s"
    proof (cases "Option.bind (expect CHR 0x22 s) read_string")
      case (Some q)
      obtain x r where q: "q = (x, r)" by fastforce
      have r: "length r < length s"
        using Some unfolding q by (auto simp: bind_eq_Some_conv dest!: expect_shorter read_string_shorter)
      have v: "Option.bind (expect CHR '':'' r) (parse_value k depth) = Option.bind (expect CHR '':'' r) (parse_value n depth)"
      proof (cases "expect CHR '':'' r")
        case (Some r1)
        have "parse_value k depth r1 = parse_value n depth r1"
          using expect_shorter [OF Some] r a k by (intro val) simp
        with Some show ?thesis by simp
      qed simp
      show ?thesis
      proof (cases "Option.bind (expect CHR '':'' r) (parse_value n depth)")
        case None
        then show ?thesis using Some v q by (simp add: k(1))
      next
        case (Some z)
        note more = Some
        obtain y r1 where z: "z = (y, r1)" by fastforce
        have r1: "length r1 < length r"
          using Some unfolding z by (auto simp: bind_eq_Some_conv dest!: expect_shorter parse_shorter(1))
        show ?thesis
        proof (cases "expect CHR '','' r1")
          case (Some r')
          have "parse_members k depth r' = parse_members n depth r'"
            using expect_shorter [OF Some] r1 r a k by (intro members) simp
          then show ?thesis using Some more v q z \<open>Option.bind (expect CHR 0x22 s) read_string = Some q\<close> by (simp add: k(1))
        qed (use more v q z \<open>Option.bind (expect CHR 0x22 s) read_string = Some q\<close> in \<open>simp add: k(1)\<close>)
      qed
    qed (simp add: k(1))
  qed
qed simp

end
