(* ===== verification/Json_Print.thy ===== *)
theory Json_Print
  imports Json
begin

text \<open>
  How \<open>encoding/json\<close> writes a value: compactly for \<open>Marshal\<close>, over several lines for
  \<open>MarshalIndent\<close>, and the round trip of the compact form through the scanner of \<open>Unmarshal\<close>.
  Bytes of a string that are not UTF-8 come back as the replacement character.
\<close>

section \<open>Printing\<close>

definition intercalate :: "string \<Rightarrow> string list \<Rightarrow> string" where
  "intercalate sep parts = (case parts of [] \<Rightarrow> [] | p # ps \<Rightarrow> p @ concat (map (\<lambda>q. sep @ q) ps))"

fun print_json :: "json \<Rightarrow> string" where
  "print_json JNull = ''null''"
| "print_json (JBool b) = (if b then ''true'' else ''false'')"
| "print_json (JNum lit) = lit"
| "print_json (JStr s) = quote_string s"
| "print_json (JArr vs) = CHR ''['' # intercalate '','' (map print_json vs) @ [CHR '']'']"
| "print_json (JObj ms) =
     CHR 0x7B # intercalate '','' (map (\<lambda>m. quote_string (fst m) @ CHR '':'' # print_json (snd m)) ms) @ [CHR 0x7D]"

text \<open>\<open>MarshalIndent\<close> with an empty prefix: each level is indented, an empty array or object is not opened.\<close>

definition newline :: "string \<Rightarrow> nat \<Rightarrow> string" where
  "newline indent level = CHR 0x0A # concat (replicate level indent)"

definition indented :: "string \<Rightarrow> nat \<Rightarrow> string \<Rightarrow> string \<Rightarrow> string list \<Rightarrow> string" where
  "indented indent level op cl parts =
     (if parts = [] then op @ cl
      else op @ newline indent (Suc level) @
        intercalate (CHR '','' # newline indent (Suc level)) parts @ newline indent level @ cl)"

fun print_indent :: "string \<Rightarrow> nat \<Rightarrow> json \<Rightarrow> string" where
  "print_indent ind level (JArr vs) = indented ind level ''['' '']'' (map (print_indent ind (Suc level)) vs)"
| "print_indent ind level (JObj ms) = indented ind level [CHR 0x7B] [CHR 0x7D]
     (map (\<lambda>m. quote_string (fst m) @ '': '' @ print_indent ind (Suc level) (snd m)) ms)"
| "print_indent ind level v = print_json v"

section \<open>What is read back\<close>

text \<open>The string a literal is read back as.\<close>

function to_valid_utf8 :: "string \<Rightarrow> string" where
  "to_valid_utf8 [] = []"
| "to_valid_utf8 (c # s) =
     (let n = rune_len (c # s) in
      if n = 0 then replacement @ to_valid_utf8 s else take n (c # s) @ to_valid_utf8 (drop n (c # s)))"
  by pat_completeness auto
termination
  by (relation "measure length") (simp_all del: rune_len.simps)

declare to_valid_utf8.simps(2) [simp del]

lemma to_valid_utf8_id: "valid_utf8 s \<Longrightarrow> to_valid_utf8 s = s"
proof (induction s rule: to_valid_utf8.induct)
  case (2 c s)
  then have "rune_len (c # s) \<noteq> 0" "valid_utf8 (drop (rune_len (c # s)) (c # s))"
    unfolding valid_utf8_Cons by blast+
  with 2(2) [OF refl] show ?case by (simp add: to_valid_utf8.simps(2) Let_def del: rune_len.simps)
qed simp

lemma read_quote: "read_string (quote_body s @ CHR 0x22 # t) = Some (to_valid_utf8 s, t)"
proof (induction s rule: quote_body.induct)
  case 1
  then show ?case by (simp add: read_string.simps(2))
next
  case (2 c s)
  show ?case
  proof (cases "byte c < 128")
    case True
    then show ?thesis using 2(1) by (simp add: read_ascii to_valid_utf8.simps(2))
  next
    case multi: False
    show ?thesis
    proof (cases "rune_len (c # s) = 0")
      case True
      have "read_string (CHR 0x5C # ''ufffd'' @ t) = prepend replacement (read_string t)" for t
        by (simp add: read_string.simps(2) escape_at_def unicode_escape_def getu4_def hex_val_def utf8_encode_def
            replacement_def)
      with 2(2) [OF multi refl True] multi True show ?thesis
        by (simp add: to_valid_utf8.simps(2) Let_def del: rune_len.simps)
    next
      case False
      define n where "n = rune_len (c # s)"
      have n: "n \<noteq> 0" using False n_def by simp
      have body: "quote_body (c # s) = (if take n (c # s) = line_separator then CHR 0x5C # ''u2028''
          else if take n (c # s) = paragraph_separator then CHR 0x5C # ''u2029'' else take n (c # s)) @
          quote_body (drop n (c # s))"
        using multi n n_def by (simp only: quote_body.simps(2) Let_def if_False)
      have "read_string (quote_body (c # s) @ CHR 0x22 # t) =
          prepend (take n (c # s)) (read_string (quote_body (drop n (c # s)) @ CHR 0x22 # t))"
        using read_separators [of "quote_body (drop n (c # s)) @ CHR 0x22 # t"] read_rune [of c s n] multi n n_def body
        by (simp only: append_assoc append_Cons split: if_split) auto
      with 2(3) [OF multi n_def n refl] show ?thesis
        using n n_def by (simp add: to_valid_utf8.simps(2) Let_def del: rune_len.simps)
    qed
  qed
qed

fun read_back :: "json \<Rightarrow> json" where
  "read_back (JStr s) = JStr (to_valid_utf8 s)"
| "read_back (JArr vs) = JArr (map read_back vs)"
| "read_back (JObj ms) = JObj (map (\<lambda>m. (to_valid_utf8 (fst m), read_back (snd m))) ms)"
| "read_back v = v"

text \<open>A number literal, and a value that nests at most \<open>d\<close> levels with number literals only.\<close>

definition is_number :: "string \<Rightarrow> bool" where
  "is_number lit \<longleftrightarrow> number lit = Some (JNum lit, [])"

fun well_formed :: "nat \<Rightarrow> json \<Rightarrow> bool" where
  "well_formed d (JNum lit) = is_number lit"
| "well_formed d (JArr vs) = (0 < d \<and> list_all (well_formed (d - 1)) vs)"
| "well_formed d (JObj ms) = (0 < d \<and> list_all (\<lambda>m. well_formed (d - 1) (snd m)) ms)"
| "well_formed d v = True"

section \<open>A literal followed by something else\<close>

text \<open>What may follow a value: nothing, or the punctuation between and after values.\<close>

definition ends :: "string \<Rightarrow> bool" where
  "ends t \<longleftrightarrow> t = [] \<or> hd t = CHR '','' \<or> hd t = CHR '']'' \<or> hd t = CHR 0x7D"

lemma ends_Cons [simp]: "ends (c # t) \<longleftrightarrow> c = CHR '','' \<or> c = CHR '']'' \<or> c = CHR 0x7D"
  by (simp add: ends_def)

lemma ends_Nil [simp]: "ends []"
  by (simp add: ends_def)

lemma ends_cases: "ends t \<Longrightarrow> (t = [] \<Longrightarrow> P) \<Longrightarrow>
   (\<And>c r. t = c # r \<Longrightarrow> \<not> is_digit c \<Longrightarrow> c \<notin> {CHR ''.'', CHR ''e'', CHR ''E'', CHR ''+'', CHR ''-''} \<Longrightarrow> P) \<Longrightarrow> P"
  by (cases t) (auto simp: is_digit_def)

lemma digits_append:
  assumes "ends t" shows "digits (s @ t) = digits s"
proof -
  have "takeWhile is_digit (s @ t) = takeWhile is_digit s"
    using assms by (induction s) (auto elim: ends_cases)
  then show ?thesis by (simp add: digits_def)
qed

lemma digits_le: "digits s \<le> length s"
  by (simp add: digits_def length_takeWhile_le)

lemma int_part_append: "ends t \<Longrightarrow> int_part s = Some i \<Longrightarrow> int_part (s @ t) = Some i \<and> i \<le> length s"
  using digits_append [of t s] digits_le [of s] by (auto simp: int_part_def split: list.splits if_splits)

lemma fraction_append:
  assumes "ends t" and "fraction s = Some f"
  shows "fraction (s @ t) = Some f \<and> f \<le> length s"
proof (cases s)
  case Nil
  from assms(1) show ?thesis by (rule ends_cases) (use assms(2) Nil in \<open>auto simp: fraction_def\<close>)
next
  case (Cons c r)
  with assms(2) show ?thesis
    using digits_append [OF assms(1), of r] digits_le [of r] by (auto simp: fraction_def split: if_splits)
qed

lemma exponent_append:
  assumes "ends t" and "exponent s = Some e"
  shows "exponent (s @ t) = Some e \<and> e \<le> length s"
proof (cases s)
  case Nil
  from assms(1) show ?thesis by (rule ends_cases) (use assms(2) Nil in \<open>auto simp: exponent_def\<close>)
next
  case (Cons c r)
  define sg where "sg = (if r \<noteq> [] \<and> (hd r = CHR ''+'' \<or> hd r = CHR ''-'') then 1 else 0 :: nat)"
  have sg: "(if r @ t \<noteq> [] \<and> (hd (r @ t) = CHR ''+'' \<or> hd (r @ t) = CHR ''-'') then 1 else 0) = sg"
    using assms(1) by (cases r) (auto simp: sg_def elim: ends_cases)
  have len: "sg \<le> length r" by (cases r) (auto simp: sg_def)
  show ?thesis
    using assms(2) digits_append [OF assms(1), of "drop sg r"] digits_le [of "drop sg r"] len
    unfolding Cons exponent_def append_Cons list.case sg [symmetric]
    unfolding sg_def [symmetric] sg [symmetric] Let_def
    by (auto split: if_splits)
qed

lemma number_append:
  assumes "is_number lit" and "ends t"
  shows "number (lit @ t) = Some (JNum lit, t)"
proof -
  define sg where "sg = (if lit \<noteq> [] \<and> hd lit = CHR ''-'' then 1 else 0 :: nat)"
  obtain i f e where parts: "int_part (drop sg lit) = Some i" "fraction (drop (sg + i) lit) = Some f"
      "exponent (drop (sg + i + f) lit) = Some e" and n: "take (sg + i + f + e) lit = lit" "drop (sg + i + f + e) lit = []"
    using assms(1) unfolding is_number_def number_def sg_def [symmetric] Let_def by (auto split: option.splits)
  have lit: "lit \<noteq> []" using parts(1) by (auto simp: int_part_def)
  then have sg: "sg \<le> length lit" by (cases lit) (simp_all add: sg_def)
  have i: "int_part (drop sg (lit @ t)) = Some i" "sg + i \<le> length lit"
    using int_part_append [OF assms(2) parts(1)] sg by (simp, simp add: le_diff_conv2 add.commute)
  have f: "fraction (drop (sg + i) (lit @ t)) = Some f" "sg + i + f \<le> length lit"
    using fraction_append [OF assms(2) parts(2)] i(2) by (simp, simp add: le_diff_conv2 add.commute)
  have e: "exponent (drop (sg + i + f) (lit @ t)) = Some e" "e \<le> length lit - (sg + i + f)"
    using exponent_append [OF assms(2) parts(3)] f(2) by simp_all
  have cut: "sg + i + f + e = length lit" using n(2) e(2) f(2) by simp
  have "(if lit @ t \<noteq> [] \<and> hd (lit @ t) = CHR ''-'' then 1 else 0) = sg" using lit by (simp add: sg_def)
  then show ?thesis using i(1) f(1) e(1) cut by (simp add: number_def Let_def)
qed

section \<open>The round trip\<close>

lemma expect_here: "\<not> is_json_space c \<Longrightarrow> expect c (c # s) = Some s"
  by (simp add: expect_def skip_Cons)

lemma expect_other: "\<not> is_json_space d \<Longrightarrow> d \<noteq> c \<Longrightarrow> expect c (d # s) = None"
  by (simp add: expect_def skip_Cons)

lemma punctuation_not_space [simp]:
  "\<not> is_json_space CHR '',''" "\<not> is_json_space CHR '':''" "\<not> is_json_space CHR 0x22" "\<not> is_json_space CHR 0x7B"
  "\<not> is_json_space CHR 0x7D" "\<not> is_json_space CHR ''[''" "\<not> is_json_space CHR '']''"
  by (simp_all add: is_json_space_def)

lemma number_start:
  assumes "is_number lit"
  obtains c cs where "lit = c # cs" "is_digit c \<or> c = CHR ''-''"
  using assms
  by (cases lit) (auto simp: is_number_def number_def int_part_def is_digit_def Let_def split: option.splits if_splits)

text \<open>A value starts with none of the characters that close or separate values.\<close>

lemma print_start:
  assumes "well_formed d j"
  obtains c cs where "print_json j = c # cs" "\<not> is_json_space c" "c \<noteq> CHR '']''" "c \<noteq> CHR 0x7D"
proof (cases j)
  case (JNum lit)
  with assms obtain c cs where "lit = c # cs" "is_digit c \<or> c = CHR ''-''" by (auto elim: number_start)
  moreover from this(2) have "\<not> is_json_space c" "c \<noteq> CHR '']''" "c \<noteq> CHR 0x7D"
    by (auto simp: is_digit_def is_json_space_def)
  ultimately show ?thesis using that JNum by simp
next
  case (JBool b)
  with that show ?thesis by (cases b) (auto simp: is_json_space_def)
qed (use that in \<open>auto simp: is_json_space_def quote_string_def\<close>)

lemma literal_append:
  "literal ''null'' v (''null'' @ t) = Some (v, t)" "literal ''true'' v (''true'' @ t) = Some (v, t)"
  "literal ''false'' v (''false'' @ t) = Some (v, t)"
  by (simp_all add: literal_def)

lemma parse_scalars:
  "parse_value (Suc n) d (print_json JNull @ t) = Some (JNull, t)"
  "parse_value (Suc n) d (print_json (JBool b) @ t) = Some (JBool b, t)"
  "parse_value (Suc n) d (print_json (JStr s) @ t) = Some (JStr (to_valid_utf8 s), t)"
  using literal_append by (cases b; simp add: skip_Cons is_json_space_def literal_def quote_string_def read_quote)+

lemma parse_number:
  assumes "is_number lit" and "ends t"
  shows "parse_value (Suc n) d (lit @ t) = Some (JNum lit, t)"
proof -
  from assms(1) obtain c cs where c: "lit = c # cs" "is_digit c \<or> c = CHR ''-''" by (rule number_start)
  then have "c \<noteq> CHR 0x22" "c \<noteq> CHR 0x7B" "c \<noteq> CHR ''[''" "c \<noteq> CHR ''t''" "c \<noteq> CHR ''f''" "c \<noteq> CHR ''n''"
    "\<not> is_json_space c"
    by (auto simp: is_digit_def is_json_space_def)
  with number_append [OF assms] c(1) show ?thesis by (simp add: skip_Cons)
qed

text \<open>
  The elements of an array and the members of an object, given that each value is read back. The
  closing bracket ends the list.
\<close>

lemma intercalate_Cons:
  "intercalate sep (p # ps) = p @ (if ps = [] then [] else sep @ intercalate sep ps)"
  by (cases ps) (simp_all add: intercalate_def)

lemma parse_elements_print:
  assumes "\<And>v n t. v \<in> set vs \<Longrightarrow> ends t \<Longrightarrow> 2 * length (print_json v @ t) < n \<Longrightarrow>
      parse_value n d (print_json v @ t) = Some (read_back v, t)"
    and "vs \<noteq> []" and "Suc (2 * length (intercalate '','' (map print_json vs) @ CHR '']'' # t)) < n"
  shows "parse_elements n d (intercalate '','' (map print_json vs) @ CHR '']'' # t) = Some (map read_back vs, t)"
  using assms
proof (induction vs arbitrary: n)
  case (Cons v vs)
  from Cons.prems(3) obtain m where n: "n = Suc m" by (cases n) auto
  let ?rest = "(if vs = [] then [] else '','' @ intercalate '','' (map print_json vs)) @ CHR '']'' # t"
  have whole: "intercalate '','' (map print_json (v # vs)) @ CHR '']'' # t = print_json v @ ?rest"
    by (simp add: intercalate_Cons)
  have v: "parse_value m d (print_json v @ ?rest) = Some (read_back v, ?rest)"
    using Cons.prems(3) unfolding whole n by (intro Cons.prems(1)) auto
  show ?case
  proof (cases "vs = []")
    case True
    with v show ?thesis unfolding whole n by (simp add: expect_here expect_other)
  next
    case False
    have "parse_elements m d (intercalate '','' (map print_json vs) @ CHR '']'' # t) = Some (map read_back vs, t)"
      using Cons.prems(3) False unfolding whole n by (intro Cons.IH Cons.prems(1)) auto
    with v False show ?thesis unfolding whole n by (simp add: expect_here)
  qed
qed simp

abbreviation print_member :: "string \<times> json \<Rightarrow> string" where
  "print_member m \<equiv> quote_string (fst m) @ CHR '':'' # print_json (snd m)"

lemma parse_members_print:
  assumes "\<And>m n t. m \<in> set ms \<Longrightarrow> ends t \<Longrightarrow> 2 * length (print_json (snd m) @ t) < n \<Longrightarrow>
      parse_value n d (print_json (snd m) @ t) = Some (read_back (snd m), t)"
    and "ms \<noteq> []" and "Suc (2 * length (intercalate '','' (map print_member ms) @ CHR 0x7D # t)) < n"
  shows "parse_members n d (intercalate '','' (map print_member ms) @ CHR 0x7D # t) =
    Some (map (\<lambda>m. (to_valid_utf8 (fst m), read_back (snd m))) ms, t)"
  using assms
proof (induction ms arbitrary: n)
  case (Cons m ms)
  from Cons.prems(3) obtain k where n: "n = Suc k" by (cases n) auto
  let ?rest = "(if ms = [] then [] else '','' @ intercalate '','' (map print_member ms)) @ CHR 0x7D # t"
  have whole: "intercalate '','' (map print_member (m # ms)) @ CHR 0x7D # t =
      CHR 0x22 # quote_body (fst m) @ CHR 0x22 # CHR '':'' # print_json (snd m) @ ?rest"
    by (simp add: intercalate_Cons quote_string_def)
  have v: "parse_value k d (print_json (snd m) @ ?rest) = Some (read_back (snd m), ?rest)"
    using Cons.prems(3) unfolding whole n by (intro Cons.prems(1)) auto
  show ?case
  proof (cases "ms = []")
    case True
    with v show ?thesis unfolding whole n by (simp add: expect_here expect_other read_quote)
  next
    case False
    have "parse_members k d (intercalate '','' (map print_member ms) @ CHR 0x7D # t) =
        Some (map (\<lambda>m. (to_valid_utf8 (fst m), read_back (snd m))) ms, t)"
      using Cons.prems(3) False unfolding whole n by (intro Cons.IH Cons.prems(1)) auto
    with v False show ?thesis unfolding whole n by (simp add: expect_here read_quote)
  qed
qed simp

lemma parse_print:
  assumes "well_formed d j" and "ends t" and "2 * length (print_json j @ t) < n"
  shows "parse_value n d (print_json j @ t) = Some (read_back j, t)"
  using assms
proof (induction j arbitrary: d t n rule: read_back.induct [case_names str arr obj nil bool num])
  case (arr vs)
  from arr(4) obtain m where n: "n = Suc m" by (cases n) auto
  show ?case
  proof (cases "vs = []")
    case True
    with arr(2) show ?thesis unfolding n by (simp add: skip_Cons expect_here intercalate_def)
  next
    case False
    then obtain v ws where vs: "vs = v # ws" by (cases vs) auto
    with arr(2) have wf: "well_formed (d - 1) v" by simp
    then obtain c cs where c: "print_json v = c # cs" "\<not> is_json_space c" "c \<noteq> CHR '']''" by (rule print_start)
    have "parse_elements m (d - 1) (intercalate '','' (map print_json vs) @ CHR '']'' # t) = Some (map read_back vs, t)"
      using arr(2,4) False unfolding n by (intro parse_elements_print arr(1)) (auto simp: list_all_iff)
    moreover have "expect CHR '']'' (intercalate '','' (map print_json vs) @ CHR '']'' # t) = None"
      using c by (simp add: vs intercalate_Cons expect_other)
    ultimately show ?thesis using arr(2) unfolding n by (simp add: skip_Cons)
  qed
next
  case (obj ms)
  from obj(4) obtain k where n: "n = Suc k" by (cases n) auto
  show ?case
  proof (cases "ms = []")
    case True
    with obj(2) show ?thesis unfolding n by (simp add: skip_Cons expect_here intercalate_def)
  next
    case False
    then obtain m q where ms: "ms = m # q" by (cases ms) auto
    have "parse_members k (d - 1) (intercalate '','' (map print_member ms) @ CHR 0x7D # t) =
        Some (map (\<lambda>m. (to_valid_utf8 (fst m), read_back (snd m))) ms, t)"
      using obj(2,4) False unfolding n by (intro parse_members_print obj(1)) (auto simp: list_all_iff)
    moreover have "expect CHR 0x7D (intercalate '','' (map print_member ms) @ CHR 0x7D # t) = None"
      by (simp add: ms intercalate_Cons quote_string_def expect_other)
    ultimately show ?thesis using obj(2) unfolding n by (simp add: skip_Cons)
  qed
next
  case (num lit)
  from num(3) obtain m where "n = Suc m" by (cases n) auto
  with num parse_number [of lit t m d] show ?case by simp
qed (metis gr_implies_not_zero not0_implies_Suc parse_scalars(3) read_back.simps(1),
    metis gr_implies_not_zero not0_implies_Suc parse_scalars(1) read_back.simps(4),
    metis gr_implies_not_zero not0_implies_Suc parse_scalars(2) read_back.simps(5))

theorem parse_json_print:
  assumes "well_formed 10000 j"
  shows "parse_json (print_json j) = Some (read_back j)"
proof -
  have "parse_value (Suc (2 * length (print_json j))) 10000 (print_json j @ []) = Some (read_back j, [])"
    using assms by (intro parse_print) simp_all
  then show ?thesis by (simp add: parse_json_def skip_def)
qed

section \<open>The names of fields\<close>

text \<open>
  The fold of a key: names match whatever their case. Of the letters outside ASCII only the long
  s folds into the letters of the names used here.
\<close>

definition char_upper :: "char \<Rightarrow> char" where
  "char_upper c = (if 97 \<le> byte c \<and> byte c \<le> 122 then chr (byte c - 32) else c)"

fun fold_key :: "string \<Rightarrow> string" where
  "fold_key (c # d # s) =
     (if byte c = 0xC5 \<and> byte d = 0xBF then CHR ''S'' # fold_key s else char_upper c # fold_key (d # s))"
| "fold_key [c] = [char_upper c]"
| "fold_key [] = []"

lemma fold_names [simp]:
  "fold_key ''file'' = ''FILE''" "fold_key ''pos'' = ''POS''" "fold_key ''time'' = ''TIME''"
  "fold_key ''server_id'' = ''SERVER_ID''" "fold_key ''row'' = ''ROW''" "fold_key ''database'' = ''DATABASE''"
  "fold_key ''table'' = ''TABLE''" "fold_key ''type'' = ''TYPE''" "fold_key ''data'' = ''DATA''" "fold_key ''old'' = ''OLD''"
  by (simp_all add: char_upper_def char_of_eq_iff)

declare fold_key.simps [simp del]

lemma to_valid_ascii: "\<forall>c \<in> set s. byte c < 128 \<Longrightarrow> to_valid_utf8 s = s"
  by (induction s) (simp_all add: to_valid_utf8.simps(2))

lemma to_valid_names [simp]:
  "to_valid_utf8 ''file'' = ''file''" "to_valid_utf8 ''pos'' = ''pos''" "to_valid_utf8 ''time'' = ''time''"
  "to_valid_utf8 ''server_id'' = ''server_id''" "to_valid_utf8 ''row'' = ''row''"
  "to_valid_utf8 ''database'' = ''database''" "to_valid_utf8 ''table'' = ''table''"
  "to_valid_utf8 ''type'' = ''type''" "to_valid_utf8 ''data'' = ''data''" "to_valid_utf8 ''old'' = ''old''"
  by (simp_all add: to_valid_ascii)

end
