(* ===== verification/Go_Float.thy ===== *)
theory Go_Float
  imports Decimal
begin

text \<open>
  The floating-point numbers of JSON: \<open>strconv.ParseFloat\<close> on a decimal literal, which rounds to the
  nearest float with ties to even, and the shortest decimal that reads back as the float, which
  \<open>strconv.AppendFloat\<close> with precision \<open>-1\<close> finds. Everything is computed on natural numbers: a
  float without its sign is the number \<open>n\<close> of its bits, and its value is a multiple of the smallest
  positive float \<open>2 ^ - E\<close>. A format is given by the bits \<open>f\<close> of its fraction and by \<open>E\<close>:
  52 and 1074 for \<open>float64\<close>, 23 and 149 for \<open>float32\<close>.
\<close>

section \<open>Values and rounding\<close>

text \<open>The value of a float in units of the smallest one: below \<open>2 ^ f\<close> it is subnormal.\<close>

definition units :: "nat \<Rightarrow> nat \<Rightarrow> nat" where
  "units f n = (if n < 2 ^ f then n else (2 ^ f + n mod 2 ^ f) * 2 ^ (n div 2 ^ f - 1))"

fun bit_length :: "nat \<Rightarrow> nat" where
  "bit_length n = (if n = 0 then 0 else Suc (bit_length (n div 2)))"

declare bit_length.simps [simp del]

text \<open>
  The float nearest to \<open>a / b\<close> units: \<open>k\<close> is the exponent that leaves \<open>f + 1\<close> bits, \<open>q\<close> what
  is kept of the quotient, and the remainder decides. The sum below carries into the exponent.
\<close>

definition round_even :: "nat \<Rightarrow> nat \<Rightarrow> nat" where
  "round_even a b =
     (let q = a div b; r = a mod b in if b < 2 * r \<or> b = 2 * r \<and> odd q then Suc q else q)"

definition nearest :: "nat \<Rightarrow> nat \<Rightarrow> nat \<Rightarrow> nat" where
  "nearest f a b =
     (let k = bit_length (a div b) - Suc f in k * 2 ^ f + round_even a (b * 2 ^ k))"

section \<open>Lemmas\<close>

lemma bit_length_bounds: "0 < n \<Longrightarrow> 2 ^ (bit_length n - 1) \<le> n \<and> n < 2 ^ bit_length n \<and> 0 < bit_length n"
proof (induction n rule: bit_length.induct)
  case (1 n)
  show ?case
  proof (cases "n = 1")
    case True
    have "bit_length 1 = 1" by (simp add: bit_length.simps [of "Suc 0"] bit_length.simps [of 0])
    with True show ?thesis by simp
  next
    case False
    with 1 have "0 < n div 2" by simp
    with 1 False show ?thesis
      by (subst (1 2 3) bit_length.simps) (cases "bit_length (n div 2)", auto)
  qed
qed

lemma bit_length_eq: "2 ^ k \<le> n \<Longrightarrow> n < 2 ^ Suc k \<Longrightarrow> bit_length n = Suc k"
proof -
  assume n: "2 ^ k \<le> n" "n < 2 ^ Suc k"
  then have "0 < n" using zero_less_power [of "2 :: nat" k] by linarith
  note b = bit_length_bounds [OF this]
  have "(2 :: nat) ^ (bit_length n - 1) < 2 ^ Suc k" "(2 :: nat) ^ k < 2 ^ bit_length n" using b n by linarith+
  then have "bit_length n - 1 < Suc k" "k < bit_length n" by (simp_all only: power_strict_increasing_iff one_less_numeral_iff semiring_norm(76))
  with b show ?thesis by linarith
qed

lemma bit_length_le: "n < 2 ^ k \<Longrightarrow> bit_length n \<le> k"
proof (cases "n = 0")
  case False
  assume "n < 2 ^ k"
  with False bit_length_bounds [of n] have "(2 :: nat) ^ (bit_length n - 1) < 2 ^ k" by linarith
  then have "bit_length n - 1 < k" by (simp only: power_strict_increasing_iff one_less_numeral_iff semiring_norm(76))
  then show ?thesis by linarith
qed (simp add: bit_length.simps)

text \<open>The float \<open>k * 2 ^ f + q\<close> is worth \<open>q * 2 ^ k\<close> units, also when \<open>q\<close> carries over.\<close>

lemma units_scaled:
  assumes "k = 0 \<or> 2 ^ f \<le> q" and "q \<le> 2 ^ Suc f"
  shows "units f (k * 2 ^ f + q) = q * 2 ^ k"
proof -
  consider "q < 2 ^ f" "k = 0" | r where "q = 2 ^ f + r" "r < 2 ^ f" | "q = 2 * 2 ^ f"
    using assms by (cases "q < 2 ^ f"; cases "q = 2 * 2 ^ f") (auto simp: not_less le_iff_add)
  then show ?thesis
  proof cases
    case 2
    have "(c * p + r) div p = c" "(c * p + r) mod p = r" if "r < p" for c p :: nat
      using that by simp_all
    moreover have "k * 2 ^ f + q = Suc k * 2 ^ f + r" using 2 by simp
    ultimately have "(k * 2 ^ f + q) div 2 ^ f = Suc k" "(k * 2 ^ f + q) mod 2 ^ f = r"
      using 2(2) by presburger+
    with 2 show ?thesis by (simp add: units_def)
  next
    case 3
    have "(2 * 2 ^ f + k * 2 ^ f) = (2 + k) * (2 :: nat) ^ f" by (simp add: algebra_simps)
    with 3 show ?thesis by (simp add: units_def add.commute)
  qed (simp add: units_def)
qed

lemma units_cases:
  obtains k q where "n = k * 2 ^ f + q" "k = 0 \<or> 2 ^ f \<le> q" "q < 2 ^ Suc f" "units f n = q * 2 ^ k"
proof (cases "n < 2 ^ f")
  case True
  then show ?thesis using that [of 0 n] by (simp add: units_def)
next
  case False
  define d where "d = n div 2 ^ f"
  have d: "0 < d" using False by (simp add: d_def div_greater_zero_iff)
  have n: "n = (d - 1) * 2 ^ f + (2 ^ f + n mod 2 ^ f)"
    using d div_mult_mod_eq [of n "2 ^ f"] unfolding d_def [symmetric] by (cases d) simp_all
  show ?thesis
    using n that [of "d - 1" "2 ^ f + n mod 2 ^ f"] False by (simp add: units_def d_def)
qed

text \<open>Two floats are apart by at least the last bit of the lower binade.\<close>

lemma units_order:
  assumes "k = 0 \<or> 2 ^ f \<le> q" and "q < 2 ^ Suc f" and "k' < k" and "q' < 2 ^ Suc f"
  shows "q' * 2 ^ k' < (2 :: nat) ^ (f + k)" and "2 ^ (f + k) \<le> q * (2 :: nat) ^ k"
proof -
  have "q' * 2 ^ k' < (2 :: nat) ^ Suc f * 2 ^ k'" using assms(4) by simp
  also have "\<dots> = 2 ^ (f + Suc k')" by (simp add: power_add)
  also have "\<dots> \<le> 2 ^ (f + k)" using assms(3) by (intro power_increasing) simp_all
  finally show "q' * 2 ^ k' < (2 :: nat) ^ (f + k)" .
  have "2 ^ f \<le> q" using assms(1,3) by simp
  then show "2 ^ (f + k) \<le> q * (2 :: nat) ^ k" by (simp add: power_add)
qed

lemma units_inject:
  assumes "units f m = units f n" shows "m = n"
proof -
  obtain k q where n: "n = k * 2 ^ f + q" "k = 0 \<or> 2 ^ f \<le> q" "q < 2 ^ Suc f" "units f n = q * 2 ^ k" by (rule units_cases)
  obtain k' q' where m: "m = k' * 2 ^ f + q'" "k' = 0 \<or> 2 ^ f \<le> q'" "q' < 2 ^ Suc f" "units f m = q' * 2 ^ k'" by (rule units_cases)
  have "k = k'"
    using units_order [of k f q k' q'] units_order [of k' f q' k q] n m assms
    by (metis linorder_less_linear not_le)
  with n m assms show ?thesis by simp
qed

lemma units_apart:
  assumes "units f m \<noteq> units f n"
  shows "int (units f n) \<le> \<bar>int (units f m) - int (units f n)\<bar> * 2 ^ Suc f"
proof -
  obtain k q where n: "k = 0 \<or> 2 ^ f \<le> q" "q < 2 ^ Suc f" "units f n = q * 2 ^ k" by (rule units_cases)
  obtain k' q' where m: "k' = 0 \<or> 2 ^ f \<le> q'" "q' < 2 ^ Suc f" "units f m = q' * 2 ^ k'" by (rule units_cases)
  let ?U = "int (units f n)" and ?V = "int (units f m)"
  show ?thesis
  proof (cases "k' < k")
    case True
    have V: "?V * 2 ^ Suc f \<le> (2 ^ Suc f - 1) * ?U"
    proof -
      have "q' \<le> 2 ^ Suc f - 1" using m(2) by simp
      then have "units f m * 2 ^ Suc f \<le> (2 ^ Suc f - 1) * (2 ^ k' * 2 ^ Suc f)" by (simp add: m(3))
      also have "\<dots> = (2 ^ Suc f - 1) * 2 ^ (f + Suc k')" by (simp add: power_add)
      also have "\<dots> \<le> (2 ^ Suc f - 1) * 2 ^ (f + k)"
        using True by (intro mult_left_mono power_increasing) simp_all
      also have "\<dots> \<le> (2 ^ Suc f - 1) * units f n"
        using units_order(2) [OF n(1,2) True m(2)] by (intro mult_left_mono) (simp_all add: n(3))
      finally have "int (units f m * 2 ^ Suc f) \<le> int ((2 ^ Suc f - 1) * units f n)" by (simp only: of_nat_le_iff)
      then show ?thesis by simp
    qed
    then have "?U \<le> (?U - ?V) * 2 ^ Suc f" by (simp add: algebra_simps)
    also have "\<dots> \<le> \<bar>?V - ?U\<bar> * 2 ^ Suc f" by (intro mult_right_mono) simp_all
    finally show ?thesis .
  next
    case False
    have "2 ^ k \<le> \<bar>?V - ?U\<bar>"
    proof -
      obtain c where "k' = k + c" using False by (metis not_less le_Suc_ex)
      then have "?V - ?U = (int q' * 2 ^ c - int q) * 2 ^ k" by (simp add: m(3) n(3) power_add algebra_simps)
      moreover from this assms have "int q' * 2 ^ c - int q \<noteq> 0" by force
      then have "1 \<le> \<bar>int q' * 2 ^ c - int q\<bar>" by linarith
      ultimately show ?thesis by (simp add: abs_mult)
    qed
    then have "2 ^ k * 2 ^ Suc f \<le> \<bar>?V - ?U\<bar> * 2 ^ Suc f" by (intro mult_right_mono) simp_all
    moreover have "?U \<le> 2 ^ k * 2 ^ Suc f"
    proof -
      have "units f n \<le> 2 ^ k * 2 ^ Suc f" using n(2,3) by simp
      then have "int (units f n) \<le> int (2 ^ k * 2 ^ Suc f)" by (simp only: of_nat_le_iff)
      then show ?thesis by simp
    qed
    ultimately show ?thesis by linarith
  qed
qed

text \<open>Rounding picks a closest float, and the only one when a float is close enough.\<close>

lemma round_even_close:
  assumes "0 < b"
  shows "\<bar>int (round_even a b) * int b - int a\<bar> \<le> \<bar>int c * int b - int a\<bar>"
proof -
  define q r where "q = a div b" and "r = a mod b"
  have a: "a = q * b + r" "r < b" using assms by (simp_all add: q_def r_def)
  define X P where "X = int c * int b" and "P = int q * int b"
  have far: "X \<le> P \<or> P + int b \<le> X"
  proof (cases "c \<le> q")
    case False
    then have "(int q + 1) * int b \<le> X" unfolding X_def by (intro mult_right_mono) simp_all
    then show ?thesis by (simp add: P_def algebra_simps)
  qed (simp add: X_def P_def mult_right_mono)
  have "int a = P + int r" using a by (simp add: P_def)
  moreover have "int (round_even a b) * int b = (if b < 2 * r \<or> b = 2 * r \<and> odd q then P + int b else P)"
    by (simp add: round_even_def Let_def q_def r_def P_def algebra_simps)
  ultimately show ?thesis using far a(2) unfolding X_def [symmetric] by (auto split: if_splits)
qed

lemma round_even_cases: "round_even a b = a div b \<or> round_even a b = Suc (a div b)"
  by (simp add: round_even_def Let_def)

lemma nearest_units:
  fixes a b f :: nat
  assumes "0 < b"
  defines "k \<equiv> bit_length (a div b) - Suc f"
  shows "units f (nearest f a b) = round_even a (b * 2 ^ k) * 2 ^ k"
    and "k = 0 \<or> 2 ^ (f + k) \<le> a div b" and "a div (b * 2 ^ k) < 2 ^ Suc f"
proof -
  define Q where "Q = a div b"
  have q: "a div (b * 2 ^ k) = Q div 2 ^ k" by (simp add: Q_def div_mult2_eq)
  show big: "k = 0 \<or> 2 ^ (f + k) \<le> a div b"
  proof (cases "Q = 0")
    case True
    then show ?thesis by (simp add: k_def Q_def [symmetric] bit_length.simps [of 0])
  next
    case False
    then have "2 ^ (bit_length Q - 1) \<le> Q" using bit_length_bounds [of Q] by simp
    moreover have "k = 0 \<or> f + k = bit_length Q - 1" by (auto simp: k_def Q_def)
    ultimately show ?thesis by (auto simp: Q_def)
  qed
  have "Q < 2 ^ (Suc f + k)"
  proof (cases "Q = 0")
    case False
    then have "Q < 2 ^ bit_length Q" using bit_length_bounds [of Q] by simp
    also have "\<dots> \<le> 2 ^ (Suc f + k)" by (rule power_increasing) (simp_all add: k_def Q_def)
    finally show ?thesis .
  qed simp
  then show small: "a div (b * 2 ^ k) < 2 ^ Suc f" unfolding q by (intro less_mult_imp_div_less) (simp add: power_add)
  have "k = 0 \<or> 2 ^ f \<le> Q div 2 ^ k"
    using big div_le_mono [of "2 ^ (f + k)" Q "2 ^ k"] by (auto simp: Q_def power_add)
  then have "k = 0 \<or> 2 ^ f \<le> round_even a (b * 2 ^ k)" "round_even a (b * 2 ^ k) \<le> 2 ^ Suc f"
    using small round_even_cases [of a "b * 2 ^ k"] unfolding q by auto
  then show "units f (nearest f a b) = round_even a (b * 2 ^ k) * 2 ^ k"
    unfolding nearest_def Let_def k_def [symmetric] by (rule units_scaled)
qed

lemma nearest_closest:
  assumes "0 < b"
  shows "\<bar>int (units f (nearest f a b)) * int b - int a\<bar> \<le> \<bar>int (units f m) * int b - int a\<bar>"
proof -
  define k where "k = bit_length (a div b) - Suc f"
  note near = nearest_units [OF assms, where a = a and f = f, folded k_def]
  obtain k' q' where m: "k' = 0 \<or> 2 ^ f \<le> q'" "q' < 2 ^ Suc f" "units f m = q' * 2 ^ k'" by (rule units_cases)
  have W: "int (units f (nearest f a b)) * int b = int (round_even a (b * 2 ^ k)) * int (b * 2 ^ k)"
    unfolding near(1) of_nat_mult by (simp only: mult_ac)
  have close: "\<bar>int (round_even a (b * 2 ^ k)) * int (b * 2 ^ k) - int a\<bar> \<le> \<bar>int c * int (b * 2 ^ k) - int a\<bar>" for c
    using assms by (intro round_even_close) simp
  show ?thesis
  proof (cases "k \<le> k'")
    case True
    then obtain c where "k' = k + c" by (auto simp: le_iff_add)
    then have V: "int (units f m) * int b = int (q' * 2 ^ c) * int (b * 2 ^ k)" by (simp add: m(3) power_add)
    show ?thesis unfolding W V by (rule close)
  next
    case False
    have "units f m * b \<le> 2 ^ f * (b * 2 ^ k)"
    proof -
      have "units f m < 2 ^ (f + k)"
        using units_order(1) [of k f "2 ^ f" k' q'] False m by simp
      then have "units f m * b \<le> 2 ^ (f + k) * b" by (intro mult_right_mono) simp_all
      then show ?thesis by (simp add: power_add mult_ac)
    qed
    moreover have "2 ^ f * (b * 2 ^ k) \<le> a"
    proof -
      have "2 ^ (f + k) * b \<le> a div b * b" using near(2) False by (intro mult_right_mono) simp_all
      also have "\<dots> \<le> a" by (rule div_times_less_eq_dividend)
      finally show ?thesis by (simp add: power_add mult_ac)
    qed
    ultimately have "int (units f m) * int b \<le> int (2 ^ f) * int (b * 2 ^ k)" "int (2 ^ f) * int (b * 2 ^ k) \<le> int a"
      by (metis of_nat_le_iff of_nat_mult)+
    then show ?thesis using close [of "2 ^ f"] W by linarith
  qed
qed

lemma nearest_unique:
  assumes "0 < b" and "2 * \<bar>int (units f n) * int b - int a\<bar> * 2 ^ Suc f < int (units f n) * int b"
  shows "nearest f a b = n"
proof (rule ccontr)
  let ?U = "int (units f n)" and ?W = "int (units f (nearest f a b))"
  have between: "\<bar>v - a\<bar> \<le> \<bar>u - a\<bar> \<Longrightarrow> \<bar>v - u\<bar> \<le> 2 * \<bar>u - a\<bar>" for u v a :: int
    using abs_triangle_ineq4 [of "v - a" "u - a"] by simp
  assume "nearest f a b \<noteq> n"
  then have "units f (nearest f a b) \<noteq> units f n" using units_inject by blast
  then have "?U \<le> \<bar>?W - ?U\<bar> * 2 ^ Suc f" by (rule units_apart)
  then have "?U * int b \<le> \<bar>?W - ?U\<bar> * 2 ^ Suc f * int b" by (rule mult_right_mono) simp
  also have "\<dots> = \<bar>?W * int b - ?U * int b\<bar> * 2 ^ Suc f"
    by (simp add: left_diff_distrib [symmetric] abs_mult)
  also have "\<dots> \<le> (2 * \<bar>?U * int b - int a\<bar>) * 2 ^ Suc f"
  proof (rule mult_right_mono)
    show "\<bar>?W * int b - ?U * int b\<bar> \<le> 2 * \<bar>?U * int b - int a\<bar>"
      using nearest_closest [OF assms(1), of f a n] by (rule between)
  qed simp
  finally show False using assms(2) by linarith
qed

lemma nearest_exact: "0 < b \<Longrightarrow> nearest f (units f n * b) b = n"
proof (cases "units f n = 0")
  case True
  then have "n = 0" using units_inject [of f n 0] by (simp add: units_def)
  then show "0 < b \<Longrightarrow> ?thesis" by (simp add: nearest_def round_even_def units_def bit_length.simps [of 0])
qed (simp add: nearest_unique)

lemma nearest_cancel:
  assumes "0 < c" shows "nearest f (a * c) (b * c) = nearest f a b"
proof -
  have "round_even (a * c) (b * c * d) = round_even a (b * d)" for d
    using assms by (simp add: round_even_def Let_def mult.commute [of _ c] mult.assoc mult_mod_right [symmetric])
  with assms show ?thesis by (simp add: nearest_def)
qed

section \<open>Decimals\<close>

text \<open>The float nearest to \<open>D * 10 ^ x\<close>.\<close>

definition read_bits :: "nat \<Rightarrow> nat \<Rightarrow> nat \<Rightarrow> int \<Rightarrow> nat" where
  "read_bits f E D x = nearest f (D * 10 ^ nat x * 2 ^ E) (10 ^ nat (- x))"

text \<open>
  The number of decimal digits, and the place of the decimal point of a positive value of \<open>U\<close>
  units: \<open>10 ^ (p - 1) \<le> U / 2 ^ E < 10 ^ p\<close>.
\<close>

fun dec_length :: "nat \<Rightarrow> nat" where
  "dec_length n = (if n = 0 then 0 else Suc (dec_length (n div 10)))"

declare dec_length.simps [simp del]

definition point :: "nat \<Rightarrow> nat \<Rightarrow> int" where
  "point E U =
     (if 2 ^ E \<le> U then int (dec_length (U div 2 ^ E)) else 1 - int (dec_length ((2 ^ E - 1) div U)))"

text \<open>
  The search for the fewest digits: with \<open>c\<close> digits, the closer of the two neighbouring decimals
  is taken if it reads back as the float \<open>n\<close>, then the other one, and the closer one unseen once
  \<open>j\<close>, the digits that may still be added, is 0. Trailing zeros are no digits.
\<close>

definition numerator :: "nat \<Rightarrow> int \<Rightarrow> nat" where
  "numerator U x = U * 10 ^ nat (- x)"

definition denominator :: "nat \<Rightarrow> int \<Rightarrow> nat" where
  "denominator E x = 2 ^ E * 10 ^ nat x"

definition closer :: "nat \<Rightarrow> nat \<Rightarrow> int \<Rightarrow> nat" where
  "closer E U x = round_even (numerator U x) (denominator E x)"

definition farther :: "nat \<Rightarrow> nat \<Rightarrow> int \<Rightarrow> nat" where
  "farther E U x =
     (let lo = numerator U x div denominator E x in if closer E U x = lo then Suc lo else lo)"

fun strip :: "nat \<Rightarrow> int \<Rightarrow> nat \<times> int" where
  "strip D x = (if D \<noteq> 0 \<and> D mod 10 = 0 then strip (D div 10) (x + 1) else (D, x))"

declare strip.simps [simp del]

fun search :: "nat \<Rightarrow> nat \<Rightarrow> nat \<Rightarrow> nat \<Rightarrow> nat \<Rightarrow> nat \<times> int" where
  "search f E n 0 c = (let x = point E (units f n) - int c in (closer E (units f n) x, x))"
| "search f E n (Suc j) c =
     (let U = units f n; x = point E U - int c in
      if read_bits f E (closer E U x) x = n then (closer E U x, x)
      else if read_bits f E (farther E U x) x = n then (farther E U x, x)
      else search f E n j (Suc c))"

definition shortest :: "nat \<Rightarrow> nat \<Rightarrow> nat \<Rightarrow> nat \<Rightarrow> nat \<times> int" where
  "shortest f E most n = (case search f E n (most - 1) 1 of (D, x) \<Rightarrow> strip D x)"

section \<open>The shortest decimal reads back\<close>

lemma dec_length_bounds: "0 < n \<Longrightarrow> 10 ^ (dec_length n - 1) \<le> n \<and> n < 10 ^ dec_length n \<and> 0 < dec_length n"
proof (induction n rule: dec_length.induct)
  case (1 n)
  show ?case
  proof (cases "n < 10")
    case True
    then have "dec_length n = 1" using 1(2) by (simp add: dec_length.simps [of n] dec_length.simps [of 0])
    with True 1(2) show ?thesis by simp
  next
    case False
    with 1 have IH: "10 ^ (dec_length (n div 10) - 1) \<le> n div 10 \<and> n div 10 < 10 ^ dec_length (n div 10) \<and> 0 < dec_length (n div 10)"
      by simp
    moreover have "dec_length n = Suc (dec_length (n div 10))" using 1(2) by (simp add: dec_length.simps [of n])
    ultimately show ?thesis by (cases "dec_length (n div 10)") auto
  qed
qed

text \<open>The point of a positive value: cross-multiplied so that both sides are naturals.\<close>

lemma point_le:
  assumes "0 < U"
  shows "10 ^ nat (point E U - 1) * 2 ^ E \<le> U * 10 ^ nat (1 - point E U)"
proof (cases "2 ^ E \<le> U")
  case True
  then have pos: "0 < U div 2 ^ E" by (simp add: div_greater_zero_iff)
  define d where "d = dec_length (U div 2 ^ E)"
  have d: "0 < d" "10 ^ (d - 1) \<le> U div 2 ^ E" using dec_length_bounds [OF pos] by (simp_all add: d_def)
  have "10 ^ (d - 1) * 2 ^ E \<le> U div 2 ^ E * 2 ^ E" using d(2) by (rule mult_right_mono) simp
  also have "\<dots> \<le> U" by (rule div_times_less_eq_dividend)
  finally have "10 ^ (d - 1) * 2 ^ E \<le> U" .
  moreover have "point E U = int d" using True by (simp add: point_def d_def)
  moreover have "nat (int d - 1) = d - 1" "nat (1 - int d) = 0" using d(1) by simp_all
  ultimately show ?thesis by simp
next
  case False
  define d where "d = dec_length ((2 ^ E - 1) div U)"
  have "0 < (2 ^ E - 1) div U" using False assms by (simp add: div_greater_zero_iff)
  then have "(2 ^ E - 1) div U < 10 ^ d" using dec_length_bounds by (simp add: d_def)
  then have "2 ^ E - 1 < 10 ^ d * U" using assms by (simp add: div_less_iff_less_mult)
  then have "2 ^ E \<le> U * 10 ^ d" by (simp add: mult.commute)
  moreover have "point E U = 1 - int d" using False by (simp add: point_def d_def)
  ultimately show ?thesis by simp
qed

text \<open>A value has as many digits as are asked for.\<close>

lemma scaled_le:
  fixes E U m :: nat
  assumes "0 < U"
  defines "x \<equiv> point E U - int (Suc m)"
  shows "10 ^ m * denominator E x \<le> numerator U x"
proof -
  define y where "y = point E U - 1"
  have S: "10 ^ nat y * 2 ^ E \<le> U * 10 ^ nat (- y)" using point_le [OF assms(1), of E] by (simp add: y_def)
  have x: "x = y - int m" by (simp add: x_def y_def)
  consider "int m \<le> y" | "0 \<le> y" "y < int m" | "y < 0" by linarith
  then show ?thesis
  proof cases
    case 1
    then have "nat y = m + nat x" "nat (- y) = 0" "nat (- x) = 0" by (simp_all add: x)
    then show ?thesis using S by (simp add: numerator_def denominator_def power_add mult_ac)
  next
    case 2
    then have "m = nat y + nat (- x)" "nat (- y) = 0" "nat x = 0" by (simp_all add: x)
    moreover have "10 ^ nat y * 2 ^ E * 10 ^ nat (- x) \<le> U * 10 ^ nat (- y) * 10 ^ nat (- x)"
      using S by (rule mult_right_mono) simp
    ultimately show ?thesis by (simp add: numerator_def denominator_def power_add mult_ac)
  next
    case 3
    then have "nat (- x) = m + nat (- y)" "nat y = 0" "nat x = 0" by (simp_all add: x)
    moreover have "10 ^ nat y * 2 ^ E * 10 ^ m \<le> U * 10 ^ nat (- y) * 10 ^ m"
      using S by (rule mult_right_mono) simp
    ultimately show ?thesis by (simp add: numerator_def denominator_def power_add mult_ac)
  qed
qed

lemma round_even_half:
  assumes "0 < b"
  shows "2 * \<bar>int a - int (round_even a b) * int b\<bar> \<le> int b"
proof -
  define q r where "q = a div b" and "r = a mod b"
  have r: "r < b" using assms by (simp add: r_def)
  have "a = q * b + r" by (simp add: q_def r_def)
  then have "int a = int q * int b + int r" by simp
  moreover have "int (round_even a b) * int b =
      (if b < 2 * r \<or> b = 2 * r \<and> odd q then int q * int b + int b else int q * int b)"
    by (simp add: round_even_def Let_def q_def r_def algebra_simps)
  ultimately show ?thesis using r by (auto split: if_splits)
qed

text \<open>With enough digits the closer decimal reads back.\<close>

lemma read_closer:
  fixes f E n m :: nat
  assumes "0 < n" and "2 ^ Suc f < (10 :: nat) ^ m"
  defines "x \<equiv> point E (units f n) - int (Suc m)"
  shows "read_bits f E (closer E (units f n) x) x = n"
proof -
  define U where "U = units f n"
  define A B D where "A = numerator U x" and "B = denominator E x" and "D = closer E U x"
  have U: "0 < U" using assms(1) units_inject [of f n 0] unfolding U_def by (cases "units f n") (auto simp: units_def)
  have B: "0 < B" by (simp add: B_def denominator_def)
  have le: "10 ^ m * B \<le> A" unfolding A_def B_def x_def U_def [symmetric] by (rule scaled_le [OF U])
  have half: "2 * \<bar>int A - int D * int B\<bar> \<le> int B"
    unfolding D_def closer_def A_def [symmetric] B_def [symmetric] by (rule round_even_half [OF B])
  have "2 * \<bar>int A - int D * int B\<bar> * 2 ^ Suc f \<le> int B * 2 ^ Suc f"
    using half by (rule mult_right_mono) simp
  also have "\<dots> = int (B * 2 ^ Suc f)" by simp
  also have "\<dots> < int (10 ^ m * B)" using assms(2) B by (simp only: of_nat_less_iff mult.commute [of B] mult_less_cancel2)
  also have "\<dots> \<le> int A" using le by (simp only: of_nat_le_iff)
  finally have "2 * \<bar>int A - int D * int B\<bar> * 2 ^ Suc f < int A" .
  moreover have "int A = int (units f n) * int (10 ^ nat (- x))" by (simp add: A_def numerator_def U_def)
  moreover have "int D * int B = int (D * 10 ^ nat x * 2 ^ E)" by (simp add: B_def denominator_def)
  ultimately have "nearest f (D * 10 ^ nat x * 2 ^ E) (10 ^ nat (- x)) = n"
    by (intro nearest_unique) simp_all
  then show ?thesis by (simp add: read_bits_def D_def U_def)
qed

lemma read_bits_ratio:
  assumes "D * 10 ^ nat x * 10 ^ nat (- y) = D' * 10 ^ nat y * 10 ^ nat (- x)"
  shows "read_bits f E D x = read_bits f E D' y"
proof -
  have "nearest f (D * 10 ^ nat x * 2 ^ E) (10 ^ nat (- x)) =
      nearest f (D * 10 ^ nat x * 2 ^ E * 10 ^ nat (- y)) (10 ^ nat (- x) * 10 ^ nat (- y))"
    by (simp add: nearest_cancel)
  also have "D * 10 ^ nat x * 2 ^ E * 10 ^ nat (- y) = D' * 10 ^ nat y * 2 ^ E * 10 ^ nat (- x)"
    using assms by (simp add: mult_ac)
  also have "nearest f \<dots> (10 ^ nat (- x) * 10 ^ nat (- y)) = nearest f (D' * 10 ^ nat y * 2 ^ E) (10 ^ nat (- y))"
    by (subst mult.commute [of "10 ^ nat (- x)"]) (simp add: nearest_cancel)
  finally show ?thesis by (simp add: read_bits_def)
qed

lemma read_strip: "strip D x = (D', x') \<Longrightarrow> read_bits f E D' x' = read_bits f E D x"
proof (induction D x rule: strip.induct)
  case (1 D x)
  show ?case
  proof (cases "D \<noteq> 0 \<and> D mod 10 = 0")
    case True
    then have "strip (D div 10) (x + 1) = (D', x')" using 1(2) by (simp add: strip.simps [of D x])
    then have "read_bits f E D' x' = read_bits f E (D div 10) (x + 1)" using 1(1) True by simp
    also have "\<dots> = read_bits f E D x"
    proof (rule read_bits_ratio)
      have D: "D = D div 10 * 10" using True by presburger
      show "D div 10 * 10 ^ nat (x + 1) * 10 ^ nat (- x) = D * 10 ^ nat x * 10 ^ nat (- (x + 1))"
      proof (cases "0 \<le> x")
        case True
        then have "nat (x + 1) = Suc (nat x)" by simp
        with True D show ?thesis by simp
      next
        case False
        then have "nat (- x) = Suc (nat (- (x + 1)))" "nat (x + 1) = 0" by simp_all
        with False D show ?thesis by simp
      qed
    qed
    finally show ?thesis .
  next
    case False
    then have "strip D x = (D, x)" by (subst strip.simps) auto
    with 1(2) show ?thesis by simp
  qed
qed

lemma search_reads:
  assumes "0 < n" and "2 ^ Suc f < (10 :: nat) ^ (c + j - 1)" and "0 < c" and "search f E n j c = (D, x)"
  shows "read_bits f E D x = n"
  using assms(2-4)
proof (induction j arbitrary: c)
  case 0
  then obtain m where "c = Suc m" by (cases c) auto
  with 0 read_closer [OF assms(1), of f m E] show ?case by (auto simp: Let_def)
next
  case (Suc j)
  have "read_bits f E D x = n" if "search f E n j (Suc c) = (D, x)"
    using Suc.IH [of "Suc c"] Suc.prems(1) that by simp
  with Suc.prems show ?case by (auto simp: Let_def split: if_splits)
qed

theorem shortest_reads_back:
  assumes "0 < n" and "2 ^ Suc f < (10 :: nat) ^ (most - 1)" and "0 < most"
  shows "case_prod (read_bits f E) (shortest f E most n) = n"
proof -
  obtain D x where D: "search f E n (most - 1) 1 = (D, x)" by fastforce
  obtain D' x' where "strip D x = (D', x')" by fastforce
  with D search_reads [OF assms(1) _ _ D] assms(2) show ?thesis
    by (simp add: shortest_def read_strip)
qed

end
