(* ===== verification/Json_Number.thy ===== *)
theory Json_Number
  imports Json_Print Go_Float
begin

text \<open>
  Numbers in \<open>encoding/json\<close>: how a float and an integer are written, and \<open>convertNumber\<close>, which turns a
  literal into the \<open>float64\<close> an \<open>any\<close> receives. Of an exponent with six or more digits the library
  drops the digits after the fifth; the model keeps them, which differs only for a literal of more
  than a hundred thousand characters.
\<close>

section \<open>The text of a number\<close>

definition number_text :: "bool \<Rightarrow> string \<Rightarrow> string \<Rightarrow> (bool \<times> string) option \<Rightarrow> string" where
  "number_text neg ip fp ex =
     (if neg then ''-'' else '''') @ ip @ (if fp = [] then [] else CHR ''.'' # fp) @
     (case ex of None \<Rightarrow> [] | Some (eneg, es) \<Rightarrow> CHR ''e'' # (if eneg then CHR ''-'' else CHR ''+'') # es)"

text \<open>
  The two layouts of the digits \<open>ds\<close> with the decimal point at \<open>dp\<close>. The encoder takes the
  exponent form below \<open>1e-6\<close> and from \<open>1e21\<close>, and writes \<open>e-9\<close> rather than \<open>e-09\<close>.
\<close>

definition plain_form :: "bool \<Rightarrow> string \<Rightarrow> int \<Rightarrow> string" where
  "plain_form neg ds dp =
     (if dp \<le> 0 then number_text neg ''0'' (replicate (nat (- dp)) CHR ''0'' @ ds) None
      else if int (length ds) \<le> dp then number_text neg (ds @ replicate (nat dp - length ds) CHR ''0'') [] None
      else number_text neg (take (nat dp) ds) (drop (nat dp) ds) None)"

definition exponent_form :: "bool \<Rightarrow> string \<Rightarrow> int \<Rightarrow> string" where
  "exponent_form neg ds dp = number_text neg [hd ds] (tl ds) (Some (dp < 1, FormatUint (nat \<bar>dp - 1\<bar>)))"

definition float_text :: "nat \<Rightarrow> nat \<Rightarrow> nat \<Rightarrow> bool \<Rightarrow> nat \<Rightarrow> string" where
  "float_text f E most neg n =
     (if n = 0 then number_text neg ''0'' [] None
      else
        (case shortest f E most n of
           (D, x) \<Rightarrow>
             (let ds = FormatUint D; dp = int (length ds) + x in
              if n < read_bits f E 1 (- 6) \<or> read_bits f E 1 21 \<le> n then exponent_form neg ds dp
              else plain_form neg ds dp)))"

text \<open>The encoder of a \<open>float64\<close> and of a \<open>float32\<close>: an infinity and a NaN are errors.\<close>

definition float64_text :: "64 word \<Rightarrow> string option" where
  "float64_text w =
     (let n = unat w mod 2 ^ 63 in
      if 2047 * 2 ^ 52 \<le> n then None else Some (float_text 52 1074 17 (2 ^ 63 \<le> unat w) n))"

definition float32_text :: "32 word \<Rightarrow> string option" where
  "float32_text w =
     (let n = unat w mod 2 ^ 31 in
      if 255 * 2 ^ 23 \<le> n then None else Some (float_text 23 149 9 (2 ^ 31 \<le> unat w) n))"

section \<open>Reading a literal\<close>

definition dec_number :: "string \<Rightarrow> nat" where
  "dec_number s = (case dec_value 0 s of Some n \<Rightarrow> n | None \<Rightarrow> 0)"

definition exponent_value :: "string \<Rightarrow> int" where
  "exponent_value s =
     (case s of
        c # t \<Rightarrow>
          if c = CHR ''e'' \<or> c = CHR ''E'' then
            (case t of
               d # u \<Rightarrow>
                 if d = CHR ''-'' then - int (dec_number u) else if d = CHR ''+'' then int (dec_number u) else int (dec_number t)
             | [] \<Rightarrow> 0)
          else 0
      | [] \<Rightarrow> 0)"

definition fraction_part :: "string \<Rightarrow> string" where
  "fraction_part s = (case s of c # t \<Rightarrow> if c = CHR ''.'' then takeWhile is_digit t else [] | [] \<Rightarrow> [])"

definition after_fraction :: "string \<Rightarrow> string" where
  "after_fraction s = (case s of c # t \<Rightarrow> if c = CHR ''.'' then dropWhile is_digit t else s | [] \<Rightarrow> [])"

definition read_decimal :: "string \<Rightarrow> bool \<times> nat \<times> int" where
  "read_decimal lit =
     (let neg = (lit \<noteq> [] \<and> hd lit = CHR ''-''); s = (if neg then tl lit else lit);
          ip = takeWhile is_digit s; r = dropWhile is_digit s; fp = fraction_part r
      in (neg, dec_number (ip @ fp), exponent_value (after_fraction r) - int (length fp)))"

text \<open>The float of a literal: none when it is out of range.\<close>

definition sign_bit :: "bool \<Rightarrow> nat" where
  "sign_bit neg = (if neg then 2 ^ 63 else 0)"

definition convertNumber :: "string \<Rightarrow> 64 word option" where
  "convertNumber lit =
     (case read_decimal lit of
        (neg, D, x) \<Rightarrow>
          (let n = read_bits 52 1074 D x in
           if 2047 * 2 ^ 52 \<le> n then None else Some (word_of_nat (sign_bit neg + n))))"

section \<open>Lemmas\<close>

lemma not_digit [simp]:
  "\<not> is_digit CHR ''.''" "\<not> is_digit CHR ''e''" "\<not> is_digit CHR ''E''" "\<not> is_digit CHR ''-''" "\<not> is_digit CHR ''+''"
  by (simp_all add: is_digit_def)

lemma is_digit_zero [simp]: "is_digit CHR ''0''"
  by (simp add: is_digit_def)

definition exponent_ok :: "(bool \<times> string) option \<Rightarrow> bool" where
  "exponent_ok ex \<longleftrightarrow> (case ex of None \<Rightarrow> True | Some (eneg, es) \<Rightarrow> es \<noteq> [] \<and> list_all is_digit es)"

definition integer_ok :: "string \<Rightarrow> bool" where
  "integer_ok ip \<longleftrightarrow> ip \<noteq> [] \<and> list_all is_digit ip \<and> (hd ip = CHR ''0'' \<longrightarrow> ip = ''0'')"

abbreviation tail_text :: "string \<Rightarrow> (bool \<times> string) option \<Rightarrow> string" where
  "tail_text fp ex \<equiv> (if fp = [] then [] else CHR ''.'' # fp) @
     (case ex of None \<Rightarrow> [] | Some (eneg, es) \<Rightarrow> CHR ''e'' # (if eneg then CHR ''-'' else CHR ''+'') # es)"

lemma digits_all: "list_all is_digit ds \<Longrightarrow> s = [] \<or> \<not> is_digit (hd s) \<Longrightarrow>
   takeWhile is_digit (ds @ s) = ds \<and> dropWhile is_digit (ds @ s) = s"
  by (cases s) (auto simp: list_all_iff takeWhile_append dropWhile_append)

lemma digits_only: "list_all is_digit ds \<Longrightarrow> digits ds = length ds"
  by (simp add: digits_def list_all_iff takeWhile_eq_all_conv [THEN iffD2])

lemma tail_not_digit: "tail_text fp ex = [] \<or> \<not> is_digit (hd (tail_text fp ex))"
  by (simp split: option.split)

lemma is_numberI:
  assumes "sg = (if lit \<noteq> [] \<and> hd lit = CHR ''-'' then 1 else 0)" and "int_part (drop sg lit) = Some i"
    and "fraction (drop (sg + i) lit) = Some f" and "exponent (drop (sg + i + f) lit) = Some e"
    and "sg + i + f + e = length lit"
  shows "is_number lit"
  unfolding is_number_def number_def Let_def assms(1) [symmetric]
  by (simp add: assms(2-5))

lemma number_text_is_number:
  assumes "integer_ok ip" and "list_all is_digit fp" and "exponent_ok ex"
  shows "is_number (number_text neg ip fp ex)"
proof -
  obtain c cs where ip: "ip = c # cs" "is_digit c" "c = CHR ''0'' \<longrightarrow> cs = []" "list_all is_digit ip"
    using assms(1) by (cases ip) (auto simp: integer_ok_def)
  let ?ex = "case ex of None \<Rightarrow> [] | Some (eneg, es) \<Rightarrow> CHR ''e'' # (if eneg then CHR ''-'' else CHR ''+'') # es"
  let ?sg = "if neg then 1 else 0 :: nat"
  have sg: "(if number_text neg ip fp ex \<noteq> [] \<and> hd (number_text neg ip fp ex) = CHR ''-'' then 1 else 0) = ?sg"
    using is_digit_not_sign [OF ip(2)] by (simp add: number_text_def ip(1))
  have sgd: "drop ?sg (number_text neg ip fp ex) = ip @ tail_text fp ex"
    by (simp add: number_text_def)
  have "digits (ip @ tail_text fp ex) = length ip"
    using digits_all [OF ip(4) tail_not_digit, of fp ex] by (simp add: digits_def)
  then have ints: "int_part (ip @ tail_text fp ex) = Some (length ip)"
    using ip by (auto simp: int_part_def)
  have fr: "fraction (tail_text fp ex) = Some (length (tail_text fp None))"
  proof (cases "fp = []")
    case False
    have "takeWhile is_digit (fp @ ?ex) = fp"
      using digits_all [OF assms(2), of ?ex] by (simp split: option.split)
    with False show ?thesis by (simp add: fraction_def digits_def)
  qed (auto simp: fraction_def split: option.split)
  have ex: "exponent ?ex = Some (length ?ex)"
    using assms(3) by (auto simp: exponent_def exponent_ok_def digits_only split: option.splits)
  have "drop (?sg + length ip) (number_text neg ip fp ex) = tail_text fp ex"
      "drop (?sg + length ip + length (tail_text fp None)) (number_text neg ip fp ex) = ?ex"
      "?sg + length ip + length (tail_text fp None) + length ?ex = length (number_text neg ip fp ex)"
    by (simp_all add: number_text_def)
  then show ?thesis
    by (intro is_numberI [OF sg [symmetric], where i = "length ip" and f = "length (tail_text fp None)" and e = "length ?ex"])
      (simp_all only: sgd ints fr ex)
qed

lemma number_text_read:
  assumes "integer_ok ip" and "list_all is_digit fp" and "exponent_ok ex"
  shows "read_decimal (number_text neg ip fp ex) =
    (neg, dec_number (ip @ fp),
     (case ex of None \<Rightarrow> 0 | Some (eneg, es) \<Rightarrow> if eneg then - int (dec_number es) else int (dec_number es)) - int (length fp))"
proof -
  obtain c cs where ip: "ip = c # cs" "is_digit c" "list_all is_digit ip"
    using assms(1) by (cases ip) (auto simp: integer_ok_def)
  let ?ex = "case ex of None \<Rightarrow> [] | Some (eneg, es) \<Rightarrow> CHR ''e'' # (if eneg then CHR ''-'' else CHR ''+'') # es"
  have neg: "(number_text neg ip fp ex \<noteq> [] \<and> hd (number_text neg ip fp ex) = CHR ''-'') = neg"
      "(if neg then tl (number_text neg ip fp ex) else number_text neg ip fp ex) = ip @ tail_text fp ex"
    using is_digit_not_sign [OF ip(2)] by (simp_all add: number_text_def ip(1))
  note parts = digits_all [OF ip(3) tail_not_digit, of fp ex]
  have "takeWhile is_digit (fp @ ?ex) = fp" "dropWhile is_digit (fp @ ?ex) = ?ex"
    using digits_all [OF assms(2), of ?ex] by (simp_all split: option.split)
  then have fp: "fraction_part (tail_text fp ex) = fp" "after_fraction (tail_text fp ex) = ?ex"
    by (auto simp: fraction_part_def after_fraction_def split: option.split)
  have "exponent_value ?ex =
      (case ex of None \<Rightarrow> 0 | Some (eneg, es) \<Rightarrow> if eneg then - int (dec_number es) else int (dec_number es))"
    by (simp add: exponent_value_def split: option.split)
  with neg parts fp show ?thesis by (simp add: read_decimal_def Let_def)
qed

text \<open>Digits and zeros around them.\<close>

lemma dec_number_FormatUint [simp]: "dec_number (FormatUint n) = n"
  by (simp add: dec_number_def)

lemma dec_number_zeros_before [simp]: "dec_number (replicate k CHR ''0'' @ ds) = dec_number ds"
  by (induction k) (simp_all add: dec_number_def digit_val_def)

lemma dec_value_zeros: "dec_value n (replicate k CHR ''0'') = Some (n * 10 ^ k)"
  by (induction k arbitrary: n) (simp_all add: digit_val_def)

lemma dec_number_zeros_after [simp]: "dec_number (FormatUint n @ replicate k CHR ''0'') = n * 10 ^ k"
  by (simp add: dec_number_def dec_value_append dec_value_zeros)

lemma integer_ok_FormatUint [simp]: "integer_ok (FormatUint n)"
proof -
  obtain c cs where c: "FormatUint n = c # cs" by (cases "FormatUint n") auto
  with FormatUint_leading_zero [of n cs] FormatUint_digits [of n] show ?thesis by (auto simp: integer_ok_def)
qed

lemma FormatInt_text: "FormatInt k = number_text (k < 0) (FormatUint (nat \<bar>k\<bar>)) [] None"
  by (simp add: FormatInt_def number_text_def)

lemma FormatInt_number [simp]: "is_number (FormatInt k)" "read_decimal (FormatInt k) = (k < 0, nat \<bar>k\<bar>, 0)"
  by (simp_all add: FormatInt_text number_text_is_number number_text_read exponent_ok_def)

text \<open>Whatever layout is chosen, the literal has the value of the digits.\<close>

lemma form_reads:
  assumes "0 < D" and "ds = FormatUint D" and "dp = int (length ds) + x"
    and "lit = exponent_form neg ds dp \<or> lit = plain_form neg ds dp"
  shows "is_number lit \<and> (\<exists>D' x'. read_decimal lit = (neg, D', x') \<and>
    (\<forall>f E. read_bits f E D' x' = read_bits f E D x))"
proof -
  have all: "list_all is_digit ds" using FormatUint_digits assms(2) by simp
  obtain c cs where c: "ds = c # cs" using assms(2) by (metis FormatUint_not_Nil list.exhaust)
  have lead: "c \<noteq> CHR ''0''" using FormatUint_leading_zero [of D cs] assms(1,2) c by auto
  have zeros: "list_all is_digit (replicate k CHR ''0'')" for k by (induction k) simp_all
  have one: "integer_ok ''0''" "integer_ok [c]" using all c by (simp_all add: integer_ok_def)
  consider "lit = exponent_form neg ds dp" | "lit = plain_form neg ds dp" "dp \<le> 0"
    | "lit = plain_form neg ds dp" "0 < dp" "int (length ds) \<le> dp"
    | "lit = plain_form neg ds dp" "0 < dp" "dp < int (length ds)"
    using assms(4) by linarith
  then show ?thesis
  proof cases
    case 1
    have "exponent_ok (Some (dp < 1, FormatUint (nat \<bar>dp - 1\<bar>)))" by (simp add: exponent_ok_def FormatUint_digits)
    moreover have "list_all is_digit cs" using all c by simp
    moreover have "lit = number_text neg [c] cs (Some (dp < 1, FormatUint (nat \<bar>dp - 1\<bar>)))"
      using 1 c by (simp add: exponent_form_def)
    moreover have "dec_number ([c] @ cs) = D" using assms(2) c by (metis append_Cons append_Nil dec_number_FormatUint)
    moreover have "int (length cs) = dp - x - 1" using assms(3) c by simp
    ultimately show ?thesis
      using one(2) by (auto simp: number_text_is_number number_text_read)
  next
    case 2
    moreover have "list_all is_digit (replicate (nat (- dp)) CHR ''0'' @ ds)" using all zeros by simp
    ultimately show ?thesis
      using one(1) assms(2,3)
      by (auto simp: plain_form_def number_text_is_number number_text_read exponent_ok_def
          dec_number_zeros_before [of "Suc _", simplified])
  next
    case 3
    then have "integer_ok (ds @ replicate (nat dp - length ds) CHR ''0'')"
      using all zeros c lead by (auto simp: integer_ok_def)
    moreover have "read_bits f E (D * 10 ^ (nat dp - length ds)) 0 = read_bits f E D x" for f E
    proof (rule read_bits_ratio)
      have "nat x = nat dp - length ds" "nat (- x) = 0" using 3 assms(3) by simp_all
      then show "D * 10 ^ (nat dp - length ds) * 10 ^ nat 0 * 10 ^ nat (- x) = D * 10 ^ nat x * 10 ^ nat (- 0)" by simp
    qed
    ultimately show ?thesis
      using 3 assms(2) by (auto simp: plain_form_def number_text_is_number number_text_read exponent_ok_def)
  next
    case 4
    then obtain k where k: "nat dp = Suc k" by (cases "nat dp") auto
    have "integer_ok (take (nat dp) ds)" "list_all is_digit (drop (nat dp) ds)"
      using all c lead k by (auto simp: integer_ok_def list_all_iff dest: in_set_takeD in_set_dropD)
    then show ?thesis
      using 4 assms(2,3) by (auto simp: plain_form_def number_text_is_number number_text_read exponent_ok_def)
  qed
qed

lemma read_bits_zero [simp]: "read_bits f E 0 x = 0"
  by (simp add: read_bits_def nearest_def round_even_def bit_length.simps [of 0])

lemma shortest_positive:
  assumes "0 < n" and "2 ^ Suc f < (10 :: nat) ^ (most - 1)" and "0 < most" and "shortest f E most n = (D, x)"
  shows "0 < D" and "read_bits f E D x = n"
proof -
  show "read_bits f E D x = n" using shortest_reads_back [OF assms(1-3), of E] assms(4) by simp
  then show "0 < D" using assms(1) by (cases D) auto
qed

text \<open>A float that is written is a number literal, and reads back as itself.\<close>

lemma float_text_reads:
  assumes "2 ^ Suc f < (10 :: nat) ^ (most - 1)" and "0 < most"
  shows "is_number (float_text f E most neg n) \<and>
    (\<exists>D x. read_decimal (float_text f E most neg n) = (neg, D, x) \<and> read_bits f E D x = n)"
proof (cases "n = 0")
  case True
  then show ?thesis
    by (auto simp: float_text_def number_text_is_number number_text_read exponent_ok_def integer_ok_def dec_number_def digit_val_def)
next
  case False
  obtain D x where s: "shortest f E most n = (D, x)" by fastforce
  with False assms have D: "0 < D" "read_bits f E D x = n" using shortest_positive by blast+
  have "float_text f E most neg n = exponent_form neg (FormatUint D) (int (length (FormatUint D)) + x) \<or>
      float_text f E most neg n = plain_form neg (FormatUint D) (int (length (FormatUint D)) + x)"
    using False s by (simp add: float_text_def Let_def)
  from form_reads [OF D(1) refl refl this] D(2) show ?thesis by auto
qed

theorem float64_roundtrip:
  assumes "float64_text w = Some lit"
  shows "is_number lit" and "convertNumber lit = Some w"
proof -
  define n where "n = unat w mod 2 ^ 63"
  have n: "n < 2047 * 2 ^ 52" "lit = float_text 52 1074 17 (2 ^ 63 \<le> unat w) n"
    using assms by (auto simp: float64_text_def Let_def n_def split: if_splits)
  have w: "sign_bit (2 ^ 63 \<le> unat w) + n = unat w"
  proof -
    have "(if m \<le> u then m else 0) + u mod m = u" if "u < 2 * m" for u m :: nat
      using that by (auto simp: le_mod_geq)
    moreover have "unat w < 2 * 2 ^ 63"
    proof -
      have "unat w < 2 ^ LENGTH(64)" by (rule unsigned_less)
      then show ?thesis by simp
    qed
    ultimately show ?thesis unfolding n_def sign_bit_def by blast
  qed
  have "2 ^ Suc 52 < (10 :: nat) ^ (17 - 1)" "0 < (17 :: nat)" by simp_all
  note written = float_text_reads [OF this, of 1074 "2 ^ 63 \<le> unat w" n, folded n(2)]
  show "is_number lit" using written ..
  obtain D x where D: "read_decimal lit = (2 ^ 63 \<le> unat w, D, x)" "read_bits 52 1074 D x = n" using written by blast
  have "word_of_nat (sign_bit (2 ^ 63 \<le> unat w) + n) = w" unfolding w by simp
  then show "convertNumber lit = Some w"
    unfolding convertNumber_def D(1) prod.case D(2) Let_def using n(1) by (simp only: not_le [symmetric] if_False)
qed

lemma float32_is_number: "float32_text w = Some lit \<Longrightarrow> is_number lit"
  using float_text_reads [of 23 9 149] by (auto simp: float32_text_def Let_def split: if_splits)

section \<open>Integers and single floats as double floats\<close>

lemma nearest_le:
  assumes "0 < b" and "a div b < 2 ^ L" and "Suc f \<le> L"
  shows "nearest f a b \<le> (L - Suc f) * 2 ^ f + 2 ^ Suc f"
proof -
  define k where "k = bit_length (a div b) - Suc f"
  have "k \<le> L - Suc f" using bit_length_le [OF assms(2)] by (simp add: k_def)
  moreover have "round_even a (b * 2 ^ k) \<le> 2 ^ Suc f"
    using nearest_units(3) [OF assms(1), of a f] round_even_cases [of a "b * 2 ^ k"] unfolding k_def by auto
  ultimately show ?thesis
    unfolding nearest_def Let_def k_def [symmetric] by (intro add_mono mult_right_mono) simp_all
qed

lemma less_of_nearest:
  assumes "0 < b" and "nearest f a b < K * 2 ^ f"
  shows "a < 2 ^ (K + f) * b"
proof -
  define k where "k = bit_length (a div b) - Suc f"
  have "k * 2 ^ f < K * 2 ^ f" using assms(2) unfolding nearest_def Let_def k_def by linarith
  then have "bit_length (a div b) \<le> K + f" by (simp add: k_def)
  then have "a div b < 2 ^ (K + f)"
    using bit_length_bounds [of "a div b"] power_increasing [of "bit_length (a div b)" "K + f" "2 :: nat"]
    by (cases "a div b = 0") (auto intro: less_le_trans)
  then show ?thesis using assms(1) by (simp add: div_less_iff_less_mult)
qed

text \<open>An integer of at most 64 bits is in the range of a \<open>float64\<close>.\<close>

definition float_of_int :: "int \<Rightarrow> 64 word" where
  "float_of_int i = word_of_nat (sign_bit (i < 0) + read_bits 52 1074 (nat \<bar>i\<bar>) 0)"

lemma convertNumber_int:
  assumes "\<bar>i\<bar> \<le> 2 ^ 64" shows "convertNumber (FormatInt i) = Some (float_of_int i)"
proof -
  have "nat \<bar>i\<bar> < 2 ^ 65" using assms by (simp add: nat_less_iff)
  then have "nat \<bar>i\<bar> * 2 ^ 1074 div 1 < 2 ^ 65 * 2 ^ 1074" unfolding div_by_1 by (rule mult_strict_right_mono) simp
  then have "nat \<bar>i\<bar> * 2 ^ 1074 div 1 < 2 ^ (65 + 1074)" by (simp only: power_add)
  from nearest_le [OF _ this, of 52]
  have "read_bits 52 1074 (nat \<bar>i\<bar>) 0 \<le> (65 + 1074 - 53) * 2 ^ 52 + 2 ^ 53" by (simp add: read_bits_def)
  then have "\<not> 2047 * 2 ^ 52 \<le> read_bits 52 1074 (nat \<bar>i\<bar>) 0" by simp
  then show ?thesis by (simp add: convertNumber_def Let_def float_of_int_def)
qed

text \<open>The decimal a \<open>float32\<close> is written as is in the range of a \<open>float64\<close>.\<close>

definition float_of_float32 :: "32 word \<Rightarrow> 64 word" where
  "float_of_float32 w = (case float32_text w of Some lit \<Rightarrow> the (convertNumber lit) | None \<Rightarrow> 0)"

lemma convertNumber_float32:
  assumes "float32_text w = Some lit" shows "convertNumber lit = Some (float_of_float32 w)"
proof -
  define n where "n = unat w mod 2 ^ 31"
  have n: "n < 255 * 2 ^ 23" "lit = float_text 23 149 9 (2 ^ 31 \<le> unat w) n"
    using assms by (auto simp: float32_text_def Let_def n_def split: if_splits)
  have "2 ^ Suc 23 < (10 :: nat) ^ (9 - 1)" "0 < (9 :: nat)" by simp_all
  from float_text_reads [OF this, of 149 "2 ^ 31 \<le> unat w" n, folded n(2)]
  obtain D x where D: "read_decimal lit = (2 ^ 31 \<le> unat w, D, x)" "read_bits 23 149 D x = n" by blast
  let ?b = "10 ^ nat (- x) :: nat"
  have "D * 10 ^ nat x * 2 ^ 149 < 2 ^ (255 + 23) * ?b"
    using D(2) n(1) unfolding read_bits_def by (intro less_of_nearest) simp_all
  then have "D * 10 ^ nat x * 2 ^ 149 * 2 ^ 925 < 2 ^ (255 + 23) * ?b * 2 ^ 925" by (rule mult_strict_right_mono) simp
  moreover have "D * 10 ^ nat x * 2 ^ 149 * 2 ^ 925 = D * 10 ^ nat x * 2 ^ 1074"
    unfolding mult.assoc by (simp only: power_add [symmetric]) simp
  moreover have "2 ^ (255 + 23) * ?b * 2 ^ 925 = 2 ^ 1203 * ?b"
    by (simp only: mult.commute [of _ ?b] mult.assoc power_add [symmetric]) simp
  ultimately have "D * 10 ^ nat x * 2 ^ 1074 div ?b < 2 ^ 1203"
    by (simp only: div_less_iff_less_mult zero_less_power zero_less_numeral)
  from nearest_le [OF _ this, of 52]
  have "read_bits 52 1074 D x \<le> (1203 - 53) * 2 ^ 52 + 2 ^ 53" by (simp add: read_bits_def)
  then have "\<not> 2047 * 2 ^ 52 \<le> read_bits 52 1074 D x" by simp
  then have "convertNumber lit \<noteq> None" by (simp add: convertNumber_def D(1) Let_def)
  then show ?thesis using assms by (auto simp: float_of_float32_def)
qed

text \<open>Integers of at most 53 bits are represented exactly, so they stay apart.\<close>

lemma read_bits_small:
  assumes "m \<le> 2 ^ 53" shows "units 52 (read_bits 52 1074 m 0) = m * 2 ^ 1074"
proof -
  have "\<exists>n. units 52 n = m * 2 ^ 1074"
  proof (cases "m < 2 ^ 53 \<and> m \<noteq> 0")
    case True
    define l where "l = bit_length m - 1"
    have l: "2 ^ l \<le> m" "m < 2 ^ Suc l" using bit_length_bounds [of m] True by (simp_all add: l_def)
    have "(2 :: nat) ^ l < 2 ^ 53" using l(1) True by linarith
    then have "l < 53" by (rule power_less_imp_less_exp [rotated]) simp
    then have le: "l \<le> 52" by simp
    have split: "(2 :: nat) ^ 52 = 2 ^ l * 2 ^ (52 - l)" "(2 :: nat) ^ Suc 52 = 2 ^ Suc l * 2 ^ (52 - l)"
      using le by (simp_all only: power_add [symmetric]) simp_all
    have q: "2 ^ 52 \<le> m * 2 ^ (52 - l)" "m * 2 ^ (52 - l) \<le> 2 ^ Suc 52"
      unfolding split using l by (intro mult_right_mono; simp)+
    have "units 52 ((1022 + l) * 2 ^ 52 + m * 2 ^ (52 - l)) = m * 2 ^ (52 - l) * 2 ^ (1022 + l)"
      using q by (intro units_scaled disjI2)
    also have "\<dots> = m * 2 ^ 1074" unfolding mult.assoc power_add [symmetric] using le by simp
    finally show ?thesis by blast
  next
    case False
    then consider "m = 0" | "m = 2 ^ 53" using assms by linarith
    then show ?thesis
    proof cases
      case 2
      have "units 52 (1075 * 2 ^ 52 + 2 ^ 52) = 2 ^ 52 * 2 ^ 1075" by (rule units_scaled) simp_all
      also have "\<dots> = m * 2 ^ 1074" unfolding 2 power_add [symmetric] by simp
      finally show ?thesis by blast
    next
      case 1
      then have "units 52 0 = m * 2 ^ 1074" by (simp add: units_def)
      then show ?thesis by blast
    qed
  qed
  then obtain n where n: "units 52 n = m * 2 ^ 1074" ..
  then have "read_bits 52 1074 m 0 = n" using nearest_exact [of 1 52 n] by (simp add: read_bits_def)
  with n show ?thesis by simp
qed

lemma float_of_int_inject:
  assumes "\<bar>i\<bar> \<le> 2 ^ 53" and "\<bar>j\<bar> \<le> 2 ^ 53" and "float_of_int i = float_of_int j"
  shows "i = j"
proof -
  have small: "read_bits 52 1074 (nat \<bar>k\<bar>) 0 < 2 ^ 63" if "\<bar>k\<bar> \<le> 2 ^ 53" for k :: int
  proof -
    have "nat \<bar>k\<bar> \<le> 2 ^ 53" using that by (simp add: nat_le_iff)
    then have "nat \<bar>k\<bar> * 2 ^ 1074 div 1 \<le> 2 ^ 53 * 2 ^ 1074" unfolding div_by_1 by (rule mult_right_mono) simp
    also have "\<dots> < 2 ^ 1128" unfolding power_add [symmetric] by (rule power_strict_increasing) simp_all
    finally have "read_bits 52 1074 (nat \<bar>k\<bar>) 0 \<le> (1128 - 53) * 2 ^ 52 + 2 ^ 53"
      using nearest_le [of 1 _ 1128 52] by (simp add: read_bits_def)
    then show ?thesis by simp
  qed
  define m n where "m = read_bits 52 1074 (nat \<bar>i\<bar>) 0" and "n = read_bits 52 1074 (nat \<bar>j\<bar>) 0"
  have m: "m < 2 ^ 63" "n < 2 ^ 63" using small assms(1,2) by (simp_all only: m_def n_def)
  then have "sign_bit (i < 0) + m < 2 ^ LENGTH(64)" "sign_bit (j < 0) + n < 2 ^ LENGTH(64)" by (simp_all add: sign_bit_def)
  moreover have "unat (word_of_nat k :: 64 word) = k" if "k < 2 ^ LENGTH(64)" for k
    using that by (simp only: unsigned_of_nat take_bit_nat_eq_self of_nat_id)
  ultimately have "sign_bit (i < 0) + m = sign_bit (j < 0) + n"
    using assms(3) unfolding float_of_int_def m_def n_def by metis
  with m have same: "(i < 0) = (j < 0)" "m = n" by (auto simp: sign_bit_def split: if_splits)
  have "nat \<bar>i\<bar> * 2 ^ 1074 = nat \<bar>j\<bar> * 2 ^ 1074"
  proof -
    have "nat \<bar>i\<bar> \<le> 2 ^ 53" "nat \<bar>j\<bar> \<le> 2 ^ 53" using assms(1,2) by (simp_all add: nat_le_iff)
    then have "units 52 m = nat \<bar>i\<bar> * 2 ^ 1074" "units 52 n = nat \<bar>j\<bar> * 2 ^ 1074"
      by (simp_all only: m_def n_def read_bits_small)
    with same(2) show ?thesis by metis
  qed
  then have "\<bar>i\<bar> = \<bar>j\<bar>" by (simp only: mult_cancel2 power_eq_0_iff) simp
  with same(1) show ?thesis by linarith
qed

end
