(* ===== verification/Go_ParseFloat.thy ===== *)
theory Go_ParseFloat
  imports Json_Number
begin

text \<open>
  \<open>strconv.ParseFloat(s, 64)\<close>: the words for an infinity and a NaN, decimal and hexadecimal numbers
  with an exponent and with underscores between digits. As in the library, an exponent stops to
  grow once it is above 9999. The code only looks at whether there is an error, so a syntax error
  and a number out of range are both \<open>None\<close>.
\<close>

section \<open>The words\<close>

definition sign_of :: "string \<Rightarrow> bool option \<times> string" where
  "sign_of s =
     (case s of
        c # t \<Rightarrow> if c = CHR ''+'' then (Some False, t) else if c = CHR ''-'' then (Some True, t) else (None, s)
      | [] \<Rightarrow> (None, []))"

definition infinity_bits :: nat where
  "infinity_bits = 2047 * 2 ^ 52"

definition special_word :: "string \<Rightarrow> 64 word option" where
  "special_word s =
     (case sign_of s of
        (sg, t) \<Rightarrow>
          (let u = map char_upper t in
           if u = ''INF'' \<or> u = ''INFINITY'' then Some (word_of_nat (sign_bit (sg = Some True) + infinity_bits))
           else if u = ''NAN'' \<and> sg = None then Some 0x7FF8000000000001
           else None))"

section \<open>The numbers\<close>

definition digit_of :: "bool \<Rightarrow> char \<Rightarrow> nat option" where
  "digit_of hex c =
     (if is_digit c then Some (digit_val c)
      else if hex \<and> 65 \<le> byte (char_upper c) \<and> byte (char_upper c) \<le> 70 then Some (byte (char_upper c) - 55)
      else None)"

text \<open>
  The mantissa: whether there was a digit, the number of digits after the point and the value of all
  digits, and what follows. A second point ends it.
\<close>

fun scan_mantissa :: "bool \<Rightarrow> bool \<Rightarrow> bool \<times> nat \<times> nat \<Rightarrow> string \<Rightarrow> (bool \<times> nat \<times> nat) \<times> string" where
  "scan_mantissa hex dot acc [] = (acc, [])"
| "scan_mantissa hex dot (seen, frac, v) (c # s) =
     (if c = CHR ''_'' then scan_mantissa hex dot (seen, frac, v) s
      else if c = CHR ''.'' then
        (if dot then ((seen, frac, v), c # s) else scan_mantissa hex True (seen, frac, v) s)
      else
        (case digit_of hex c of
           Some d \<Rightarrow>
             scan_mantissa hex dot (True, if dot then Suc frac else frac, v * (if hex then 16 else 10) + d) s
         | None \<Rightarrow> ((seen, frac, v), c # s)))"

fun scan_exponent :: "nat \<Rightarrow> string \<Rightarrow> nat \<times> string" where
  "scan_exponent e [] = (e, [])"
| "scan_exponent e (c # s) =
     (if c = CHR ''_'' then scan_exponent e s
      else if is_digit c then scan_exponent (if e < 10000 then e * 10 + digit_val c else e) s
      else (e, c # s))"

text \<open>The exponent and what follows. A hexadecimal number must have one.\<close>

definition read_exponent :: "bool \<Rightarrow> string \<Rightarrow> (int \<times> string) option" where
  "read_exponent hex s =
     (if s \<noteq> [] \<and> char_upper (hd s) = (if hex then CHR ''P'' else CHR ''E'') then
        (case sign_of (tl s) of
           (sg, t) \<Rightarrow>
             if t \<noteq> [] \<and> is_digit (hd t) then
               (case scan_exponent 0 t of (e, r) \<Rightarrow> Some (if sg = Some True then - int e else int e, r))
             else None)
      else if hex then None else Some (0, s))"

text \<open>An underscore must be between two digits, or between the prefix \<open>0x\<close> and a digit.\<close>

fun underscoreOK :: "bool \<Rightarrow> char \<Rightarrow> string \<Rightarrow> bool" where
  "underscoreOK hex saw [] \<longleftrightarrow> saw \<noteq> CHR ''_''"
| "underscoreOK hex saw (c # s) \<longleftrightarrow>
     (if digit_of hex c \<noteq> None then underscoreOK hex CHR ''0'' s
      else if c = CHR ''_'' then saw = CHR ''0'' \<and> underscoreOK hex CHR ''_'' s
      else saw \<noteq> CHR ''_'' \<and> underscoreOK hex CHR ''!'' s)"

definition is_hex :: "string \<Rightarrow> bool" where
  "is_hex t \<longleftrightarrow> 2 < length t \<and> t ! 0 = CHR ''0'' \<and> char_upper (t ! 1) = CHR ''X''"

definition float_bits :: "bool \<Rightarrow> nat \<Rightarrow> int \<Rightarrow> nat" where
  "float_bits hex v x =
     (if hex then nearest 52 (v * 2 ^ nat (x + 1074)) (2 ^ nat (- (x + 1074))) else read_bits 52 1074 v x)"

definition ParseFloat :: "string \<Rightarrow> 64 word option" where
  "ParseFloat s =
     (case special_word s of
        Some w \<Rightarrow> Some w
      | None \<Rightarrow>
          (case sign_of s of
             (sg, t) \<Rightarrow>
               (let hex = is_hex t; body = (if hex then drop 2 t else t) in
                case scan_mantissa hex False (False, 0, 0) body of
                  ((seen, frac, v), r) \<Rightarrow>
                    (case (if seen then read_exponent hex r else None) of
                       None \<Rightarrow> None
                     | Some (e, rest) \<Rightarrow>
                         (let n = float_bits hex v (e - int frac * (if hex then 4 else 1)) in
                          if rest \<noteq> [] \<or> \<not> underscoreOK hex (if hex then CHR ''0'' else CHR ''^'') body \<or>
                            infinity_bits \<le> n
                          then None
                          else Some (word_of_nat (sign_bit (sg = Some True) + n)))))))"

section \<open>Lemmas\<close>

text \<open>On a plain decimal number it agrees with the decoder of JSON numbers.\<close>

lemma digit_of_digit [simp]: "is_digit c \<Longrightarrow> digit_of hex c = Some (digit_val c)"
  by (simp add: digit_of_def)

lemma digit_not_mark: "is_digit c \<Longrightarrow> c \<noteq> CHR ''_'' \<and> c \<noteq> CHR ''.'' \<and> c \<noteq> CHR ''-'' \<and> c \<noteq> CHR ''+''"
  by (auto simp: is_digit_def)

lemma scan_mantissa_digits:
  "list_all is_digit ds \<Longrightarrow> ds \<noteq> [] \<or> seen \<Longrightarrow>
   scan_mantissa False dot (seen, frac, v) (ds @ s) =
     scan_mantissa False dot (True, if dot then frac + length ds else frac, the (dec_value v ds)) s"
proof (induction ds arbitrary: seen frac v)
  case (Cons c ds)
  then have "is_digit c" "list_all is_digit ds" by simp_all
  with digit_not_mark [of c] Cons.IH [of True "if dot then Suc frac else frac" "v * 10 + digit_val c"]
  show ?case by simp
qed simp

lemma underscoreOK_plain:
  "CHR ''_'' \<notin> set s \<Longrightarrow> saw \<noteq> CHR ''_'' \<Longrightarrow> underscoreOK hex saw s"
  by (induction s arbitrary: saw) auto

lemma ParseFloat_decimal:
  assumes "integer_ok ip" and "list_all is_digit fp"
  shows "ParseFloat (number_text neg ip fp None) = convertNumber (number_text neg ip fp None)"
proof -
  obtain c cs where ip: "ip = c # cs" "is_digit c" "list_all is_digit ip"
    using assms(1) by (cases ip) (auto simp: integer_ok_def)
  let ?s = "number_text neg ip fp None" and ?t = "ip @ tail_text fp None"
  have s: "?s = (if neg then CHR ''-'' # ?t else ?t)" by (simp add: number_text_def)
  have sg: "sign_of ?s = (if neg then Some True else None, ?t)"
    using digit_not_mark [OF ip(2)] by (simp add: number_text_def sign_of_def ip(1))
  have "char_upper c \<noteq> CHR ''I''" "char_upper c \<noteq> CHR ''N''" using ip(2) by (auto simp: char_upper_def is_digit_def)
  then have special: "special_word ?s = None" unfolding special_word_def sg by (simp add: ip(1) Let_def)
  have marks: "\<forall>d \<in> set ?t. is_digit d \<or> d = CHR ''.''" using ip(3) assms(2) by (auto simp: list_all_iff)
  have "\<not> is_hex ?t"
  proof
    assume hex: "is_hex ?t"
    then have "?t ! 1 \<in> set ?t" by (intro nth_mem) (simp add: is_hex_def)
    with marks have "is_digit (?t ! 1) \<or> ?t ! 1 = CHR ''.''" by blast
    with hex show False by (auto simp: is_hex_def char_upper_def is_digit_def)
  qed
  moreover have "scan_mantissa False False (False, 0, 0) ?t = ((True, length fp, dec_number (ip @ fp)), [])"
  proof -
    obtain m where m: "dec_value 0 ip = Some m" using ip(3) dec_value_digits by blast
    obtain k where k: "dec_value m fp = Some k" using assms(2) dec_value_digits by blast
    have "scan_mantissa False False (False, 0, 0) ?t = scan_mantissa False False (True, 0, m) (tail_text fp None)"
      using scan_mantissa_digits [OF ip(3), of False False 0 0 "tail_text fp None"] ip(1) m by simp
    also have "\<dots> = ((True, length fp, k), [])"
      using scan_mantissa_digits [OF assms(2), of True True 0 m "[]"] k by (cases fp) simp_all
    finally show ?thesis using m k by (simp add: dec_number_def dec_value_append)
  qed
  moreover have "underscoreOK False CHR ''^'' ?t"
    using marks digit_not_mark by (intro underscoreOK_plain) blast+
  ultimately show ?thesis
    using number_text_read [OF assms, of None neg]
    by (simp add: ParseFloat_def special sg read_exponent_def exponent_ok_def Let_def float_bits_def infinity_bits_def
        convertNumber_def)
qed

end
