(* ===== verification/Source_Rows.thy ===== *)
theory Source_Rows
  imports Types Go_Time Go_ParseFloat
begin

text \<open>
  \<open>OnRow\<close> and \<open>rowToMap\<close> of \<open>source/mysql.go\<close> as functions: the events a binlog rows event becomes.
\<close>

section \<open>What the binlog library hands over\<close>

datatype column_type =
    TYPE_NUMBER | TYPE_FLOAT | TYPE_ENUM | TYPE_SET | TYPE_STRING | TYPE_DATETIME | TYPE_TIMESTAMP
  | TYPE_DATE | TYPE_TIME | TYPE_BIT | TYPE_JSON | TYPE_DECIMAL | TYPE_MEDIUM_INT | TYPE_BINARY | TYPE_POINT
  | TYPE_OTHER nat

record TableColumn =
  colName :: string
  colType :: column_type

datatype row_action = InsertAction | UpdateAction | DeleteAction | OtherAction string

record RowsEvent =
  reLogPos :: "32 word"
  reServerID :: "32 word"
  reTimestamp :: "32 word"
  reSchema :: string
  reTable :: string
  reColumns :: "TableColumn list"
  reAction :: row_action
  reRows :: "go_val list list"

section \<open>A row as a map\<close>

definition number_column :: "go_val \<Rightarrow> go_val" where
  "number_column raw =
     (case raw of
        VBytes v \<Rightarrow> (case ParseInt v 64 of Some val \<Rightarrow> VInt KInt64 val | None \<Rightarrow> VBytes v)
      | _ \<Rightarrow> raw)"

definition float_column :: "go_val \<Rightarrow> go_val" where
  "float_column raw =
     (case raw of
        VBytes v \<Rightarrow> (case ParseFloat v of Some val \<Rightarrow> VFloat64 val | None \<Rightarrow> VBytes v)
      | _ \<Rightarrow> raw)"

definition bit_column :: "go_val \<Rightarrow> go_val" where
  "bit_column raw =
     (case raw of
        VBytes v \<Rightarrow> (if length v > 0 then VBool (of_char (v ! 0) \<noteq> (0 :: nat)) else VBool False)
      | _ \<Rightarrow> raw)"

definition time_column :: "go_val \<Rightarrow> go_val" where
  "time_column raw =
     (case raw of
        VBytes v \<Rightarrow> (case time_Parse v of None \<Rightarrow> VString v | Some t \<Rightarrow> VTime t)
      | _ \<Rightarrow> raw)"

definition string_column :: "go_val \<Rightarrow> go_val" where
  "string_column raw = (case raw of VBytes v \<Rightarrow> VString v | _ \<Rightarrow> raw)"

definition convert :: "column_type \<Rightarrow> go_val \<Rightarrow> go_val" where
  "convert ty raw =
     (if ty \<in> {TYPE_NUMBER, TYPE_MEDIUM_INT} then number_column raw
      else if ty \<in> {TYPE_FLOAT, TYPE_DECIMAL} then float_column raw
      else if ty = TYPE_BIT then bit_column raw
      else if ty \<in> {TYPE_DATETIME, TYPE_TIMESTAMP, TYPE_DATE, TYPE_TIME} then time_column raw
      else if ty \<in> {TYPE_STRING, TYPE_ENUM, TYPE_SET, TYPE_JSON, TYPE_BINARY, TYPE_POINT} then string_column raw
      else raw)"

fun rowLoop :: "go_val list \<Rightarrow> nat \<Rightarrow> TableColumn list \<Rightarrow> row_map \<Rightarrow> row_map" where
  "rowLoop row j [] m = m"
| "rowLoop row j (col # cols) m =
     (let m' =
        (if length row \<le> j then fmupd (colName col) VNil m
         else
           (let raw = row ! j in
            if raw = VNil then fmupd (colName col) VNil m
            else fmupd (colName col) (convert (colType col) raw) m))
      in rowLoop row (Suc j) cols m')"

definition rowToMap :: "go_val list \<Rightarrow> TableColumn list \<Rightarrow> row_map" where
  "rowToMap row columns = rowLoop row 0 columns fmempty"

section \<open>The events of a rows event\<close>

text \<open>
  One round of the loop at the row \<open>i\<close>: the event, and the row the next round looks at. \<open>now i\<close> is
  what \<open>time.Now()\<close> answers in it.
\<close>

definition change_event :: "(nat \<Rightarrow> go_time) \<Rightarrow> RowsEvent \<Rightarrow> nat \<Rightarrow> EventRowType \<Rightarrow> row_map \<Rightarrow> row_map \<Rightarrow> EventData" where
  "change_event now e i ty data old =
     \<lparr>eTime = now i, eServerID = ucast (reServerID e), ePos = ucast (reLogPos e),
      eRow = \<lparr>rTime = ucast (reTimestamp e), rDatabase = reSchema e, rTable = reTable e, rType = ty,
        rData = data, rOld = old\<rparr>\<rparr>"

definition row_round :: "(nat \<Rightarrow> go_time) \<Rightarrow> RowsEvent \<Rightarrow> nat \<Rightarrow> EventData \<times> nat" where
  "row_round now e i =
     (let row = reRows e ! i; conv = (\<lambda>r. rowToMap r (reColumns e)) in
      case reAction e of
        InsertAction \<Rightarrow> (change_event now e i InsertEventRowType (conv row) fmempty, i + 1)
      | DeleteAction \<Rightarrow> (change_event now e i DeleteEventRowType (conv row) fmempty, i + 1)
      | UpdateAction \<Rightarrow>
          if i + 1 < length (reRows e)
          then (change_event now e i UpdateEventRowType (conv (reRows e ! (i + 1))) (conv row), i + 2)
          else (change_event now e i UpdateEventRowType (conv row) fmempty, i + 1)
      | OtherAction s \<Rightarrow> (change_event now e i (OtherEventRowType s) (conv row) fmempty, i + 1))"

lemma row_round_next: "i < snd (row_round now e i)"
  by (simp add: row_round_def Let_def split: row_action.split)

function row_events :: "(nat \<Rightarrow> go_time) \<Rightarrow> RowsEvent \<Rightarrow> nat \<Rightarrow> EventData list" where
  "row_events now e i =
     (if i < length (reRows e)
      then fst (row_round now e i) # row_events now e (snd (row_round now e i))
      else [])"
  by pat_completeness auto
termination
proof (relation "measure (\<lambda>(now, e, i). length (reRows e) - i)", goal_cases)
  case (2 now e i)
  then show ?case using row_round_next [of i now e] by simp
qed simp

declare row_events.simps [simp del]

section \<open>Lemmas\<close>

text \<open>The cell a column reads: a row that is too short reads as nil.\<close>

definition cell :: "go_val list \<Rightarrow> nat \<Rightarrow> go_val" where
  "cell row j = (if j < length row then row ! j else VNil)"

lemmas column_defs = number_column_def float_column_def bit_column_def time_column_def string_column_def

lemma convert_VNil [simp]: "convert ty VNil = VNil"
  by (simp add: convert_def column_defs)

lemma rowLoop_step:
  "rowLoop row j (col # cols) m =
     rowLoop row (Suc j) cols (fmupd (colName col) (convert (colType col) (cell row j)) m)"
  by (simp add: cell_def Let_def)

lemma rowLoop_other: "k \<notin> colName ` set cols \<Longrightarrow> fmlookup (rowLoop row j cols m) k = fmlookup m k"
  by (induction cols arbitrary: j m) (auto simp: rowLoop_step simp del: rowLoop.simps(2))

lemma rowLoop_nth:
  "distinct (map colName cols) \<Longrightarrow> i < length cols \<Longrightarrow>
   fmlookup (rowLoop row j cols m) (colName (cols ! i)) = Some (convert (colType (cols ! i)) (cell row (j + i)))"
proof (induction cols arbitrary: i j m)
  case (Cons col cols)
  then show ?case
    by (cases i) (simp_all add: rowLoop_step rowLoop_other del: rowLoop.simps(2))
qed simp

lemma rowToMap_nth:
  "distinct (map colName cols) \<Longrightarrow> i < length cols \<Longrightarrow>
   fmlookup (rowToMap row cols) (colName (cols ! i)) = Some (convert (colType (cols ! i)) (cell row i))"
  by (simp add: rowToMap_def rowLoop_nth)

lemma rowToMap_dom: "fmlookup (rowToMap row cols) k \<noteq> None \<longleftrightarrow> k \<in> colName ` set cols"
proof -
  have "fmlookup (rowLoop row j cols m) k \<noteq> None \<longleftrightarrow> k \<in> colName ` set cols \<or> fmlookup m k \<noteq> None" for j m
    by (induction cols arbitrary: j m) (auto simp: rowLoop_step simp del: rowLoop.simps(2) split: if_splits)
  from this [of 0 fmempty] show ?thesis by (simp add: rowToMap_def)
qed

lemma ParseInt_range: "ParseInt s 64 = Some k \<Longrightarrow> - (2 ^ 63) \<le> k \<and> k < 2 ^ 63"
  by (auto simp: ParseInt_def Let_def not_le split: if_splits option.splits)

section \<open>The types of the values\<close>

text \<open>
  The dynamic type of a value, the types the binlog library uses for a column besides bytes, and
  the types an event has for it.
\<close>

datatype go_type =
    TNil | TBytes | TInt int_kind | TFloat32 | TFloat64 | TBool | TString | TTime | TOther

fun dyn_type :: "go_val \<Rightarrow> go_type" where
  "dyn_type VNil = TNil"
| "dyn_type (VBytes _) = TBytes"
| "dyn_type (VInt k _) = TInt k"
| "dyn_type (VFloat32 _) = TFloat32"
| "dyn_type (VFloat64 _) = TFloat64"
| "dyn_type (VBool _) = TBool"
| "dyn_type (VString _) = TString"
| "dyn_type (VTime _) = TTime"
| "dyn_type _ = TOther"

definition native_types :: "column_type \<Rightarrow> go_type set" where
  "native_types ty =
     (case ty of
        TYPE_NUMBER \<Rightarrow> range TInt | TYPE_MEDIUM_INT \<Rightarrow> range TInt
      | TYPE_FLOAT \<Rightarrow> {TFloat32, TFloat64} | TYPE_DECIMAL \<Rightarrow> {TFloat32, TFloat64, TString}
      | TYPE_BIT \<Rightarrow> {TInt KInt64}
      | TYPE_DATETIME \<Rightarrow> {TString, TTime} | TYPE_TIMESTAMP \<Rightarrow> {TString, TTime}
      | TYPE_DATE \<Rightarrow> {TString, TTime} | TYPE_TIME \<Rightarrow> {TString, TTime}
      | TYPE_ENUM \<Rightarrow> {TString, TInt KInt64} | TYPE_SET \<Rightarrow> {TString, TInt KInt64}
      | _ \<Rightarrow> {TString})"

text \<open>What the conversion of bytes may add: the parsed value, or the bytes a number cannot be read from.\<close>

definition converted_types :: "column_type \<Rightarrow> go_type set" where
  "converted_types ty =
     (case ty of
        TYPE_NUMBER \<Rightarrow> {TInt KInt64} | TYPE_MEDIUM_INT \<Rightarrow> {TInt KInt64}
      | TYPE_FLOAT \<Rightarrow> {TFloat64} | TYPE_DECIMAL \<Rightarrow> {TFloat64}
      | TYPE_BIT \<Rightarrow> {TBool}
      | TYPE_DATETIME \<Rightarrow> {TString, TTime} | TYPE_TIMESTAMP \<Rightarrow> {TString, TTime}
      | TYPE_DATE \<Rightarrow> {TString, TTime} | TYPE_TIME \<Rightarrow> {TString, TTime}
      | TYPE_OTHER n \<Rightarrow> {TBytes}
      | _ \<Rightarrow> {TString})"

definition unreadable :: "column_type \<Rightarrow> string \<Rightarrow> bool" where
  "unreadable ty b \<longleftrightarrow>
     ty \<in> {TYPE_NUMBER, TYPE_MEDIUM_INT} \<and> ParseInt b 64 = None \<or> ty \<in> {TYPE_FLOAT, TYPE_DECIMAL} \<and> ParseFloat b = None"

lemma convert_bytes:
  "dyn_type (convert ty (VBytes b)) \<in> converted_types ty \<and> in_range (convert ty (VBytes b)) \<or>
   unreadable ty b \<and> convert ty (VBytes b) = VBytes b"
  by (cases ty)
    (auto simp: convert_def column_defs converted_types_def unreadable_def dest!: ParseInt_range split: option.split)

lemma convert_other: "dyn_type raw \<noteq> TBytes \<Longrightarrow> convert ty raw = raw"
  by (cases raw) (simp_all add: convert_def column_defs)

lemma convert_typed:
  assumes "dyn_type raw \<in> {TNil, TBytes} \<union> native_types ty" and "in_range raw"
  shows "in_range (convert ty raw) \<and> (convert ty raw = VNil \<longleftrightarrow> raw = VNil) \<and>
    (dyn_type (convert ty raw) \<in> {TNil} \<union> native_types ty \<union> converted_types ty \<or>
     (\<exists>b. convert ty raw = VBytes b \<and> unreadable ty b))"
proof (cases "dyn_type raw = TBytes")
  case True
  then obtain b where b: "raw = VBytes b" by (cases raw) auto
  have "TNil \<notin> converted_types ty" by (simp add: converted_types_def split: column_type.split)
  then have "dyn_type VNil \<notin> converted_types ty" by simp
  with convert_bytes [of ty b] b show ?thesis by auto
next
  case False
  with assms show ?thesis by (auto simp: convert_other)
qed

section \<open>Properties\<close>

text \<open>
  C18. A row is typed. A map made from a row has exactly the table's columns as its keys; a column
  reads nil exactly where the row has no value; and a value of one of the types the library uses
  for the column, or bytes, becomes a value of the column's types, in the range of its integer type.
  Bytes stay bytes only where a number cannot be read from them, or in a column of an unknown type.
\<close>

theorem rowToMap_typed:
  assumes "distinct (map colName cols)" and "j < length cols"
    and "dyn_type (cell row j) \<in> {TNil, TBytes} \<union> native_types (colType (cols ! j))" and "in_range (cell row j)"
  shows "(fmlookup (rowToMap row cols) k \<noteq> None \<longleftrightarrow> k \<in> colName ` set cols) \<and>
    (\<exists>v. fmlookup (rowToMap row cols) (colName (cols ! j)) = Some v \<and> in_range v \<and>
      (v = VNil \<longleftrightarrow> cell row j = VNil) \<and>
      (dyn_type v \<in> {TNil} \<union> native_types (colType (cols ! j)) \<union> converted_types (colType (cols ! j)) \<or>
       (\<exists>b. v = VBytes b \<and> unreadable (colType (cols ! j)) b)))"
  using rowToMap_dom [of row cols k] rowToMap_nth [OF assms(1,2), of row] convert_typed [OF assms(3,4)]
  by blast

theorem rowToMap_typed_witness:
  "\<exists>v. fmlookup (rowToMap [VBytes ''-7'', VBytes [CHR 0x00, CHR 0x01]]
        [\<lparr>colName = ''id'', colType = TYPE_NUMBER\<rparr>, \<lparr>colName = ''bits'', colType = TYPE_BIT\<rparr>,
         \<lparr>colName = ''new'', colType = TYPE_JSON\<rparr>]) ''bits'' = Some v \<and> v = VBool False"
proof -
  let ?cols = "[\<lparr>colName = ''id'', colType = TYPE_NUMBER\<rparr>, \<lparr>colName = ''bits'', colType = TYPE_BIT\<rparr>,
    \<lparr>colName = ''new'', colType = TYPE_JSON\<rparr>]"
  let ?row = "[VBytes ''-7'', VBytes [CHR 0x00, CHR 0x01]]"
  obtain v where "fmlookup (rowToMap ?row ?cols) ''bits'' = Some v" "v \<noteq> VNil"
    using rowToMap_typed [of ?cols 1 ?row] by (auto simp: cell_def)
  moreover have "convert TYPE_BIT (VBytes [CHR 0x00, CHR 0x01]) = VBool False"
    by (simp add: convert_def bit_column_def)
  ultimately show ?thesis
    using rowToMap_nth [of ?cols 1 ?row] by (simp add: cell_def)
qed

text \<open>
  C13. The events of a rows event. An insert, a delete and any other action give one event per row,
  in order. An update pairs the rows: the event holds the second of a pair as the data and the first
  as the old data; a last row without a partner is the data of an event without old data.
\<close>

theorem row_changes:
  "row_events now e 0 =
     (let n = length (reRows e); conv = (\<lambda>i. rowToMap (reRows e ! i) (reColumns e)) in
      case reAction e of
        UpdateAction \<Rightarrow>
          map (\<lambda>k. if 2 * k + 1 < n
                   then change_event now e (2 * k) UpdateEventRowType (conv (2 * k + 1)) (conv (2 * k))
                   else change_event now e (2 * k) UpdateEventRowType (conv (2 * k)) fmempty) [0..<(n + 1) div 2]
      | InsertAction \<Rightarrow> map (\<lambda>i. change_event now e i InsertEventRowType (conv i) fmempty) [0..<n]
      | DeleteAction \<Rightarrow> map (\<lambda>i. change_event now e i DeleteEventRowType (conv i) fmempty) [0..<n]
      | OtherAction s \<Rightarrow> map (\<lambda>i. change_event now e i (OtherEventRowType s) (conv i) fmempty) [0..<n])"
proof -
  let ?n = "length (reRows e)"
  have single: "row_events now e i = map f [i..<?n]"
    if "\<And>i. i < ?n \<Longrightarrow> row_round now e i = (f i, Suc i)" for f i
  proof (induction "?n - i" arbitrary: i)
    case (Suc m)
    then have "row_events now e (Suc i) = map f [Suc i..<?n]" by simp
    with Suc that [of i] show ?case by (subst row_events.simps) (simp add: upt_conv_Cons)
  qed (simp add: row_events.simps)
  have pairs: "row_events now e (2 * k) = map f [k..<(?n + 1) div 2]"
    if "\<And>k. 2 * k < ?n \<Longrightarrow> row_round now e (2 * k) = (f k, if 2 * k + 1 < ?n then 2 * k + 2 else 2 * k + 1)" for f k
  proof (induction "?n - 2 * k" arbitrary: k rule: less_induct)
    case less
    show ?case
    proof (cases "2 * k < ?n")
      case True
      then have "row_events now e (2 * Suc k) = map f [Suc k..<(?n + 1) div 2]" by (intro less) simp
      moreover have "row_events now e (2 * k + 1) = []" if "\<not> 2 * k + 1 < ?n" using that by (simp add: row_events.simps)
      moreover have "k < (?n + 1) div 2" using True by simp
      moreover have "(?n + 1) div 2 \<le> Suc k" if "\<not> 2 * k + 1 < ?n" using that by simp
      ultimately show ?thesis
        using that [OF True] True by (subst row_events.simps) (auto simp: upt_conv_Cons)
    qed (simp add: row_events.simps)
  qed
  show ?thesis
  proof (cases "reAction e")
    case UpdateAction
    let ?conv = "\<lambda>i. rowToMap (reRows e ! i) (reColumns e)"
    let ?f = "\<lambda>k. if 2 * k + 1 < ?n
      then change_event now e (2 * k) UpdateEventRowType (?conv (2 * k + 1)) (?conv (2 * k))
      else change_event now e (2 * k) UpdateEventRowType (?conv (2 * k)) fmempty"
    have "row_events now e (2 * 0) = map ?f [0..<(?n + 1) div 2]"
      using UpdateAction by (intro pairs) (simp add: row_round_def Let_def)
    with UpdateAction show ?thesis by (simp add: Let_def)
  qed (auto simp: row_round_def Let_def intro!: single)
qed

end
