(* ===== verification/Position.thy ===== *)
theory Position
  imports Json_Number
begin

text \<open>
  The position the source saves (\<open>MysqlPosition\<close> in \<open>source/mysql.go\<close>): how \<open>json.Marshal\<close> writes
  it, what \<open>json.Unmarshal\<close> makes of any text, and the round trip.
\<close>

record MysqlPosition =
  mpFile :: string
  mpPos :: "32 word"

definition zero_position :: MysqlPosition where
  "zero_position = \<lparr>mpFile = [], mpPos = 0\<rparr>"

definition marshal_position :: "MysqlPosition \<Rightarrow> string" where
  "marshal_position p =
     print_json (JObj [(''file'', JStr (mpFile p)), (''pos'', JNum (FormatUint (unat (mpPos p))))])"

section \<open>Reading a position\<close>

text \<open>
  One member of the object: an unknown key is skipped, \<open>null\<close> leaves the field as it is, a value of
  the wrong type is remembered as an error. The last of two members with one name counts.
\<close>

definition store_member :: "string \<times> json \<Rightarrow> bool \<times> MysqlPosition \<Rightarrow> bool \<times> MysqlPosition" where
  "store_member = (\<lambda>(k, v) (bad, p).
     if fold_key k = ''FILE'' then
       (case v of JStr s \<Rightarrow> (bad, p\<lparr>mpFile := s\<rparr>) | JNull \<Rightarrow> (bad, p) | _ \<Rightarrow> (True, p))
     else if fold_key k = ''POS'' then
       (case v of
          JNum lit \<Rightarrow>
            (case ParseUint lit 32 of Some n \<Rightarrow> (bad, p\<lparr>mpPos := word_of_nat n\<rparr>) | None \<Rightarrow> (True, p))
        | JNull \<Rightarrow> (bad, p)
        | _ \<Rightarrow> (True, p))
     else (bad, p))"

definition unmarshal_position :: "string \<Rightarrow> go_error + MysqlPosition" where
  "unmarshal_position s =
     (case parse_json s of
        None \<Rightarrow> Inl (JsonErr JsonSyntaxError)
      | Some JNull \<Rightarrow> Inr zero_position
      | Some (JObj ms) \<Rightarrow>
          (case fold store_member ms (False, zero_position) of
             (bad, p) \<Rightarrow> if bad then Inl (JsonErr JsonUnmarshalTypeError) else Inr p)
      | Some _ \<Rightarrow> Inl (JsonErr JsonUnmarshalTypeError))"

section \<open>The round trip\<close>

lemma position_roundtrip:
  assumes "valid_utf8 (mpFile p)"
  shows "unmarshal_position (marshal_position p) = Inr p"
proof -
  let ?ms = "[(''file'', JStr (mpFile p)), (''pos'', JNum (FormatUint (unat (mpPos p))))]"
  have "well_formed 10000 (JObj ?ms)"
    using FormatInt_number(1) [of "int (unat (mpPos p))"] by (simp add: FormatInt_def)
  then have "parse_json (marshal_position p) = Some (read_back (JObj ?ms))"
    unfolding marshal_position_def by (rule parse_json_print)
  moreover have "unat (mpPos p) < 2 ^ 32" using unsigned_less [of "mpPos p"] by simp
  ultimately show ?thesis
    using assms by (simp add: unmarshal_position_def store_member_def zero_position_def to_valid_utf8_id)
qed

end
