(* ===== verification/Md5.thy ===== *)
theory Md5
  imports Prelude
begin

text \<open>
  \<open>crypto/md5\<close> and \<open>encoding/hex\<close>, the two parts of the standard library that name the files of
  the file store: the digest of RFC 1321 on 32-bit words, and lower-case hexadecimal.
\<close>

unbundle bit_operations_syntax

type_synonym word32 = "32 word"

definition md5_K :: "word32 list" where
  "md5_K =
  [3614090360, 3905402710, 606105819, 3250441966, 4118548399, 1200080426, 2821735955, 4249261313,
   1770035416, 2336552879, 4294925233, 2304563134, 1804603682, 4254626195, 2792965006, 1236535329,
   4129170786, 3225465664, 643717713, 3921069994, 3593408605, 38016083, 3634488961, 3889429448,
   568446438, 3275163606, 4107603335, 1163531501, 2850285829, 4243563512, 1735328473, 2368359562,
   4294588738, 2272392833, 1839030562, 4259657740, 2763975236, 1272893353, 4139469664, 3200236656,
   681279174, 3936430074, 3572445317, 76029189, 3654602809, 3873151461, 530742520, 3299628645,
   4096336452, 1126891415, 2878612391, 4237533241, 1700485571, 2399980690, 4293915773, 2240044497,
   1873313359, 4264355552, 2734768916, 1309151649, 4149444226, 3174756917, 718787259, 3951481745]"

definition md5_shift :: "nat list" where
  "md5_shift =
  [7, 12, 17, 22, 7, 12, 17, 22, 7, 12, 17, 22, 7, 12, 17, 22,
   5, 9, 14, 20, 5, 9, 14, 20, 5, 9, 14, 20, 5, 9, 14, 20,
   4, 11, 16, 23, 4, 11, 16, 23, 4, 11, 16, 23, 4, 11, 16, 23,
   6, 10, 15, 21, 6, 10, 15, 21, 6, 10, 15, 21, 6, 10, 15, 21]"

text \<open>The rotation of a 32-bit word to the left.\<close>

definition rotl :: "nat \<Rightarrow> word32 \<Rightarrow> word32" where
  "rotl n x = push_bit n x OR drop_bit (32 - n) x"

text \<open>Padding: a one bit, zeros up to 56 bytes modulo 64, and the length in bits in 8 bytes.\<close>

definition le_bytes :: "nat \<Rightarrow> nat \<Rightarrow> nat list" where
  "le_bytes k n = map (\<lambda>i. (n div 256 ^ i) mod 256) [0..<k]"

definition md5_pad :: "nat list \<Rightarrow> nat list" where
  "md5_pad bs =
     bs @ [128] @ replicate ((119 - length bs mod 64) mod 64) 0 @ le_bytes 8 (8 * length bs)"

fun le_words :: "nat list \<Rightarrow> word32 list" where
  "le_words (a # b # c # d # bs) =
     word_of_nat (a + 256 * b + 65536 * c + 16777216 * d) # le_words bs"
| "le_words _ = []"

fun md5_blocks :: "nat \<Rightarrow> word32 list \<Rightarrow> word32 list list" where
  "md5_blocks 0 ws = []"
| "md5_blocks (Suc n) ws = take 16 ws # md5_blocks n (drop 16 ws)"

type_synonym md5_state = "word32 \<times> word32 \<times> word32 \<times> word32"

definition md5_round :: "word32 list \<Rightarrow> nat \<Rightarrow> md5_state \<Rightarrow> md5_state" where
  "md5_round m i s =
     (case s of (a, b, c, d) \<Rightarrow>
        let (f, g) =
          (if i < 16 then ((b AND c) OR (NOT b AND d), i)
           else if i < 32 then ((d AND b) OR (NOT d AND c), (5 * i + 1) mod 16)
           else if i < 48 then (b XOR c XOR d, (3 * i + 5) mod 16)
           else (c XOR (b OR NOT d), (7 * i) mod 16))
        in (d, b + rotl (md5_shift ! i) (a + f + md5_K ! i + m ! g), b, c))"

definition md5_block :: "word32 list \<Rightarrow> md5_state \<Rightarrow> md5_state" where
  "md5_block m s =
     (case (s, fold (md5_round m) [0..<64] s) of
        ((a, b, c, d), (a', b', c', d')) \<Rightarrow> (a + a', b + b', c + c', d + d'))"

definition md5_Sum :: "string \<Rightarrow> nat list" where
  "md5_Sum s =
     (let p = md5_pad (map of_char s) in
      case fold md5_block (md5_blocks (length p div 64) (le_words p))
        (0x67452301, 0xefcdab89, 0x98badcfe, 0x10325476) of
        (a, b, c, d) \<Rightarrow> concat (map (\<lambda>w. le_bytes 4 (unat w)) [a, b, c, d]))"

text \<open>\<open>hex.EncodeToString\<close>\<close>

definition hex_digit :: "nat \<Rightarrow> char" where
  "hex_digit n = (if n < 10 then char_of (48 + n) else char_of (87 + n))"

definition hex_EncodeToString :: "nat list \<Rightarrow> string" where
  "hex_EncodeToString bs = concat (map (\<lambda>b. [hex_digit (b div 16), hex_digit (b mod 16)]) bs)"

section \<open>Lemmas\<close>

lemma length_le_bytes [simp]: "length (le_bytes k n) = k"
  by (simp add: le_bytes_def)

lemma le_bytes_less: "b \<in> set (le_bytes k n) \<Longrightarrow> b < 256"
  by (auto simp: le_bytes_def)

lemma length_md5_Sum [simp]: "length (md5_Sum s) = 16"
  by (simp add: md5_Sum_def Let_def split: prod.split)

lemma md5_Sum_less: "b \<in> set (md5_Sum s) \<Longrightarrow> b < 256"
  by (auto simp: md5_Sum_def Let_def dest: le_bytes_less split: prod.splits)

lemma length_hex [simp]: "length (hex_EncodeToString bs) = 2 * length bs"
  by (induction bs) (simp_all add: hex_EncodeToString_def)

definition hex_digits :: "char set" where
  "hex_digits = set ''0123456789abcdef''"

lemma hex_digit_in:
  assumes "n < 16"
  shows "hex_digit n \<in> hex_digits"
proof -
  have "list_all (\<lambda>n. hex_digit n \<in> hex_digits) [0..<16]" by code_simp
  then show ?thesis using assms by (simp add: list_all_iff)
qed

lemma hex_EncodeToString_digits:
  assumes "\<forall>b \<in> set bs. b < 256"
  shows "set (hex_EncodeToString bs) \<subseteq> hex_digits"
  using assms by (auto simp: hex_EncodeToString_def intro!: hex_digit_in)


end
