(* ===== verification/Store.thy ===== *)
theory Store
  imports Types Md5
begin

text \<open>
  \<open>store/store.go\<close>, \<open>store/file.go\<close> and \<open>store/redis.go\<close>: the key-value stores the source keeps its
  position in. The locale \<open>kv_store\<close> states what the code relies on of a store; the file store is
  its interpretation, on a model of the directory it writes to.

  A key's lock makes an operation on it one step, except for a crash: the states a file system
  goes through within \<open>Set\<close> are a list, so that a crash can leave any of them.
\<close>

section \<open>The registry\<close>

record StoreFileConfig =
  sfDir :: string

record StoreRedisConfig =
  srAddr :: string
  srPassword :: string
  srDB :: int

record StoreConfig =
  scType :: string
  scFile :: StoreFileConfig
  scRedis :: StoreRedisConfig

record 'w IStore =
  SetKey :: "string \<Rightarrow> string \<Rightarrow> 'w \<Rightarrow> go_error option \<times> 'w"
  GetKey :: "string \<Rightarrow> 'w \<Rightarrow> (go_error + string) \<times> 'w"
  HasKey :: "string \<Rightarrow> 'w \<Rightarrow> bool \<times> 'w"
  DeleteKey :: "string \<Rightarrow> 'w \<Rightarrow> go_error option \<times> 'w"
  CloseStore :: "'w \<Rightarrow> go_error option \<times> 'w"

type_synonym ('s, 'w) store_registry = "string \<rightharpoonup> (StoreConfig \<Rightarrow> 'w \<Rightarrow> (go_error + 's) \<times> 'w)"

definition RegisterStore :: "('s, 'w) store_registry \<Rightarrow> string \<Rightarrow> (StoreConfig \<Rightarrow> 'w \<Rightarrow> (go_error + 's) \<times> 'w) \<Rightarrow>
    ('s, 'w) store_registry" where
  "RegisterStore m ty fn = m(ty \<mapsto> fn)"

definition stores :: "(StoreFileConfig \<Rightarrow> 'w \<Rightarrow> (go_error + 's) \<times> 'w) \<Rightarrow>
    (StoreRedisConfig \<Rightarrow> 'w \<Rightarrow> (go_error + 's) \<times> 'w) \<Rightarrow> ('s, 'w) store_registry" where
  "stores newFile newRedis =
     RegisterStore (RegisterStore Map.empty ''file'' (\<lambda>cfg. newFile (scFile cfg)))
       ''redis'' (\<lambda>cfg. newRedis (scRedis cfg))"

definition NewStore :: "('s, 'w) store_registry \<Rightarrow> StoreConfig \<Rightarrow> 'w \<Rightarrow> (go_error + 's) \<times> 'w" where
  "NewStore reg cfg w =
     (case reg (scType cfg) of
        None \<Rightarrow> (Inl (ErrNew ''store type %s is not registered'' [FStr (scType cfg)]), w)
      | Some creator \<Rightarrow> creator cfg w)"

section \<open>What a store promises\<close>

text \<open>
  \<open>get\<close> reads a key. A successful \<open>Set\<close> changes what its key reads and a failed one changes
  nothing, and so for \<open>Delete\<close>. \<open>same\<close> says which keys the store cannot tell apart.
\<close>

locale kv_store =
  fixes same :: "string \<Rightarrow> string \<Rightarrow> bool"
    and get :: "string \<Rightarrow> 's \<Rightarrow> string option"
    and put :: "'f \<Rightarrow> string \<Rightarrow> string \<Rightarrow> 's \<Rightarrow> go_error option \<times> 's"
    and del :: "'f \<Rightarrow> string \<Rightarrow> 's \<Rightarrow> go_error option \<times> 's"
  assumes same_refl: "same k k"
    and get_put: "put f k v s = (None, s') \<Longrightarrow> get k' s' = (if same k k' then Some v else get k' s)"
    and get_put_failed: "put f k v s = (Some e, s') \<Longrightarrow> get k' s' = get k' s"
    and get_del: "del f k s = (None, s') \<Longrightarrow> get k' s' = (if same k k' then None else get k' s)"
    and get_del_failed: "del f k s = (Some e, s') \<Longrightarrow> get k' s' = get k' s"
begin

text \<open>
  A sequence of writes (\<open>Some v\<close>) and deletions (\<open>None\<close>), each with what goes wrong in it, and
  the log of what they answered. A key reads what the last successful one on it left.
\<close>

fun perform :: "(string \<times> string option \<times> 'f) list \<Rightarrow> 's \<Rightarrow> (string \<times> string option \<times> go_error option) list \<times> 's" where
  "perform [] s = ([], s)"
| "perform ((k, v, f) # ops) s =
     (case (case v of Some v \<Rightarrow> put f k v s | None \<Rightarrow> del f k s) of
        (e, s1) \<Rightarrow> (case perform ops s1 of (rs, s2) \<Rightarrow> ((k, v, e) # rs, s2)))"

lemma perform_reads:
  assumes "perform ops s = (rs, s')"
  shows "get k s' = fold (\<lambda>(k', v, e) r. if e = None \<and> same k' k then v else r) rs (get k s)"
  using assms
proof (induction ops s arbitrary: rs rule: perform.induct)
  case (2 k' v f ops s)
  obtain e s1 where step: "(case v of Some v \<Rightarrow> put f k' v s | None \<Rightarrow> del f k' s) = (e, s1)" by fastforce
  obtain rs' where rest: "perform ops s1 = (rs', s')" "rs = (k', v, e) # rs'"
    using 2(2) step by (auto split: prod.splits)
  have "get k s1 = (if e = None \<and> same k' k then v else get k s)"
    using step get_put get_put_failed get_del get_del_failed
    by (cases e; cases v) auto
  with 2(1) [OF step [symmetric] rest(1)] rest(2) show ?case by simp
qed simp

text \<open>A write that succeeded reads back, however often the writes before it failed.\<close>

lemma put_reads_back: "put f k v s = (None, s') \<Longrightarrow> get k s' = Some v"
  by (simp add: get_put same_refl)

end

section \<open>The directory of the file store\<close>

text \<open>
  A path is a directory and an entry of it (\<open>filepath.Join\<close> of a directory and a name without a
  separator). A file has its bytes and its permissions. Every call to the operating system can
  fail: a fault is the text of its error.
\<close>

datatype path = Path string string
type_synonym fault = "string option"

record disk_file =
  fContent :: string
  fMode :: nat

type_synonym disk = "path \<rightharpoonup> disk_file"

record FileStore =
  fsDir :: string

definition keyPrefix :: string where
  "keyPrefix = ''cdc-trigger-''"

definition NewFileStore :: "string \<Rightarrow> fault \<Rightarrow> StoreFileConfig \<Rightarrow> go_error + FileStore" where
  "NewFileStore TempDir mkdir config =
     (let dir = (if sfDir config = [] then TempDir else sfDir config) in
      case mkdir of Some err \<Rightarrow> Inl (LibErr err) | None \<Rightarrow> Inr \<lparr>fsDir = dir\<rparr>)"

definition filePath :: "FileStore \<Rightarrow> string \<Rightarrow> path" where
  "filePath fs key = Path (fsDir fs) (keyPrefix @ hex_EncodeToString (md5_Sum key))"

subsection \<open>System calls\<close>

definition os_Stat :: "fault \<Rightarrow> path \<Rightarrow> disk \<Rightarrow> go_error option" where
  "os_Stat fault p d =
     (case fault of Some err \<Rightarrow> Some (LibErr err) | None \<Rightarrow> if d p = None then Some OsNotExist else None)"

definition os_Remove :: "fault \<Rightarrow> path \<Rightarrow> disk \<Rightarrow> go_error option \<times> disk" where
  "os_Remove fault p d =
     (case fault of Some err \<Rightarrow> (Some (LibErr err), d)
      | None \<Rightarrow> if d p = None then (Some OsNotExist, d) else (None, d(p := None)))"

definition os_ReadFile :: "fault \<Rightarrow> path \<Rightarrow> disk \<Rightarrow> go_error + string" where
  "os_ReadFile fault p d =
     (case fault of Some err \<Rightarrow> Inl (LibErr err)
      | None \<Rightarrow> (case d p of None \<Rightarrow> Inl OsNotExist | Some f \<Rightarrow> Inr (fContent f)))"

text \<open>
  \<open>os.CreateTemp(dir, prefix + "*" + suffix)\<close> tries random strings until the name is free; the
  list holds the strings it tries before it gives up.
\<close>

definition os_CreateTemp :: "fault \<Rightarrow> string list \<Rightarrow> string \<Rightarrow> string \<Rightarrow> string \<Rightarrow> disk \<Rightarrow>
    (go_error + path) \<times> disk" where
  "os_CreateTemp fault randoms dir prefix suffix d =
     (case fault of Some err \<Rightarrow> (Inl (LibErr err), d)
      | None \<Rightarrow>
          (case List.find (\<lambda>p. d p = None) (map (\<lambda>r. Path dir (prefix @ r @ suffix)) randoms) of
             None \<Rightarrow> (Inl (LibErr ''file exists''), d)
           | Some p \<Rightarrow> (Inr p, d(p \<mapsto> \<lparr>fContent = [], fMode = 384\<rparr>))))"

section \<open>The operations\<close>

text \<open>
  What goes wrong in one \<open>Set\<close>: \<open>sfWrite\<close> is the number of bytes that were written before the
  error.
\<close>

record set_faults =
  sfCreate :: fault
  sfRandoms :: "string list"
  sfWrite :: "(nat \<times> string) option"
  sfClose :: fault
  sfChmod :: fault
  sfRename :: fault
  sfStat :: fault
  sfRemove :: fault

text \<open>The states a write goes through: the file grows byte by byte.\<close>

definition growing :: "path \<Rightarrow> string \<Rightarrow> nat \<Rightarrow> disk \<Rightarrow> disk list" where
  "growing p value n d = map (\<lambda>k. d(p \<mapsto> \<lparr>fContent = take k value, fMode = 384\<rparr>)) [0..<Suc n]"

text \<open>The body of \<open>Set\<close> after the temporary file was made, with the states it goes through.\<close>

definition set_body :: "set_faults \<Rightarrow> path \<Rightarrow> path \<Rightarrow> string \<Rightarrow> disk \<Rightarrow> go_error option \<times> disk list" where
  "set_body f tmp path value d =
     (case sfWrite f of
        Some (n, err) \<Rightarrow> (Some (LibErr err), growing tmp value n d)
      | None \<Rightarrow>
          (let d2 = d(tmp \<mapsto> \<lparr>fContent = value, fMode = 384\<rparr>);
               written = growing tmp value (length value) d in
           case sfClose f of
             Some err \<Rightarrow> (Some (LibErr err), written)
           | None \<Rightarrow>
               (case sfChmod f of
                  Some err \<Rightarrow> (Some (LibErr err), written)
                | None \<Rightarrow>
                    (let d3 = d2(tmp \<mapsto> \<lparr>fContent = value, fMode = 420\<rparr>) in
                     case sfRename f of
                       Some err \<Rightarrow> (Some (LibErr err), written @ [d3])
                     | None \<Rightarrow> (None, written @ [d3, d3(path := d3 tmp, tmp := None)])))))"

text \<open>The deferred function: the temporary file is removed if it is still there.\<close>

definition set_cleanup :: "set_faults \<Rightarrow> path \<Rightarrow> disk \<Rightarrow> disk" where
  "set_cleanup f tmp d =
     (if os_Stat (sfStat f) tmp d = None then snd (os_Remove (sfRemove f) tmp d) else d)"

definition FileStore_Set_states :: "set_faults \<Rightarrow> FileStore \<Rightarrow> string \<Rightarrow> string \<Rightarrow> disk \<Rightarrow>
    go_error option \<times> disk list" where
  "FileStore_Set_states f fs key value d =
     (let path = filePath fs key in
      case os_CreateTemp (sfCreate f) (sfRandoms f) (fsDir fs) keyPrefix ''.tmp'' d of
        (Inl err, d1) \<Rightarrow> (Some err, [d1])
      | (Inr tmp, d1) \<Rightarrow>
          (case set_body f tmp path value d1 of
             (err, ds) \<Rightarrow> (err, d # d1 # ds @ [set_cleanup f tmp (last ds)])))"

definition FileStore_Set :: "set_faults \<Rightarrow> FileStore \<Rightarrow> string \<Rightarrow> string \<Rightarrow> disk \<Rightarrow> go_error option \<times> disk" where
  "FileStore_Set f fs key value d =
     (case FileStore_Set_states f fs key value d of (err, ds) \<Rightarrow> (err, last ds))"

definition FileStore_Has :: "fault \<Rightarrow> FileStore \<Rightarrow> string \<Rightarrow> disk \<Rightarrow> bool" where
  "FileStore_Has f fs key d \<longleftrightarrow> os_Stat f (filePath fs key) d = None"

definition FileStore_Get :: "fault \<Rightarrow> FileStore \<Rightarrow> string \<Rightarrow> disk \<Rightarrow> go_error + string" where
  "FileStore_Get f fs key d = os_ReadFile f (filePath fs key) d"

definition FileStore_Delete :: "fault \<Rightarrow> fault \<Rightarrow> FileStore \<Rightarrow> string \<Rightarrow> disk \<Rightarrow> go_error option \<times> disk" where
  "FileStore_Delete st rm fs key d =
     (let path = filePath fs key in
      if os_Stat st path d = Some OsNotExist then (None, d) else os_Remove rm path d)"

definition FileStore_Close :: "disk \<Rightarrow> go_error option \<times> disk" where
  "FileStore_Close d = (None, d)"

text \<open>The file store behind the interface, for given faults.\<close>

definition FileStore_IStore :: "set_faults \<Rightarrow> fault \<Rightarrow> fault \<Rightarrow> FileStore \<Rightarrow> disk IStore" where
  "FileStore_IStore f st rm fs =
     \<lparr>SetKey = FileStore_Set f fs, GetKey = (\<lambda>k d. (FileStore_Get st fs k d, d)),
      HasKey = (\<lambda>k d. (FileStore_Has st fs k d, d)), DeleteKey = FileStore_Delete st rm fs, CloseStore = FileStore_Close\<rparr>"

section \<open>The temporary file\<close>

text \<open>A temporary file is never the file of a key: its name ends in a letter that is no hex digit.\<close>

lemma filePath_digits: "\<exists>h. filePath fs key = Path (fsDir fs) (keyPrefix @ h) \<and> h \<noteq> [] \<and> set h \<subseteq> hex_digits"
proof -
  have "length (hex_EncodeToString (md5_Sum key)) = 32" by simp
  then have "hex_EncodeToString (md5_Sum key) \<noteq> []" by fastforce
  then show ?thesis
    using hex_EncodeToString_digits md5_Sum_less by (auto simp: filePath_def)
qed

lemma temp_not_key: "Path dir (keyPrefix @ r @ ''.tmp'') \<noteq> filePath fs key"
proof
  obtain h where h: "filePath fs key = Path (fsDir fs) (keyPrefix @ h)" "h \<noteq> []" "set h \<subseteq> hex_digits"
    using filePath_digits by blast
  assume "Path dir (keyPrefix @ r @ ''.tmp'') = filePath fs key"
  with h have "h = r @ ''.tmp''" by simp
  then have "CHR ''p'' \<in> set h" by simp
  with h(3) show False by (auto simp: hex_digits_def)
qed

lemma os_CreateTemp_Inr:
  assumes "os_CreateTemp fault randoms dir prefix suffix d = (Inr p, d1)"
  shows "d p = None \<and> d1 = d(p \<mapsto> \<lparr>fContent = [], fMode = 384\<rparr>) \<and> (\<exists>r. p = Path dir (prefix @ r @ suffix))"
  using assms by (auto simp: os_CreateTemp_def find_Some_iff split: option.splits)

lemma temp_file:
  assumes "os_CreateTemp fault randoms dir keyPrefix ''.tmp'' d = (Inr p, d1)"
  shows "d p = None" and "d1 = d(p \<mapsto> \<lparr>fContent = [], fMode = 384\<rparr>)" and "p \<noteq> filePath fs key"
  using os_CreateTemp_Inr [OF assms] temp_not_key [of dir _ fs key] by auto

lemma os_CreateTemp_Inl: "os_CreateTemp fault randoms dir prefix suffix d = (Inl e, d1) \<Longrightarrow> d1 = d"
  by (auto simp: os_CreateTemp_def split: option.splits)

text \<open>
  The states of one \<open>Set\<close> seen from the files of keys: while it runs only the temporary file
  changes, and the rename gives the key its value in one step.
\<close>

lemma growing_other: "d' \<in> set (growing tmp value n d) \<Longrightarrow> p \<noteq> tmp \<Longrightarrow> d' p = d p"
  by (auto simp: growing_def)

lemma growing_last [simp]:
  "growing tmp value n d \<noteq> []"
  "last (growing tmp value n d) = d(tmp \<mapsto> \<lparr>fContent = take n value, fMode = 384\<rparr>)"
  by (simp_all add: growing_def)

lemma set_body_states:
  assumes "set_body f tmp path value d = (err, ds)" and "tmp \<noteq> path"
  shows "ds \<noteq> [] \<and>
    (\<forall>d' \<in> set ds. \<forall>p. p \<noteq> tmp \<longrightarrow> d' p = d p \<or> (err = None \<and> p = path \<and> d' p = Some \<lparr>fContent = value, fMode = 420\<rparr>)) \<and>
    (if err = None then last ds = d(path \<mapsto> \<lparr>fContent = value, fMode = 420\<rparr>, tmp := None)
     else \<exists>file. last ds = d(tmp \<mapsto> file))"
  using assms unfolding set_body_def Let_def
  by - (auto simp: fun_upd_twist [of path tmp] split: option.splits prod.splits if_splits;
      fastforce dest: growing_other)

text \<open>What \<open>Set\<close> does in all, whatever fails, with the state of the directory after it.\<close>

lemma FileStore_Set_last:
  assumes "FileStore_Set_states f fs key value d = (err, ds)" and "sfStat f = None" and "sfRemove f = None"
  shows "last ds = (if err = None then d(filePath fs key \<mapsto> \<lparr>fContent = value, fMode = 420\<rparr>) else d)"
proof (cases "os_CreateTemp (sfCreate f) (sfRandoms f) (fsDir fs) keyPrefix ''.tmp'' d")
  case (Pair r d1)
  show ?thesis
  proof (cases r)
    case (Inl e)
    with assms(1) Pair os_CreateTemp_Inl [of "sfCreate f" "sfRandoms f" "fsDir fs" keyPrefix "''.tmp''" d e d1]
    show ?thesis by (auto simp: FileStore_Set_states_def)
  next
    case (Inr tmp)
    with Pair have tmp: "d tmp = None" "d1 = d(tmp \<mapsto> \<lparr>fContent = [], fMode = 384\<rparr>)" "tmp \<noteq> filePath fs key"
      using temp_file by blast+
    obtain bs where body: "set_body f tmp (filePath fs key) value d1 = (err, bs)" "ds = d # d1 # bs @ [set_cleanup f tmp (last bs)]"
      using assms(1) Pair Inr by (auto simp: FileStore_Set_states_def Let_def split: prod.splits)
    show ?thesis
      using set_body_states [OF body(1) tmp(3)] assms(2,3) tmp body(2)
      by (auto simp: set_cleanup_def os_Stat_def os_Remove_def fun_eq_iff split: if_splits)
  qed
qed

text \<open>The file store keeps the laws, with any faults: it tells keys apart by the digest of their name.\<close>

definition file_get :: "FileStore \<Rightarrow> string \<Rightarrow> disk \<Rightarrow> string option" where
  "file_get fs k d = map_option fContent (d (filePath fs k))"

lemma FileStore_Set_file:
  assumes "FileStore_Set f fs key value d = (err, d')"
  shows "d' (filePath fs k) =
    (if err = None \<and> filePath fs key = filePath fs k then Some \<lparr>fContent = value, fMode = 420\<rparr> else d (filePath fs k))"
proof (cases "os_CreateTemp (sfCreate f) (sfRandoms f) (fsDir fs) keyPrefix ''.tmp'' d")
  case (Pair r d1)
  show ?thesis
  proof (cases r)
    case (Inl e)
    with assms Pair os_CreateTemp_Inl [of "sfCreate f" "sfRandoms f" "fsDir fs" keyPrefix "''.tmp''" d e d1]
    show ?thesis by (auto simp: FileStore_Set_def FileStore_Set_states_def)
  next
    case (Inr tmp)
    with Pair have tmp: "d tmp = None" "d1 = d(tmp \<mapsto> \<lparr>fContent = [], fMode = 384\<rparr>)" "\<And>k. tmp \<noteq> filePath fs k"
      using temp_file by blast+
    obtain bs where body: "set_body f tmp (filePath fs key) value d1 = (err, bs)" "d' = set_cleanup f tmp (last bs)"
      using assms Pair Inr by (auto simp: FileStore_Set_def FileStore_Set_states_def Let_def split: prod.splits)
    have "d' (filePath fs k) = last bs (filePath fs k)"
      using tmp(3) [of k] body(2) by (simp add: set_cleanup_def os_Remove_def split: option.split)
    then show ?thesis
      using set_body_states [OF body(1) tmp(3)] tmp(2) tmp(3) [of k] by (auto split: if_splits)
  qed
qed

lemma FileStore_Delete_file:
  assumes "FileStore_Delete st rm fs key d = (err, d')"
  shows "d' (filePath fs k) = (if err = None \<and> filePath fs key = filePath fs k then None else d (filePath fs k))"
  using assms
  by (auto simp: FileStore_Delete_def os_Stat_def os_Remove_def Let_def split: option.splits if_splits)

interpretation file_store: kv_store "\<lambda>k k'. filePath fs k = filePath fs k'" "file_get fs"
  "\<lambda>(f, _). FileStore_Set f fs" "\<lambda>(_, st, rm). FileStore_Delete st rm fs" for fs
  by unfold_locales
    (auto simp: file_get_def FileStore_Set_file FileStore_Delete_file split: prod.splits)

text \<open>The file of a key in any state of a \<open>Set\<close>: what it held, or the whole new value.\<close>

lemma FileStore_Set_states_file:
  assumes "FileStore_Set_states f fs key value d = (err, ds)" and "d' \<in> set ds"
  shows "d' (filePath fs k) = d (filePath fs k) \<or>
    err = None \<and> filePath fs k = filePath fs key \<and> d' (filePath fs k) = Some \<lparr>fContent = value, fMode = 420\<rparr>"
proof (cases "os_CreateTemp (sfCreate f) (sfRandoms f) (fsDir fs) keyPrefix ''.tmp'' d")
  case (Pair r d1)
  show ?thesis
  proof (cases r)
    case (Inl e)
    with assms Pair os_CreateTemp_Inl [of "sfCreate f" "sfRandoms f" "fsDir fs" keyPrefix "''.tmp''" d e d1]
    show ?thesis by (auto simp: FileStore_Set_states_def)
  next
    case (Inr tmp)
    with Pair have tmp: "d tmp = None" "d1 = d(tmp \<mapsto> \<lparr>fContent = [], fMode = 384\<rparr>)" "\<And>k. tmp \<noteq> filePath fs k"
      using temp_file by blast+
    obtain bs where body: "set_body f tmp (filePath fs key) value d1 = (err, bs)" "ds = d # d1 # bs @ [set_cleanup f tmp (last bs)]"
      using assms(1) Pair Inr by (auto simp: FileStore_Set_states_def Let_def split: prod.splits)
    note states = set_body_states [OF body(1) tmp(3)]
    have kept: "set_cleanup f tmp x (filePath fs k) = x (filePath fs k)" for x
      using tmp(3) [of k] by (simp add: set_cleanup_def os_Remove_def split: option.split)
    have "d1 (filePath fs k) = d (filePath fs k)" using tmp(2) tmp(3) [of k] by simp
    moreover have "x (filePath fs k) = d1 (filePath fs k) \<or>
        err = None \<and> filePath fs k = filePath fs key \<and> x (filePath fs k) = Some \<lparr>fContent = value, fMode = 420\<rparr>"
      if "x \<in> set bs" for x
      using bspec [OF states [THEN conjunct2, THEN conjunct1] that, THEN spec, of "filePath fs k"] tmp(3) [of k]
      by auto
    moreover have "last bs \<in> set bs" using states by simp
    ultimately show ?thesis using assms(2) body(2) kept by fastforce
  qed
qed

section \<open>Properties\<close>

text \<open>
  C11. Writing a position is atomic. Whatever fails in a \<open>Set\<close>, and at whatever point a crash cuts
  it short, the file of every other key is untouched, and the file of the key holds either what it
  held before or the whole new value, the latter only when \<open>Set\<close> goes on to succeed. When the
  cleanup can run, a \<open>Set\<close> that failed leaves the directory as it found it.
\<close>

theorem set_is_atomic:
  assumes "FileStore_Set_states f fs key value d = (err, ds)" and "d' \<in> set ds"
  shows "(filePath fs k \<noteq> filePath fs key \<longrightarrow> d' (filePath fs k) = d (filePath fs k)) \<and>
    (d' (filePath fs key) = d (filePath fs key) \<or>
     err = None \<and> d' (filePath fs key) = Some \<lparr>fContent = value, fMode = 420\<rparr>) \<and>
    (sfStat f = None \<and> sfRemove f = None \<and> err \<noteq> None \<longrightarrow> last ds = d)"
  using FileStore_Set_states_file [OF assms, of k] FileStore_Set_states_file [OF assms, of key]
    FileStore_Set_last [OF assms(1)]
  by auto

text \<open>The witness: a full disk, then a rename that fails, then a \<open>Set\<close> that succeeds.\<close>

definition no_faults :: set_faults where
  "no_faults =
     \<lparr>sfCreate = None, sfRandoms = [''1'', ''2''], sfWrite = None, sfClose = None, sfChmod = None, sfRename = None,
      sfStat = None, sfRemove = None\<rparr>"

definition disk_full :: set_faults where
  "disk_full = no_faults\<lparr>sfWrite := Some (1, ''no space left on device'')\<rparr>"

lemmas file_store_run [go_run] =
  FileStore_Set_def FileStore_Set_states_def os_CreateTemp_def keyPrefix_def set_body_def no_faults_def disk_full_def Let_def

theorem set_is_atomic_witness:
  "\<exists>d'. d' \<in> set (snd (FileStore_Set_states disk_full \<lparr>fsDir = ''d''\<rparr> ''k'' ''new'' Map.empty)) \<and>
     d' (Path ''d'' ''cdc-trigger-1.tmp'') = Some \<lparr>fContent = ''n'', fMode = 384\<rparr> \<and>
     d' (filePath \<lparr>fsDir = ''d''\<rparr> ''k'') = None \<and>
     last (snd (FileStore_Set_states disk_full \<lparr>fsDir = ''d''\<rparr> ''k'' ''new'' Map.empty)) = Map.empty"
proof -
  let ?fs = "\<lparr>fsDir = ''d''\<rparr>"
  let ?tmp = "Path ''d'' ''cdc-trigger-1.tmp''"
  let ?d = "[?tmp \<mapsto> \<lparr>fContent = ''n'', fMode = 384\<rparr>]"
  obtain err ds where run: "FileStore_Set_states disk_full ?fs ''k'' ''new'' Map.empty = (err, ds)" by fastforce
  then have "?d \<in> set ds" "err \<noteq> None"
    by (auto simp: go_run growing_def)
  with set_is_atomic [OF run this(1), of "''k''"] run show ?thesis
    by (auto simp: disk_full_def no_faults_def)
qed

text \<open>
  C17. The file store is a map. After any sequence of writes and deletions, each with whatever
  faults, a key reads what the last one that reported success left, and what it held before when
  there is none. A missing key is an error for \<open>Get\<close>, false for \<open>Has\<close> and, contrary to the
  interface's comment, no error for \<open>Delete\<close>.
\<close>

theorem file_store_is_a_map:
  assumes "file_store.perform fs ops d = (rs, d')"
  shows "file_get fs k d' =
      fold (\<lambda>(k', v, e) r. if e = None \<and> filePath fs k' = filePath fs k then v else r) rs (file_get fs k d) \<and>
    (case file_get fs k d' of
       Some v \<Rightarrow> FileStore_Get None fs k d' = Inr v \<and> FileStore_Has None fs k d'
     | None \<Rightarrow> FileStore_Get None fs k d' = Inl OsNotExist \<and> \<not> FileStore_Has None fs k d' \<and>
         FileStore_Delete None rm fs k d' = (None, d'))"
  by (intro conjI file_store.perform_reads [OF assms])
    (simp add: file_get_def FileStore_Get_def FileStore_Has_def FileStore_Delete_def os_ReadFile_def os_Stat_def
      split: option.split)

theorem file_store_is_a_map_witness:
  "\<exists>rs d'. file_store.perform \<lparr>fsDir = ''d''\<rparr>
      [(''k'', Some ''v'', no_faults, None, None), (''k'', Some ''w'', disk_full, None, None)] Map.empty = (rs, d') \<and>
    file_get \<lparr>fsDir = ''d''\<rparr> ''k'' d' = Some ''v''"
proof -
  let ?fs = "\<lparr>fsDir = ''d''\<rparr>"
  let ?ops = "[(''k'', Some ''v'', no_faults, None, None), (''k'', Some ''w'', disk_full, None, None)]
    :: (string \<times> string option \<times> set_faults \<times> fault \<times> fault) list"
  obtain rs d' where run: "file_store.perform ?fs ?ops Map.empty = (rs, d')" by fastforce
  have ok: "fst (FileStore_Set no_faults ?fs ''k'' v d) = None"
    if "d (Path ''d'' ''cdc-trigger-1.tmp'') = None" for v d
    using that by (simp add: go_run)
  have full: "fst (FileStore_Set disk_full ?fs ''k'' v d) \<noteq> None" for v d
    by (simp add: go_run split: prod.split sum.split option.split)
  have "rs = [(''k'', Some ''v'', fst (FileStore_Set no_faults ?fs ''k'' ''v'' Map.empty)),
      (''k'', Some ''w'', fst (FileStore_Set disk_full ?fs ''k'' ''w'' (snd (FileStore_Set no_faults ?fs ''k'' ''v'' Map.empty))))]"
    using run by (simp add: split_beta)
  then have "file_get ?fs ''k'' d' = Some ''v''"
    using file_store_is_a_map [OF run, of "''k''" None] ok [of Map.empty "''v''"] full by simp
  with run show ?thesis by blast
qed

section \<open>The Redis store\<close>

text \<open>
  The part of the Redis client used here. \<open>RedisSet\<close> is given its timeout in seconds; a read of a
  missing key is \<^const>\<open>RedisNil\<close>.
\<close>

record 'w redis_store_client =
  RedisPing :: "'w \<Rightarrow> go_error option \<times> 'w"
  RedisExists :: "string \<Rightarrow> 'w \<Rightarrow> (go_error + int) \<times> 'w"
  RedisSet :: "int \<Rightarrow> string \<Rightarrow> string \<Rightarrow> 'w \<Rightarrow> go_error option \<times> 'w"
  RedisGet :: "string \<Rightarrow> 'w \<Rightarrow> (go_error + string) \<times> 'w"
  RedisDel :: "string \<Rightarrow> 'w \<Rightarrow> go_error option \<times> 'w"
  RedisClose :: "'w \<Rightarrow> go_error option \<times> 'w"

record 'w RedisStore =
  rsClient :: "'w redis_store_client option"

definition NewRedisStore :: "(StoreRedisConfig \<Rightarrow> 'w redis_store_client) \<Rightarrow> StoreRedisConfig \<Rightarrow> 'w \<Rightarrow>
    (go_error + 'w RedisStore) \<times> 'w" where
  "NewRedisStore NewClient cfg w =
     (let client = NewClient cfg in
      case RedisPing client w of
        (Some err, w1) \<Rightarrow> (Inl (Wrap ''failed to connect Redis: %w'' [] err), w1)
      | (None, w1) \<Rightarrow> (Inr \<lparr>rsClient = Some client\<rparr>, w1))"

definition RedisStore_Has :: "'w redis_store_client \<Rightarrow> string \<Rightarrow> 'w \<Rightarrow> bool \<times> 'w" where
  "RedisStore_Has c key w =
     (case RedisExists c key w of (Inl err, w1) \<Rightarrow> (False, w1) | (Inr exists, w1) \<Rightarrow> (exists > 0, w1))"

definition RedisStore_Set :: "'w redis_store_client \<Rightarrow> string \<Rightarrow> string \<Rightarrow> 'w \<Rightarrow> go_error option \<times> 'w" where
  "RedisStore_Set c key value w = RedisSet c 5 key value w"

definition RedisStore_Get :: "'w redis_store_client \<Rightarrow> string \<Rightarrow> 'w \<Rightarrow> (go_error + string) \<times> 'w" where
  "RedisStore_Get c key w =
     (case RedisGet c key w of
        (Inl err, w1) \<Rightarrow>
          (Inl (if errors_Is err RedisNil then ErrNew ''key %s does not exist'' [FStr key] else err), w1)
      | (Inr val, w1) \<Rightarrow> (Inr val, w1))"

definition RedisStore_Delete :: "'w redis_store_client \<Rightarrow> string \<Rightarrow> 'w \<Rightarrow> go_error option \<times> 'w" where
  "RedisStore_Delete c key w = RedisDel c key w"

definition RedisStore_Close :: "'w RedisStore \<Rightarrow> 'w \<Rightarrow> go_error option \<times> 'w" where
  "RedisStore_Close r w = (case rsClient r of Some c \<Rightarrow> RedisClose c w | None \<Rightarrow> (None, w))"

end
