(* ===== verification/Go_Chan.thy ===== *)
theory Go_Chan
  imports Prelude
begin

text \<open>
  Buffered channels. An operation that would block has no answer; sending on a closed channel and
  closing one twice panic.
\<close>

record 'a chan =
  chBuf :: "'a list"
  chCap :: nat
  chClosed :: bool

definition make_chan :: "nat \<Rightarrow> 'a chan" where
  "make_chan n = \<lparr>chBuf = [], chCap = n, chClosed = False\<rparr>"

definition chan_send :: "'a \<Rightarrow> 'a chan \<Rightarrow> 'a chan outcome option" where
  "chan_send x ch =
     (if chClosed ch then Some (Panics ''send on closed channel'')
      else if length (chBuf ch) < chCap ch then Some (Returns (ch\<lparr>chBuf := chBuf ch @ [x]\<rparr>))
      else None)"

text \<open>A receive answers the oldest element, or \<open>None\<close> when the channel is closed and empty.\<close>

definition chan_recv :: "'a chan \<Rightarrow> ('a option \<times> 'a chan) option" where
  "chan_recv ch =
     (case chBuf ch of
        x # xs \<Rightarrow> Some (Some x, ch\<lparr>chBuf := xs\<rparr>)
      | [] \<Rightarrow> if chClosed ch then Some (None, ch) else None)"

definition chan_close :: "'a chan \<Rightarrow> 'a chan outcome" where
  "chan_close ch =
     (if chClosed ch then Panics ''close of closed channel'' else Returns (ch\<lparr>chClosed := True\<rparr>))"

lemma chan_send_Returns [simp]:
  "chan_send x ch = Some (Returns ch') \<longleftrightarrow>
     \<not> chClosed ch \<and> length (chBuf ch) < chCap ch \<and> ch' = ch\<lparr>chBuf := chBuf ch @ [x]\<rparr>"
  by (auto simp: chan_send_def)

lemma chan_send_Panics [simp]:
  "chan_send x ch = Some (Panics m) \<longleftrightarrow> chClosed ch \<and> m = ''send on closed channel''"
  by (auto simp: chan_send_def)

lemma chan_send_blocks [simp]:
  "chan_send x ch = None \<longleftrightarrow> \<not> chClosed ch \<and> chCap ch \<le> length (chBuf ch)"
  by (auto simp: chan_send_def)

lemma chan_recv_Some [simp]:
  "chan_recv ch = Some (Some x, ch') \<longleftrightarrow> (\<exists>xs. chBuf ch = x # xs \<and> ch' = ch\<lparr>chBuf := xs\<rparr>)"
  by (auto simp: chan_recv_def split: list.splits)

lemma chan_recv_end [simp]:
  "chan_recv ch = Some (None, ch') \<longleftrightarrow> chBuf ch = [] \<and> chClosed ch \<and> ch' = ch"
  by (auto simp: chan_recv_def split: list.splits)

lemma chan_recv_blocks [simp]: "chan_recv ch = None \<longleftrightarrow> chBuf ch = [] \<and> \<not> chClosed ch"
  by (auto simp: chan_recv_def split: list.splits)

lemma chan_close_Returns [simp]:
  "chan_close ch = Returns ch' \<longleftrightarrow> \<not> chClosed ch \<and> ch' = ch\<lparr>chClosed := True\<rparr>"
  by (auto simp: chan_close_def)

lemma chan_close_Panics [simp]: "chan_close ch = Panics m \<longleftrightarrow> chClosed ch \<and> m = ''close of closed channel''"
  by (auto simp: chan_close_def)

end
