(* ===== verification/Source.thy ===== *)
theory Source
  imports Source_Rows Position Store Go_Chan
begin

text \<open>
  \<open>source/source.go\<close> and the rest of \<open>source/mysql.go\<close>: the configuration and the constructors, the
  life of a source (\<open>Run\<close>, \<open>stop\<close>, \<open>Close\<close>), and the position it saves and resumes from. The
  binlog library is a parameter: the functions of a canal that the code calls.
\<close>

section \<open>Configuration and construction\<close>

record MysqlConfig =
  mcAddr :: string
  mcUser :: string
  mcPassword :: string
  mcExcludeTableRegex :: "string list"
  mcIncludeTableRegex :: "string list"

record SourceConfig =
  soType :: string
  soMysql :: MysqlConfig

text \<open>\<open>mysql.Position\<close>, and the settings of a canal that the code chooses.\<close>

record mysql_Position =
  posName :: string
  posPos :: "32 word"

record canal_config =
  cnAddr :: string
  cnUser :: string
  cnPassword :: string
  cnDumpPath :: string
  cnExclude :: "string list"
  cnInclude :: "string list"

record 'w canal =
  GetMasterPos :: "'w \<Rightarrow> (go_error + mysql_Position) \<times> 'w"
  CloseCanal :: "'w \<Rightarrow> 'w"

record 'w canal_lib =
  NewDefaultConfig :: canal_config
  NewCanal :: "canal_config \<Rightarrow> 'w \<Rightarrow> (go_error + 'w canal) \<times> 'w"
  LookPath :: "string \<Rightarrow> 'w \<Rightarrow> go_error option"

record 'w MySQLSource =
  msStore :: "'w IStore option"
  msCanal :: "'w canal option"
  msCfg :: MysqlConfig
  msChan :: "EventData chan"
  msRunning :: bool
  msChanClosed :: bool
  msRunCtx :: "'w ctx"

definition DefaultMysqlExcludeTableRegex :: "string list" where
  "DefaultMysqlExcludeTableRegex = [''mysql.*'', ''information_schema.*'', ''performance_schema.*'', ''sys.*'']"

definition StoreKeyPosition :: string where
  "StoreKeyPosition = ''_cdc_trigger_position''"

definition commandExists :: "'w canal_lib \<Rightarrow> string \<Rightarrow> 'w \<Rightarrow> bool" where
  "commandExists lib cmd w \<longleftrightarrow> LookPath lib cmd w = None"

definition canal_settings :: "'w canal_lib \<Rightarrow> MysqlConfig \<Rightarrow> 'w \<Rightarrow> canal_config" where
  "canal_settings lib cfg w =
     (let cc = (NewDefaultConfig lib)\<lparr>cnAddr := mcAddr cfg, cnUser := mcUser cfg, cnPassword := mcPassword cfg\<rparr>;
          cc = (if \<not> commandExists lib ''mysqldump'' w then cc\<lparr>cnDumpPath := ''''\<rparr> else cc);
          cc = cc\<lparr>cnExclude := mcExcludeTableRegex cfg\<rparr>
      in if mcIncludeTableRegex cfg \<noteq> [] then cc\<lparr>cnInclude := mcIncludeTableRegex cfg\<rparr> else cc)"

definition NewMySQLSource :: "'w canal_lib \<Rightarrow> MysqlConfig \<Rightarrow> 'w \<Rightarrow> (go_error + 'w MySQLSource) \<times> 'w" where
  "NewMySQLSource lib cfg w =
     (let cfg = (if mcExcludeTableRegex cfg = [] then cfg\<lparr>mcExcludeTableRegex := DefaultMysqlExcludeTableRegex\<rparr> else cfg)
      in case NewCanal lib (canal_settings lib cfg w) w of
           (Inl err, w1) \<Rightarrow> (Inl err, w1)
         | (Inr c, w1) \<Rightarrow>
             (Inr \<lparr>msStore = None, msCanal = Some c, msCfg = cfg, msChan = make_chan 10240, msRunning = False,
                msChanClosed = False, msRunCtx = (\<lambda>_. None)\<rparr>, w1))"

definition NewSource :: "'w canal_lib \<Rightarrow> SourceConfig \<Rightarrow> 'w \<Rightarrow> (go_error + 'w MySQLSource) \<times> 'w" where
  "NewSource lib cfg w =
     (if soType cfg = ''mysql'' then NewMySQLSource lib (soMysql cfg) w
      else (Inl (ErrNew ''unsupported source type: %s'' [FStr (soType cfg)]), w))"

definition WithStore :: "'w MySQLSource \<Rightarrow> 'w IStore \<Rightarrow> 'w MySQLSource" where
  "WithStore s st = s\<lparr>msStore := Some st\<rparr>"

section \<open>The position\<close>

definition loadPosition :: "'w IStore \<Rightarrow> 'w canal option \<Rightarrow> 'w \<Rightarrow> mysql_Position \<times> 'w" where
  "loadPosition st c w =
     (case GetKey st StoreKeyPosition w of
        (r, w1) \<Rightarrow>
          (let saved =
             (case r of
                Inr bytes \<Rightarrow>
                  if bytes = [] then None
                  else (case unmarshal_position bytes of
                          Inl err \<Rightarrow> None
                        | Inr p \<Rightarrow>
                            if mpFile p \<noteq> [] \<and> mpPos p \<noteq> 0
                            then Some \<lparr>posName = mpFile p, posPos = mpPos p\<rparr> else None)
              | Inl err \<Rightarrow> None)
           in case saved of
                Some pos \<Rightarrow> (pos, w1)
              | None \<Rightarrow>
                  (case c of
                     None \<Rightarrow> (\<lparr>posName = '''', posPos = 0\<rparr>, w1)
                   | Some c \<Rightarrow>
                       (case GetMasterPos c w1 of
                          (Inr pos, w2) \<Rightarrow> (pos, w2)
                        | (Inl err, w2) \<Rightarrow> (\<lparr>posName = '''', posPos = 0\<rparr>, w2)))))"

definition savePosition :: "'w IStore \<Rightarrow> mysql_Position \<Rightarrow> 'w \<Rightarrow> go_error option \<times> 'w" where
  "savePosition st pos w =
     SetKey st StoreKeyPosition (marshal_position \<lparr>mpFile = posName pos, mpPos = posPos pos\<rparr>) w"

definition OnPosSynced :: "'w IStore \<Rightarrow> mysql_Position \<Rightarrow> 'w \<Rightarrow> go_error option \<times> 'w" where
  "OnPosSynced st pos w = savePosition st pos w"

section \<open>Running, stopping, closing\<close>

text \<open>The checks of \<open>Run\<close>, the second of them and the marking in one critical section.\<close>

definition Source_enter :: "'w ctx \<Rightarrow> 'w MySQLSource \<Rightarrow> go_error + 'w IStore \<times> 'w MySQLSource" where
  "Source_enter ctx s =
     (case msStore s of
        None \<Rightarrow> Inl (ErrNew ''store is not initialized, cannot run MySQLSource'' [])
      | Some st \<Rightarrow>
          if msRunning s then Inl (ErrNew ''it is already running'' [])
          else Inr (st, s\<lparr>msRunning := True, msRunCtx := ctx\<rparr>))"

text \<open>\<open>stop\<close>, one critical section: the canal first, then the event channel.\<close>

definition source_stop :: "'w MySQLSource \<Rightarrow> 'w \<Rightarrow> ('w MySQLSource \<times> 'w) outcome" where
  "source_stop s w =
     (if \<not> msRunning s then Returns (s, w)
      else
        (let s = s\<lparr>msRunning := False\<rparr>;
             w = (case msCanal s of Some c \<Rightarrow> CloseCanal c w | None \<Rightarrow> w)
         in if \<not> msChanClosed s then
              (case chan_close (msChan s) of
                 Panics m \<Rightarrow> Panics m
               | Returns ch \<Rightarrow> Returns (s\<lparr>msChan := ch, msChanClosed := True\<rparr>, w))
            else Returns (s, w)))"

definition Source_Close :: "'w MySQLSource \<Rightarrow> 'w \<Rightarrow> (go_error option \<times> 'w MySQLSource \<times> 'w) outcome" where
  "Source_Close s w =
     (case source_stop s w of Panics m \<Rightarrow> Panics m | Returns (s', w') \<Rightarrow> Returns (None, s', w'))"

text \<open>What the \<open>select\<close> of \<open>Run\<close> saw, and what \<open>Run\<close> then reports.\<close>

datatype run_end = CtxDone go_error | CanalDone "go_error option"

definition run_report :: "run_end \<Rightarrow> go_error option" where
  "run_report r =
     (case r of CtxDone e \<Rightarrow> Some e | CanalDone err \<Rightarrow> map_option (Wrap ''canal operation error: %w'' []) err)"

text \<open>\<open>Run\<close> as a whole: \<open>runFrom\<close> is everything that happens until the \<open>select\<close> is over.\<close>

definition MySQLSource_Run :: "(mysql_Position \<Rightarrow> 'w MySQLSource \<Rightarrow> 'w \<Rightarrow> run_end \<times> 'w MySQLSource \<times> 'w) \<Rightarrow>
    'w ctx \<Rightarrow> 'w MySQLSource \<Rightarrow> 'w \<Rightarrow> (go_error option \<times> 'w MySQLSource \<times> 'w) outcome" where
  "MySQLSource_Run runFrom ctx s w =
     (case Source_enter ctx s of
        Inl err \<Rightarrow> Returns (Some err, s, w)
      | Inr (st, s1) \<Rightarrow>
          (case loadPosition st (msCanal s1) w of
             (startPos, w1) \<Rightarrow>
               (case runFrom startPos s1 w1 of
                  (reason, s2, w2) \<Rightarrow>
                    (case source_stop s2 w2 of
                       Panics m \<Rightarrow> Panics m
                     | Returns (s3, w3) \<Rightarrow> Returns (run_report reason, s3, w3)))))"

text \<open>
  The \<open>select\<close> at the end of a round of \<open>OnRow\<close>: the cases that can be taken, the event is sent, or
  the context is over; when both are ready either one is.
\<close>

datatype offer = Sent "EventData chan" | Aborted go_error | SendPanics string

definition offers :: "'w MySQLSource \<Rightarrow> 'w \<Rightarrow> EventData \<Rightarrow> offer set" where
  "offers s w ev =
     (case chan_send ev (msChan s) of
        None \<Rightarrow> {} | Some (Returns ch) \<Rightarrow> {Sent ch} | Some (Panics m) \<Rightarrow> {SendPanics m}) \<union>
     (case msRunCtx s w of Some e \<Rightarrow> {Aborted e} | None \<Rightarrow> {})"

lemma offers_iff:
  "Sent ch \<in> offers s w ev \<longleftrightarrow> chan_send ev (msChan s) = Some (Returns ch)"
  "SendPanics m \<in> offers s w ev \<longleftrightarrow> chan_send ev (msChan s) = Some (Panics m)"
  "Aborted e \<in> offers s w ev \<longleftrightarrow> msRunCtx s w = Some e"
  by (auto simp: offers_def split: option.splits outcome.splits)

end
