(* ===== verification/Source_Life.thy ===== *)
theory Source_Life
  imports Source
begin

text \<open>
  The life of a MySQL source under any interleaving of its callers, and the position it resumes
  from when it is kept in the file store.
\<close>

section \<open>The life of a source\<close>

text \<open>
  Any number of callers of \<open>Run\<close>, callers of \<open>Close\<close>, the canal that delivers rows, the consumer
  that receives them, and anything else that changes the world. A panic of any of them ends the
  process.
\<close>

datatype source_pc = SourceIdle | SourceRunning | SourceReturned "go_error option"

record 'w life =
  lfSource :: "'w MySQLSource"
  lfWorld :: 'w
  lfRuns :: "nat \<Rightarrow> source_pc"
  lfCrash :: "string option"

inductive life_step :: "'w life \<Rightarrow> 'w life \<Rightarrow> bool" where
  life_refused: "lfCrash l = None \<Longrightarrow> lfRuns l i = SourceIdle \<Longrightarrow> Source_enter ctx (lfSource l) = Inl err \<Longrightarrow>
    life_step l (l\<lparr>lfRuns := (lfRuns l)(i := SourceReturned (Some err))\<rparr>)"
| life_begin: "lfCrash l = None \<Longrightarrow> lfRuns l i = SourceIdle \<Longrightarrow> Source_enter ctx (lfSource l) = Inr (st, s') \<Longrightarrow>
    loadPosition st (msCanal s') (lfWorld l) = (pos, w') \<Longrightarrow>
    life_step l (l\<lparr>lfSource := s', lfWorld := w', lfRuns := (lfRuns l)(i := SourceRunning)\<rparr>)"
| life_over: "lfCrash l = None \<Longrightarrow> lfRuns l i = SourceRunning \<Longrightarrow>
    source_stop (lfSource l) (lfWorld l) = Returns (s', w') \<Longrightarrow>
    life_step l (l\<lparr>lfSource := s', lfWorld := w', lfRuns := (lfRuns l)(i := SourceReturned (run_report reason))\<rparr>)"
| life_close: "lfCrash l = None \<Longrightarrow> Source_Close (lfSource l) (lfWorld l) = Returns (err, s', w') \<Longrightarrow>
    life_step l (l\<lparr>lfSource := s', lfWorld := w'\<rparr>)"
| life_stop_panics: "lfCrash l = None \<Longrightarrow> source_stop (lfSource l) (lfWorld l) = Panics m \<Longrightarrow>
    life_step l (l\<lparr>lfCrash := Some m\<rparr>)"
| life_row: "lfCrash l = None \<Longrightarrow> Sent ch \<in> offers (lfSource l) (lfWorld l) ev \<Longrightarrow>
    life_step l (l\<lparr>lfSource := (lfSource l)\<lparr>msChan := ch\<rparr>\<rparr>)"
| life_row_panics: "lfCrash l = None \<Longrightarrow> SendPanics m \<in> offers (lfSource l) (lfWorld l) ev \<Longrightarrow>
    life_step l (l\<lparr>lfCrash := Some m\<rparr>)"
| life_receive: "lfCrash l = None \<Longrightarrow> chan_recv (msChan (lfSource l)) = Some (x, ch) \<Longrightarrow>
    life_step l (l\<lparr>lfSource := (lfSource l)\<lparr>msChan := ch\<rparr>\<rparr>)"
| life_world: "life_step l (l\<lparr>lfWorld := w'\<rparr>)"

definition life_start :: "'w MySQLSource \<Rightarrow> 'w \<Rightarrow> 'w life" where
  "life_start s w = \<lparr>lfSource = s, lfWorld = w, lfRuns = (\<lambda>_. SourceIdle), lfCrash = None\<rparr>"

text \<open>The flag that is kept beside the channel says whether the channel is closed.\<close>

definition source_ok :: "'w MySQLSource \<Rightarrow> bool" where
  "source_ok s \<longleftrightarrow> msChanClosed s = chClosed (msChan s)"

lemma NewMySQLSource_ok: "NewMySQLSource lib cfg w = (Inr s, w') \<Longrightarrow> source_ok s"
  by (auto simp: NewMySQLSource_def source_ok_def make_chan_def Let_def split: prod.splits sum.splits)

lemma WithStore_ok [simp]: "source_ok (WithStore s st) = source_ok s"
  by (simp add: source_ok_def WithStore_def)

lemma source_stop_Returns:
  "source_ok s \<Longrightarrow> \<exists>s' w'. source_stop s w = Returns (s', w') \<and> source_ok s' \<and> \<not> msRunning s' \<and>
     msStore s' = msStore s \<and> chBuf (msChan s') = chBuf (msChan s) \<and> (msRunning s \<longrightarrow> chClosed (msChan s')) \<and>
     (chClosed (msChan s) \<longrightarrow> chClosed (msChan s'))"
  by (auto simp: source_stop_def source_ok_def Let_def split: outcome.split)

lemma source_stop_ok:
  "source_stop s w = Returns (s', w') \<Longrightarrow> source_ok s \<Longrightarrow> source_ok s' \<and> msStore s' = msStore s"
  using source_stop_Returns [of s w] by auto

lemma Source_enter_ok:
  "Source_enter ctx s = Inr (st, s') \<Longrightarrow> source_ok s \<Longrightarrow> source_ok s' \<and> msStore s' = msStore s"
  by (auto simp: Source_enter_def source_ok_def split: option.splits if_splits)

definition life_inv :: "'w IStore \<Rightarrow> 'w life \<Rightarrow> bool" where
  "life_inv st l \<longleftrightarrow> source_ok (lfSource l) \<and> msStore (lfSource l) = Some st \<and>
     (lfCrash l = None \<or> lfCrash l = Some ''send on closed channel'')"

lemma life_step_inv: "life_step l l' \<Longrightarrow> life_inv st l \<Longrightarrow> life_inv st l'"
proof (induction rule: life_step.induct)
  case (life_stop_panics l m)
  then show ?case using source_stop_Returns [of "lfSource l" "lfWorld l"] by (auto simp: life_inv_def)
next
  case (life_row l ch ev)
  then show ?case by (auto simp: life_inv_def offers_iff source_ok_def)
next
  case (life_receive l x ch)
  then show ?case by (cases x) (auto simp: life_inv_def source_ok_def)
qed (auto simp: life_inv_def offers_iff Source_Close_def dest: source_stop_ok Source_enter_ok split: outcome.splits)

lemma life_reachable_inv:
  assumes "life_step\<^sup>*\<^sup>* (life_start s w) l" and "source_ok s" and "msStore s = Some st"
  shows "life_inv st l"
proof (rule rtranclp_invariant [where I = "life_inv st", OF assms(1)])
  show "life_inv st (life_start s w)" using assms(2,3) by (simp add: life_inv_def life_start_def)
qed (rule life_step_inv)

section \<open>Saving and resuming\<close>

text \<open>A position that is taken when it is read back.\<close>

definition resumable :: "mysql_Position \<Rightarrow> bool" where
  "resumable pos \<longleftrightarrow> valid_utf8 (posName pos) \<and> posName pos \<noteq> [] \<and> posPos pos \<noteq> 0"

definition encode :: "mysql_Position \<Rightarrow> string" where
  "encode pos = marshal_position \<lparr>mpFile = posName pos, mpPos = posPos pos\<rparr>"

text \<open>A sequence of saves, each with the faults it meets, and what each of them reported.\<close>

fun save_all :: "FileStore \<Rightarrow> (mysql_Position \<times> set_faults) list \<Rightarrow> disk \<Rightarrow>
    (mysql_Position \<times> go_error option) list \<times> disk" where
  "save_all fs [] d = ([], d)"
| "save_all fs ((pos, f) # saves) d =
     (case OnPosSynced (FileStore_IStore f None None fs) pos d of
        (e, d1) \<Rightarrow> (case save_all fs saves d1 of (rs, d2) \<Rightarrow> ((pos, e) # rs, d2)))"

lemma OnPosSynced_file:
  "OnPosSynced (FileStore_IStore f st rm fs) pos d = FileStore_Set f fs StoreKeyPosition (encode pos) d"
  by (simp add: OnPosSynced_def savePosition_def FileStore_IStore_def encode_def)

lemma save_all_file:
  "save_all fs saves d = (rs, d') \<Longrightarrow>
   file_get fs StoreKeyPosition d' =
     fold (\<lambda>(p, e) r. if e = None then Some (encode p) else r) rs (file_get fs StoreKeyPosition d)"
proof (induction fs saves d arbitrary: rs rule: save_all.induct)
  case (2 fs pos f saves d)
  obtain e d1 where s: "FileStore_Set f fs StoreKeyPosition (encode pos) d = (e, d1)" by fastforce
  obtain rs' where rest: "save_all fs saves d1 = (rs', d')" "rs = (pos, e) # rs'"
    using 2(2) s by (auto simp: OnPosSynced_file split: prod.splits)
  have "file_get fs StoreKeyPosition d1 = (if e = None then Some (encode pos) else file_get fs StoreKeyPosition d)"
    using s file_store.get_put [where f = "(f, None, None)"] file_store.get_put_failed [where f = "(f, None, None)"]
    by (cases e) auto
  with 2(1) rest s show ?case by (simp add: OnPosSynced_file)
qed simp

lemma fold_failed:
  "\<forall>(p, e) \<in> set rs. e \<noteq> None \<Longrightarrow> fold (\<lambda>(p, e) r. if e = None then Some (encode p) else r) rs r0 = r0"
  by (induction rs arbitrary: r0) auto

lemma loadPosition_file:
  assumes "file_get fs StoreKeyPosition d = Some (encode pos)" and "resumable pos"
  shows "loadPosition (FileStore_IStore f None rm fs) c d = (pos, d)"
proof -
  have "FileStore_Get None fs StoreKeyPosition d = Inr (encode pos)"
    using assms(1) by (auto simp: file_get_def FileStore_Get_def os_ReadFile_def)
  moreover have "unmarshal_position (encode pos) = Inr \<lparr>mpFile = posName pos, mpPos = posPos pos\<rparr>"
    using assms(2) by (simp add: encode_def position_roundtrip resumable_def)
  moreover have "encode pos \<noteq> []" by (simp add: encode_def marshal_position_def)
  ultimately show ?thesis
    using assms(2) by (simp add: loadPosition_def FileStore_IStore_def resumable_def)
qed

section \<open>Properties\<close>

text \<open>
  C6. The saved position is resumed. After any saves, however many of them failed, a source that
  starts reads the position of the last save that reported success, without asking the master. And
  when a further save is cut short by a crash at any point, the source that starts afterwards reads
  either that position or the new one.
\<close>

theorem saved_position_is_resumed:
  assumes "save_all fs saves d = (rs, d')" and "rs = xs @ (pos, None) # ys" and "\<forall>(p, e) \<in> set ys. e \<noteq> None"
    and "resumable pos" and "resumable pos'"
    and "FileStore_Set_states f fs StoreKeyPosition (encode pos') d' = (err, ds)" and "d'' \<in> set ds"
  shows "loadPosition (FileStore_IStore g None rm fs) c d' = (pos, d') \<and>
    (loadPosition (FileStore_IStore g None rm fs) c d'' = (pos, d'') \<or>
     err = None \<and> loadPosition (FileStore_IStore g None rm fs) c d'' = (pos', d''))"
proof -
  have key: "file_get fs StoreKeyPosition d' = Some (encode pos)"
    using save_all_file [OF assms(1)] assms(2) fold_failed [OF assms(3)] by simp
  have "file_get fs StoreKeyPosition d'' = Some (encode pos) \<or>
      err = None \<and> file_get fs StoreKeyPosition d'' = Some (encode pos')"
    using FileStore_Set_states_file [OF assms(6,7), of StoreKeyPosition] key by (auto simp: file_get_def)
  then show ?thesis
    using loadPosition_file [OF key assms(4)] loadPosition_file [OF _ assms(4)] loadPosition_file [OF _ assms(5)]
    by blast
qed

definition no_space :: set_faults where
  "no_space = no_faults\<lparr>sfCreate := Some ''no space left on device''\<rparr>"

theorem saved_position_is_resumed_witness:
  "\<exists>d'. save_all \<lparr>fsDir = ''d''\<rparr>
        [(\<lparr>posName = ''bin.1'', posPos = 4\<rparr>, no_faults), (\<lparr>posName = ''bin.2'', posPos = 8\<rparr>, no_space)] Map.empty =
      ([(\<lparr>posName = ''bin.1'', posPos = 4\<rparr>, None),
        (\<lparr>posName = ''bin.2'', posPos = 8\<rparr>, Some (LibErr ''no space left on device''))], d') \<and>
    fst (loadPosition (FileStore_IStore no_faults None None \<lparr>fsDir = ''d''\<rparr>) None d') =
      \<lparr>posName = ''bin.1'', posPos = 4\<rparr>"
proof -
  let ?fs = "\<lparr>fsDir = ''d''\<rparr>" and ?p = "\<lparr>posName = ''bin.1'', posPos = 4\<rparr>" and ?q = "\<lparr>posName = ''bin.2'', posPos = 8\<rparr>"
  let ?full = "Some (LibErr ''no space left on device'')"
  obtain d' where saved: "FileStore_Set no_faults ?fs StoreKeyPosition (encode ?p) Map.empty = (None, d')"
    by (auto simp: go_run)
  have failed: "FileStore_Set_states no_space ?fs StoreKeyPosition v d = (?full, [d])" for v d
    by (simp add: go_run no_space_def)
  have run: "save_all ?fs [(?p, no_faults), (?q, no_space)] Map.empty = ([(?p, None), (?q, ?full)], d')"
    using failed [of "encode ?q" d'] by (simp add: OnPosSynced_file saved) (simp add: FileStore_Set_def)
  have res: "resumable ?p" "resumable ?q" by (simp_all add: resumable_def valid_utf8.simps)
  from saved_position_is_resumed [OF run _ _ res failed, of "[]" "[(?q, ?full)]" d' no_faults None None]
  have "loadPosition (FileStore_IStore no_faults None None ?fs) None d' = (?p, d')" by simp
  with run show ?thesis by (intro exI [of _ d']) simp
qed

text \<open>
  C15. The event channel is closed once. However \<open>Run\<close> and \<open>Close\<close> are called, stopping never
  panics, the flag says whether the channel is closed, and the only panic there can be is a row that
  is delivered after the channel was closed: \<open>OnRow\<close> does not look at the flag. A source that was
  stopped still admits another \<open>Run\<close>, whose rows then all find the closed channel.
\<close>

theorem source_channel_closed_once:
  assumes "NewMySQLSource lib cfg w0 = (Inr s0, w)" and "life_step\<^sup>*\<^sup>* (life_start (WithStore s0 st) w) l"
  shows "(\<forall>w m. source_stop (lfSource l) w \<noteq> Panics m) \<and>
    (msChanClosed (lfSource l) \<longleftrightarrow> chClosed (msChan (lfSource l))) \<and>
    (lfCrash l = None \<or> lfCrash l = Some ''send on closed channel'') \<and>
    (chClosed (msChan (lfSource l)) \<and> \<not> msRunning (lfSource l) \<longrightarrow>
     (\<exists>s'. Source_enter ctx (lfSource l) = Inr (st, s') \<and>
        (\<forall>w ev ch. SendPanics ''send on closed channel'' \<in> offers s' w ev \<and> Sent ch \<notin> offers s' w ev)))"
proof -
  have "source_ok (WithStore s0 st)" using NewMySQLSource_ok [OF assms(1)] by simp
  then have inv: "life_inv st l" by (rule life_reachable_inv [OF assms(2)]) (simp add: WithStore_def)
  have "source_stop (lfSource l) w \<noteq> Panics m" for w m
    using inv source_stop_Returns [of "lfSource l" w] by (auto simp: life_inv_def)
  with inv show ?thesis
    by (auto simp: life_inv_def source_ok_def Source_enter_def offers_iff)
qed

theorem source_channel_closed_once_witness:
  "\<exists>lib cfg s0 l st. NewMySQLSource lib cfg () = (Inr s0, ()) \<and>
     chClosed (msChan (lfSource l)) \<and> \<not> msRunning (lfSource l) \<and>
     life_step\<^sup>*\<^sup>* (life_start (WithStore s0 st) ()) l \<and>
     (\<exists>s'. Source_enter (\<lambda>_. None) (lfSource l) = Inr (st, s') \<and>
        SendPanics ''send on closed channel'' \<in> offers s' () zeroEvent)"
proof -
  let ?c = "\<lparr>GetMasterPos = (\<lambda>w. (Inl IoEOF, w)), CloseCanal = (\<lambda>w. w)\<rparr> :: unit canal"
  let ?cc = "\<lparr>cnAddr = '''', cnUser = '''', cnPassword = '''', cnDumpPath = '''', cnExclude = [], cnInclude = []\<rparr>"
  let ?lib = "\<lparr>NewDefaultConfig = ?cc, NewCanal = (\<lambda>_ w. (Inr ?c, w)), LookPath = (\<lambda>_ _. None)\<rparr> :: unit canal_lib"
  let ?cfg = "\<lparr>mcAddr = '''', mcUser = '''', mcPassword = '''', mcExcludeTableRegex = [], mcIncludeTableRegex = []\<rparr>"
  let ?st = "\<lparr>SetKey = (\<lambda>_ _ w. (None, w)), GetKey = (\<lambda>_ w. (Inl RedisNil, w)), HasKey = (\<lambda>_ w. (False, w)),
    DeleteKey = (\<lambda>_ w. (None, w)), CloseStore = (\<lambda>w. (None, w))\<rparr> :: unit IStore"
  obtain s0 where new: "NewMySQLSource ?lib ?cfg () = (Inr s0, ())"
    by (simp add: NewMySQLSource_def)
  then have s0: "\<not> msRunning s0" "\<not> msChanClosed s0" "\<not> chClosed (msChan s0)" "msCanal s0 = Some ?c"
    by (auto simp: NewMySQLSource_def make_chan_def)
  let ?s = "WithStore s0 ?st"
  let ?l0 = "life_start ?s ()"
  let ?s1 = "?s\<lparr>msRunning := True, msRunCtx := \<lambda>_. None\<rparr>"
  let ?l1 = "?l0\<lparr>lfSource := ?s1, lfWorld := (), lfRuns := (lfRuns ?l0)(0 := SourceRunning)\<rparr>"
  have "Source_enter (\<lambda>_. None) ?s = Inr (?st, ?s1)" using s0 by (simp add: Source_enter_def WithStore_def)
  then have run: "life_step ?l0 ?l1"
    by (intro life_begin [where ctx = "\<lambda>_. None" and st = ?st and pos = "\<lparr>posName = '''', posPos = 0\<rparr>"])
      (simp_all add: life_start_def loadPosition_def WithStore_def s0)
  let ?s2 = "?s1\<lparr>msRunning := False, msChan := (msChan s0)\<lparr>chClosed := True\<rparr>, msChanClosed := True\<rparr>"
  let ?l2 = "?l1\<lparr>lfSource := ?s2, lfWorld := ()\<rparr>"
  have "source_stop ?s1 () = Returns (?s2, ())" using s0 by (simp add: source_stop_def WithStore_def chan_close_def)
  then have close: "life_step ?l1 ?l2"
    by (intro life_close [where err = None]) (simp_all add: Source_Close_def life_start_def)
  have reach: "life_step\<^sup>*\<^sup>* ?l0 ?l2" by (rule rtranclp.rtrancl_into_rtrancl [of life_step, OF r_into_rtranclp [of life_step, OF run] close])
  from source_channel_closed_once [OF new reach, of "\<lambda>_. None"] reach new show ?thesis
    by (intro exI [of _ ?lib] exI [of _ ?cfg] exI [of _ s0] exI [of _ ?l2] exI [of _ ?st]) auto
qed

end
