(* ===== verification/Go_Rfc3339.thy ===== *)
theory Go_Rfc3339
  imports Go_Time
begin

text \<open>
  How a \<open>time.Time\<close> is written to JSON and read back: \<open>MarshalJSON\<close> writes RFC 3339 with the fraction
  of a second and the offset of its location, \<open>UnmarshalJSON\<close> reads it strictly. An offset is given in
  minutes east of UTC.
\<close>

section \<open>From days to a date\<close>

text \<open>The year and the day in it, from the days since the first of January of year 1.\<close>

definition year_day :: "int \<Rightarrow> int \<times> int" where
  "year_day d =
     (let a = d div 146097; d1 = d mod 146097;
          b = min 3 (d1 div 36524); d2 = d1 - 36524 * b;
          c = d2 div 1461; d3 = d2 mod 1461;
          e = min 3 (d3 div 365)
      in (400 * a + 100 * b + 4 * c + e + 1, d3 - 365 * e))"

text \<open>The month and the day in it, walking from the month \<open>m\<close>.\<close>

function month_day :: "int \<Rightarrow> nat \<Rightarrow> nat \<Rightarrow> nat \<times> nat" where
  "month_day y m r =
     (if 12 \<le> m \<or> r < days_in m y then (m, Suc r) else month_day y (Suc m) (r - days_in m y))"
  by pat_completeness auto
termination
  by (relation "measure (\<lambda>(y, m, r). 12 - m)") auto

declare month_day.simps [simp del]

definition civil :: "int \<Rightarrow> int \<times> nat \<times> nat" where
  "civil days = (case year_day (days + 719162) of (y, r) \<Rightarrow> (y, month_day y 1 (nat r)))"

section \<open>Writing\<close>

definition pad2 :: "nat \<Rightarrow> string" where
  "pad2 n = [digit_char (n div 10 mod 10), digit_char (n mod 10)]"

definition pad4 :: "nat \<Rightarrow> string" where
  "pad4 n = pad2 (n div 100) @ pad2 (n mod 100)"

fun padded :: "nat \<Rightarrow> nat \<Rightarrow> string" where
  "padded 0 n = []"
| "padded (Suc k) n = padded k (n div 10) @ [digit_char (n mod 10)]"

definition trim_zeros :: "string \<Rightarrow> string" where
  "trim_zeros s = rev (dropWhile (\<lambda>c. c = CHR ''0'') (rev s))"

definition fraction_text :: "nat \<Rightarrow> string" where
  "fraction_text ns = (if ns = 0 then [] else CHR ''.'' # trim_zeros (padded 9 ns))"

definition zone_text :: "int \<Rightarrow> string" where
  "zone_text z =
     (if z = 0 then ''Z''
      else (if z < 0 then CHR ''-'' else CHR ''+'') # pad2 (nat \<bar>z\<bar> div 60) @ CHR '':'' # pad2 (nat \<bar>z\<bar> mod 60))"

text \<open>A year of more than four digits and an offset of a day or more are errors.\<close>

definition rfc3339_text :: "int \<Rightarrow> go_time \<Rightarrow> string option" where
  "rfc3339_text z t =
     (let local = t + z * 60000000000; secs = local div 1000000000; ns = nat (local mod 1000000000);
          sod = nat (secs mod 86400) in
      case civil (secs div 86400) of
        (y, m, d) \<Rightarrow>
          if y < 0 \<or> 10000 \<le> y \<or> 1440 \<le> \<bar>z\<bar> then None
          else Some (pad4 (nat y) @ CHR ''-'' # pad2 m @ CHR ''-'' # pad2 d @ CHR ''T'' # pad2 (sod div 3600) @
            CHR '':'' # pad2 (sod div 60 mod 60) @ CHR '':'' # pad2 (sod mod 60) @ fraction_text ns @ zone_text z))"

section \<open>Reading\<close>

definition rfc3339_fraction :: "string \<Rightarrow> nat \<times> string" where
  "rfc3339_fraction s =
     (case s of
        c # d # r \<Rightarrow>
          if c = CHR ''.'' \<and> is_digit d then
            (let ds = takeWhile is_digit (d # r); kept = take 9 ds in
             (the (dec_value 0 kept) * 10 ^ (9 - length kept), dropWhile is_digit (d # r)))
          else (0, s)
      | _ \<Rightarrow> (0, s))"

definition zone_offset :: "string \<Rightarrow> int option" where
  "zone_offset s =
     (if s = ''Z'' then Some 0
      else
        (case s of
           c # s \<Rightarrow> do {
             (hh, s) \<leftarrow> getnum True s \<bind> within 0 24;
             (mm, s) \<leftarrow> skip_char CHR '':'' s \<bind> getnum True \<bind> within 0 60;
             (if s \<noteq> [] \<or> c \<noteq> CHR ''+'' \<and> c \<noteq> CHR ''-'' then None
              else Some ((if c = CHR ''-'' then - 1 else 1) * (60 * int hh + int mm))) }
         | [] \<Rightarrow> None))"

definition rfc3339_Parse :: "string \<Rightarrow> go_time option" where
  "rfc3339_Parse s = do {
     (year, s) \<leftarrow> year_digits s;
     (month, s) \<leftarrow> skip_char CHR ''-'' s \<bind> getnum True \<bind> within 1 13;
     (day, s) \<leftarrow> skip_char CHR ''-'' s \<bind> getnum True \<bind> within 1 (Suc (days_in month (int year)));
     (hour, s) \<leftarrow> skip_char CHR ''T'' s \<bind> getnum True \<bind> within 0 24;
     (minute, s) \<leftarrow> skip_char CHR '':'' s \<bind> getnum True \<bind> within 0 60;
     (sec, s) \<leftarrow> skip_char CHR '':'' s \<bind> getnum True \<bind> within 0 60;
     (let (nsec, s) = rfc3339_fraction s in do {
        z \<leftarrow> zone_offset s;
        Some (instant (int year) month day hour minute sec nsec - z * 60000000000) }) }"

section \<open>The date of a day\<close>

lemma capped_div:
  fixes k x :: int
  assumes "0 < k" and "0 \<le> x" and "x \<le> 4 * k"
  defines "b \<equiv> min 3 (x div k)"
  shows "0 \<le> b" and "b \<le> 3" and "0 \<le> x - k * b" and "b < 3 \<Longrightarrow> x - k * b < k" and "x - k * b \<le> k"
proof -
  define q r where "q = x div k" and "r = x mod k"
  have x: "x = k * q + r" "0 \<le> r" "r < k" "0 \<le> q"
    using assms(1,2) by (simp_all add: q_def r_def pos_imp_zdiv_nonneg_iff)
  have mono: "k * i \<le> k * j" if "i \<le> j" for i j using that assms(1) by simp
  show "0 \<le> b" "b \<le> 3" using x(4) by (simp_all add: b_def q_def)
  have "b = q \<or> b = 3 \<and> 4 \<le> q" unfolding b_def q_def by linarith
  moreover have "x = k * 4" if "4 \<le> q" using mono [OF that] x(1,2) assms(3) by linarith
  ultimately show "0 \<le> x - k * b" "b < 3 \<Longrightarrow> x - k * b < k" "x - k * b \<le> k"
    using x assms(1) by auto
qed

lemma year_day_correct:
  assumes "year_day d = (y, r)"
  shows "days_before_year y + r = d" and "0 \<le> r" and "r < (if is_leap y then 366 else 365)"
proof -
  define a d1 where "a = d div 146097" and "d1 = d mod 146097"
  define b where "b = min 3 (d1 div 36524)"
  define d2 where "d2 = d1 - 36524 * b"
  define c d3 where "c = d2 div 1461" and "d3 = d2 mod 1461"
  define e where "e = min 3 (d3 div 365)"
  have y: "y = 400 * a + 100 * b + 4 * c + e + 1" and r: "r = d3 - 365 * e"
    using assms [unfolded year_day_def Let_def, folded a_def d1_def, folded b_def, folded d2_def,
        folded c_def d3_def, folded e_def] by simp_all
  have d1: "d = 146097 * a + d1" "0 \<le> d1" "d1 < 146097" by (simp_all add: a_def d1_def)
  have b: "0 \<le> b" "b \<le> 3" "0 \<le> d2" "b < 3 \<Longrightarrow> d2 < 36524" "d2 \<le> 36524"
    using capped_div [of 36524 d1, folded b_def, folded d2_def] d1(2,3) by simp_all
  have c: "d2 = 1461 * c + d3" "0 \<le> d3" "d3 < 1461" "0 \<le> c" using b(3) by (simp_all add: c_def d3_def pos_imp_zdiv_nonneg_iff)
  have c24: "c \<le> 24" using c b(5) by linarith
  have e: "0 \<le> e" "e \<le> 3" "0 \<le> r" "e < 3 \<Longrightarrow> r < 365" "r \<le> 365"
    using capped_div [of 365 d3, folded e_def, folded r] c(2,3) by simp_all
  have "y - 1 = 4 * (100 * a + 25 * b + c) + e" "y - 1 = 100 * (4 * a + b) + (4 * c + e)"
    "y - 1 = 400 * a + (100 * b + 4 * c + e)"
    using y by simp_all
  then have "(y - 1) div 4 = 100 * a + 25 * b + c" "(y - 1) div 100 = 4 * a + b" "(y - 1) div 400 = a"
    using b(1,2) c24 c(4) e(1,2) int_div_pos_eq by auto
  then have "days_before_year y = 146097 * a + 36524 * b + 1461 * c + 365 * e"
    using y by (simp add: days_before_year_def)
  then show "days_before_year y + r = d" using d1(1) c(1) r by (simp add: d2_def)
  show "0 \<le> r" by (rule e(3))
  show "r < (if is_leap y then 366 else 365)"
  proof (cases "r = 365")
    case True
    then have e3: "e = 3" using e by linarith
    have "c \<noteq> 24 \<or> b = 3"
    proof (rule ccontr)
      assume "\<not> ?thesis"
      then have "c = 24" "d2 < 36524" using b by auto
      then show False using c(1) True r e3 by linarith
    qed
    moreover have "y mod 4 = 0" "y mod 100 = 4 * c + 4 \<or> c = 24" using y e3 c24 c(4)
      by (auto intro!: int_mod_pos_eq [where q = "100 * a + 25 * b + c + 1"] int_mod_pos_eq [where q = "4 * a + b"])
    moreover have "y mod 400 = 0" if "c = 24" "b = 3" using y e3 that by simp
    ultimately have "is_leap y" using c(4) c24 by (auto simp: is_leap_def)
    with True show ?thesis by simp
  qed (use e in auto)
qed

lemma month_day_correct:
  assumes "month_day y m r = (m', d)" and "1 \<le> m" and "m \<le> 12" and "r < (\<Sum>k\<leftarrow>[m..<13]. days_in k y)"
  shows "m \<le> m' \<and> m' \<le> 12 \<and> 1 \<le> d \<and> d \<le> days_in m' y \<and>
    (\<Sum>k\<leftarrow>[1..<m]. days_in k y) + r + 1 = (\<Sum>k\<leftarrow>[1..<m']. days_in k y) + d"
  using assms
proof (induction y m r rule: month_day.induct)
  case (1 y m r)
  have split: "(\<Sum>k\<leftarrow>[m..<13]. days_in k y) = days_in m y + (\<Sum>k\<leftarrow>[Suc m..<13]. days_in k y)"
    using 1(4) by (simp add: upt_conv_Cons)
  show ?case
  proof (cases "12 \<le> m \<or> r < days_in m y")
    case True
    then have "m' = m" "d = Suc r" using 1(2) by (simp_all add: month_day.simps [of y m r])
    moreover have "r < days_in m y" using True split 1(4,5) by auto
    ultimately show ?thesis using 1(4) by simp
  next
    case False
    then have "month_day y (Suc m) (r - days_in m y) = (m', d)" using 1(2) by (simp add: month_day.simps [of y m r])
    moreover have "r - days_in m y < (\<Sum>k\<leftarrow>[Suc m..<13]. days_in k y)" using False 1(5) split by linarith
    ultimately have "Suc m \<le> m' \<and> m' \<le> 12 \<and> 1 \<le> d \<and> d \<le> days_in m' y \<and>
        (\<Sum>k\<leftarrow>[1..<Suc m]. days_in k y) + (r - days_in m y) + 1 = (\<Sum>k\<leftarrow>[1..<m']. days_in k y) + d"
      using False by (intro 1(1)) simp_all
    with False 1(3) show ?thesis by simp
  qed
qed

lemma year_length: "(\<Sum>k\<leftarrow>[1..<13]. days_in k y) = (if is_leap y then 366 else 365)"
  by (simp add: days_in_def upt_rec)

lemma civil_correct:
  assumes "civil days = (y, m, d)"
  shows "epoch_days y m d = days" and "1 \<le> m" and "m \<le> 12" and "1 \<le> d" and "d \<le> days_in m y"
proof -
  obtain r where yd: "year_day (days + 719162) = (y, r)" and md: "month_day y 1 (nat r) = (m, d)"
    using assms by (auto simp: civil_def split: prod.splits)
  note year = year_day_correct [OF yd]
  have "nat r < (\<Sum>k\<leftarrow>[1..<13]. days_in k y)" unfolding year_length using year by auto
  from month_day_correct [OF md _ _ this]
  have *: "1 \<le> m \<and> m \<le> 12 \<and> 1 \<le> d \<and> d \<le> days_in m y \<and> nat r + 1 = (\<Sum>k\<leftarrow>[1..<m]. days_in k y) + d" by simp
  have "r + 1 = (\<Sum>k\<leftarrow>[1..<m]. int (days_in k y)) + int d"
  proof -
    have "(\<Sum>k\<leftarrow>ks. int (days_in k y)) = int (\<Sum>k\<leftarrow>ks. days_in k y)" for ks by (induction ks) simp_all
    moreover have "int (nat r + 1) = int ((\<Sum>k\<leftarrow>[1..<m]. days_in k y) + d)" using * by (simp only:)
    ultimately show ?thesis using year(2) by simp
  qed
  then show "epoch_days y m d = days" using year(1) by (simp add: epoch_days_def)
  show "1 \<le> m" "m \<le> 12" "1 \<le> d" "d \<le> days_in m y" using * by simp_all
qed

section \<open>The round trip\<close>

lemma getnum_pad2: "n < 100 \<Longrightarrow> getnum True (pad2 n @ s) = Some (n, s)"
  by (simp add: getnum_def pad2_def)

lemma within_Some: "lo \<le> n \<Longrightarrow> n < hi \<Longrightarrow> within lo hi (n, s) = Some (n, s)"
  by (simp add: within_def)

lemma year_digits_pad4: "n < 10000 \<Longrightarrow> year_digits (pad4 n @ s) = Some (n, s)"
  by (simp add: year_digits_def pad4_def pad2_def)

lemma padded_digits: "list_all is_digit (padded k n) \<and> length (padded k n) = k"
  by (induction k arbitrary: n) simp_all

lemma padded_value: "dec_value a (padded k n) = Some (a * 10 ^ k + n mod 10 ^ k)"
proof (induction k arbitrary: n)
  case (Suc k)
  have "n mod (10 * 10 ^ k) = n div 10 mod 10 ^ k * 10 + n mod 10" by (simp add: mod_mult2_eq)
  with Suc show ?case by (simp add: dec_value_append algebra_simps)
qed simp

lemma trim_zeros_append: "\<exists>k. s = trim_zeros s @ replicate k CHR ''0''"
proof -
  have "rev s = takeWhile (\<lambda>c. c = CHR ''0'') (rev s) @ dropWhile (\<lambda>c. c = CHR ''0'') (rev s)" by simp
  then have "s = trim_zeros s @ rev (takeWhile (\<lambda>c. c = CHR ''0'') (rev s))"
    unfolding trim_zeros_def by (metis rev_append rev_rev_ident)
  moreover have "rev (takeWhile (\<lambda>c. c = CHR ''0'') xs) = replicate (length (takeWhile (\<lambda>c. c = CHR ''0'') xs)) CHR ''0''" for xs
    by (induction xs) (simp_all add: replicate_append_same)
  ultimately show ?thesis by metis
qed

lemma dec_value_zeros_after: "dec_value a (s @ replicate k CHR ''0'') = map_option (\<lambda>n. n * 10 ^ k) (dec_value a s)"
proof (cases "dec_value a s")
  case (Some n)
  have "dec_value n (replicate k CHR ''0'') = Some (n * 10 ^ k)" for n
    by (induction k arbitrary: n) (simp_all add: is_digit_def digit_val_def)
  with Some show ?thesis by (simp add: dec_value_append)
qed (simp add: dec_value_append)

lemma fraction_roundtrip:
  assumes "ns < 1000000000" and "r \<noteq> []" and "\<not> is_digit (hd r)" and "hd r \<noteq> CHR ''.''"
  shows "rfc3339_fraction (fraction_text ns @ r) = (ns, r)"
proof (cases "ns = 0")
  case True
  with assms(2-4) show ?thesis by (cases r) (auto simp: fraction_text_def rfc3339_fraction_def split: list.split)
next
  case False
  obtain k where k: "padded 9 ns = trim_zeros (padded 9 ns) @ replicate k CHR ''0''" using trim_zeros_append by blast
  define ds where "ds = trim_zeros (padded 9 ns)"
  have len: "length ds + k = 9" using k padded_digits [of 9 ns] unfolding ds_def by (metis length_append length_replicate)
  have digits: "list_all is_digit ds" using k padded_digits [of 9 ns] unfolding ds_def by (metis list_all_append)
  have "dec_value 0 (ds @ replicate k CHR ''0'') = Some ns" using padded_value [of 0 9 ns] k assms(1) by (simp add: ds_def)
  then obtain v where v: "dec_value 0 ds = Some v" "v * 10 ^ k = ns" by (auto simp: dec_value_zeros_after)
  then obtain d t where ds: "ds = d # t" using False by (cases ds) auto
  have "takeWhile is_digit (ds @ r) = ds" "dropWhile is_digit (ds @ r) = r"
    using digits assms(2,3) by (cases r; auto simp: list_all_iff takeWhile_append dropWhile_append)+
  then have "rfc3339_fraction (CHR ''.'' # ds @ r) = (the (dec_value 0 (take 9 ds)) * 10 ^ (9 - length (take 9 ds)), r)"
    using digits by (simp add: rfc3339_fraction_def ds Let_def)
  moreover have "take 9 ds = ds" "9 - length ds = k" using len by simp_all
  ultimately show ?thesis using False v by (simp add: fraction_text_def ds_def)
qed

lemma zone_roundtrip:
  assumes "\<bar>z\<bar> < 1440" shows "zone_offset (zone_text z) = Some z"
proof (cases "z = 0")
  case False
  define n where "n = nat \<bar>z\<bar>"
  have n: "n div 60 < 24" "n mod 60 < 60" using assms by (simp_all add: n_def less_mult_imp_div_less nat_less_iff)
  have "int (n mod 60) + 60 * int (n div 60) = int n" by (metis mult_div_mod_eq add.commute of_nat_add of_nat_mult of_nat_numeral)
  with False n show ?thesis
    by (auto simp: zone_text_def zone_offset_def n_def [symmetric] getnum_pad2 within_Some skip_char_def
        getnum_pad2 [of _ "[]", simplified]) (simp_all add: n_def)
qed (simp add: zone_text_def zone_offset_def)

lemma zone_text_start: "zone_text z \<noteq> [] \<and> \<not> is_digit (hd (zone_text z)) \<and> hd (zone_text z) \<noteq> CHR ''.''"
  by (simp add: zone_text_def is_digit_def)

theorem rfc3339_roundtrip:
  assumes "rfc3339_text z t = Some s" shows "rfc3339_Parse s = Some t"
proof -
  define local where "local = t + z * 60000000000"
  define secs ns where "secs = local div 1000000000" and "ns = nat (local mod 1000000000)"
  define sod where "sod = nat (secs mod 86400)"
  obtain y m d where civ: "civil (secs div 86400) = (y, m, d)" by (metis prod_cases3)
  have s: "0 \<le> y" "y < 10000" "\<bar>z\<bar> < 1440" "s = pad4 (nat y) @ CHR ''-'' # pad2 m @ CHR ''-'' # pad2 d @ CHR ''T'' #
      pad2 (sod div 3600) @ CHR '':'' # pad2 (sod div 60 mod 60) @ CHR '':'' # pad2 (sod mod 60) @
      fraction_text ns @ zone_text z"
    using assms civ by (auto simp: rfc3339_text_def Let_def local_def secs_def ns_def sod_def split: if_splits)
  note date = civil_correct [OF civ]
  have "sod < 86400" by (simp add: sod_def nat_less_iff)
  then have hours: "sod div 3600 < 24" by (simp add: less_mult_imp_div_less)
  have days: "days_in m y \<le> 31" by (simp add: days_in_def)
  have ns: "ns < 1000000000" by (simp add: ns_def nat_less_iff)
  have frac: "rfc3339_fraction (fraction_text ns @ zone_text z) = (ns, zone_text z)"
    using fraction_roundtrip [OF ns] zone_text_start by blast
  have "instant y m d (sod div 3600) (sod div 60 mod 60) (sod mod 60) ns = local"
  proof -
    have "sod div 3600 = sod div 60 div 60" by (simp add: div_mult2_eq [symmetric])
    then have "sod div 3600 * 3600 + sod div 60 mod 60 * 60 + sod mod 60 = sod"
      using mult_div_mod_eq [of 60 "sod div 60"] mult_div_mod_eq [of 60 sod] by linarith
    then have "int (sod div 3600) * 3600 + int (sod div 60 mod 60) * 60 + int (sod mod 60) = int sod"
      by linarith
    moreover have "int sod = secs mod 86400" "int ns = local mod 1000000000" by (simp_all add: sod_def ns_def)
    moreover have "secs div 86400 * 86400 + secs mod 86400 = secs" by simp
    moreover have "secs * 1000000000 + local mod 1000000000 = local" by (simp add: secs_def)
    moreover have "h * 3600 + mi * 60 + se = x \<Longrightarrow> x = u \<Longrightarrow> n = v \<Longrightarrow> q * 86400 + u = w \<Longrightarrow> w * 1000000000 + v = l \<Longrightarrow>
        (((q * 24 + h) * 60 + mi) * 60 + se) * 1000000000 + n = l" for h mi se x u n v q w l :: int
      by (auto simp: algebra_simps)
    ultimately show ?thesis unfolding instant_def date(1) by blast
  qed
  then show ?thesis
    using s(1-3) date(2-5) days hours zone_roundtrip [OF s(3)]
    unfolding rfc3339_Parse_def s(4)
    by (simp add: year_digits_pad4 skip_char_def getnum_pad2 within_Some frac local_def)
qed

section \<open>The range of the years\<close>

text \<open>A time of the layout of the columns is in the range of RFC 3339.\<close>

lemma days_before_mono: "y \<le> y' \<Longrightarrow> days_before_year y \<le> days_before_year y'"
proof (induction y' rule: int_ge_induct)
  case (step i)
  then show ?case using days_before_Suc_year [of i] by auto
qed simp

lemma date_in_year:
  assumes "1 \<le> m" and "m \<le> 12" and "1 \<le> d" and "d \<le> days_in m y"
  shows "days_before_year y \<le> epoch_days y m d + 719162" and "epoch_days y m d + 719162 < days_before_year (y + 1)"
proof -
  have "[1..<13] = [1..<m] @ m # [Suc m..<13]"
    using assms(1,2) by (metis le_imp_less_Suc less_imp_le_nat upt_add_eq_append upt_conv_Cons le_add_diff_inverse
        numeral_eq_Suc pred_numeral_simps(3) semiring_norm(28))
  then have "(\<Sum>k\<leftarrow>[1..<m]. days_in k y) + days_in m y \<le> (if is_leap y then 366 else 365)"
    using year_length [of y] by simp
  moreover have "(\<Sum>k\<leftarrow>[1..<m]. int (days_in k y)) = int (\<Sum>k\<leftarrow>[1..<m]. days_in k y)"
    by (induction m) simp_all
  ultimately show "days_before_year y \<le> epoch_days y m d + 719162" "epoch_days y m d + 719162 < days_before_year (y + 1)"
    using assms(3,4) unfolding epoch_days_def days_before_Suc_year by (auto split: if_splits)
qed

lemma civil_year:
  assumes "1 \<le> m" and "m \<le> 12" and "1 \<le> d" and "d \<le> days_in m y"
    and "civil (epoch_days y m d) = (y', m', d')"
  shows "y' = y"
proof (rule ccontr)
  note date = date_in_year [OF assms(1-4)]
  note date' = date_in_year [OF civil_correct(2-5) [OF assms(5)], unfolded civil_correct(1) [OF assms(5)]]
  assume "y' \<noteq> y"
  then consider "y' + 1 \<le> y" | "y + 1 \<le> y'" by linarith
  then show False
    by cases (use date date' days_before_mono [of "y' + 1" y] days_before_mono [of "y + 1" y'] in linarith)+
qed

lemma instant_days:
  assumes "hh < 24" and "mm < 60" and "ss < 60" and "ns < 1000000000"
  shows "instant y m d hh mm ss ns div 1000000000 div 86400 = epoch_days y m d"
proof -
  define s where "s = (int hh * 60 + int mm) * 60 + int ss"
  have s: "0 \<le> s" "s < 86400" using assms by (simp_all add: s_def)
  have "instant y m d hh mm ss ns = (epoch_days y m d * 86400 + s) * 1000000000 + int ns"
    by (simp add: instant_def s_def)
  then have "instant y m d hh mm ss ns div 1000000000 = epoch_days y m d * 86400 + s" using assms(4) by simp
  with s show ?thesis by simp
qed

lemma rfc3339_text_instant:
  assumes "y < 10000" and "1 \<le> m" and "m \<le> 12" and "1 \<le> d" and "d \<le> days_in m (int y)"
    and "hh < 24" and "mm < 60" and "ss < 60" and "ns < 1000000000"
  shows "rfc3339_text 0 (instant (int y) m d hh mm ss ns) \<noteq> None"
proof -
  obtain y' m' d' where c: "civil (epoch_days (int y) m d) = (y', m', d')" by (metis prod_cases3)
  with civil_year [OF assms(2-5)] assms(1) instant_days [OF assms(6-9)] show ?thesis
    by (auto simp: rfc3339_text_def Let_def)
qed

lemma dec_value_bound: "dec_value a s = Some n \<Longrightarrow> n < (a + 1) * 10 ^ length s"
proof (induction s arbitrary: a)
  case (Cons c s)
  then have c: "is_digit c" "dec_value (a * 10 + digit_val c) s = Some n" by (simp_all split: if_splits)
  have "digit_val c \<le> 9" using c(1) unfolding is_digit_def digit_val_def by linarith
  have "n < (a * 10 + digit_val c + 1) * 10 ^ length s" using c(2) by (rule Cons.IH)
  also have "\<dots> \<le> (a + 1) * 10 * 10 ^ length s" using \<open>digit_val c \<le> 9\<close> by (intro mult_right_mono) simp_all
  finally show ?case by (simp only: length_Cons power_Suc mult.assoc)
qed simp

lemma fraction_digits_bound: "fraction_digits s = (ns, r) \<Longrightarrow> ns < 1000000000"
proof (cases s rule: remdups_adj.cases)
  case (3 c d t)
  assume ns: "fraction_digits s = (ns, r)"
  let ?ds = "take 9 (takeWhile is_digit (d # t))"
  have "list_all is_digit ?ds" by (auto simp: list_all_iff dest!: in_set_takeD dest: set_takeWhileD)
  then obtain n where n: "dec_value 0 ?ds = Some n" by (metis dec_value_digits)
  have "n * 10 ^ (9 - length ?ds) < 10 ^ length ?ds * 10 ^ (9 - length ?ds)"
    using dec_value_bound [OF n] by (intro mult_strict_right_mono) simp_all
  also have "\<dots> = (10 :: nat) ^ 9" unfolding power_add [symmetric] by simp
  finally have "n * 10 ^ (9 - length ?ds) < 1000000000" by simp
  with ns n 3 show ?thesis by (auto simp: fraction_digits_def Let_def split: if_splits)
qed (simp_all add: fraction_digits_def)

lemma within_bounds: "within lo hi p = Some (n, r) \<Longrightarrow> lo \<le> n \<and> n < hi"
  by (auto simp: within_def split: prod.splits if_splits)

lemma year_digits_bound: "year_digits s = Some (y, r) \<Longrightarrow> y < 10000"
  using dec_value_bound [of 0 "take 4 s"] by (auto simp: year_digits_def bind_eq_Some_conv split: if_splits)

lemma bind_SomeE: "x \<bind> f = Some u \<Longrightarrow> (\<And>a. x = Some a \<Longrightarrow> f a = Some u \<Longrightarrow> thesis) \<Longrightarrow> thesis"
  for x :: "'a option"
  by (cases x) simp_all

lemma pair_SomeE: "(case p of (a, b) \<Rightarrow> f a b) = Some u \<Longrightarrow> (\<And>a b. p = (a, b) \<Longrightarrow> f a b = Some u \<Longrightarrow> thesis) \<Longrightarrow> thesis"
  by (cases p) simp

lemma guard_SomeD: "(if s \<noteq> [] \<or> day < 1 \<or> n < day then None else Some x) = Some t \<Longrightarrow> t = x \<and> 1 \<le> day \<and> day \<le> n" for day n :: nat
  by (simp split: if_splits)

lemma time_Parse_in_range:
  assumes "time_Parse s = Some t" shows "rfc3339_text 0 t \<noteq> None"
  using assms unfolding time_Parse_def Let_def
  apply (elim bind_SomeE pair_SomeE)
  apply (simp only: split_paired_all)
  apply (drule within_bounds fraction_digits_bound year_digits_bound guard_SomeD)+
  apply (elim conjE, hypsubst)
  apply (rule rfc3339_text_instant; (assumption | linarith))
  done

end
