(* ===== verification/Event_Json.thy ===== *)
theory Event_Json
  imports Types Json_Number Go_Rfc3339 "HOL-Library.AList" "HOL-Library.List_Lexorder" "HOL-Library.Char_ord"
begin

text \<open>
  An event on the wire: what \<open>json.Marshal\<close> and \<open>json.MarshalIndent\<close> write for an \<open>EventData\<close>, which every
  producer sends, and what \<open>json.Unmarshal\<close> makes of a text, which every consumer receives. The last
  section says which event comes back.
\<close>

section \<open>Encoding\<close>

text \<open>
  The location of the times read from the clock, as minutes east of UTC at an instant: it is the
  process's environment. The times in a row come from \<open>time.Parse\<close> and are in UTC.
\<close>

type_synonym location = "go_time \<Rightarrow> int"

text \<open>A \<open>[]byte\<close> is written in base 64 with padding.\<close>

definition base64_char :: "nat \<Rightarrow> char" where
  "base64_char n =
     (if n < 26 then chr (65 + n) else if n < 52 then chr (71 + n) else if n < 62 then chr (n - 4)
      else if n = 62 then CHR ''+'' else CHR ''/'')"

fun base64 :: "string \<Rightarrow> string" where
  "base64 (a # b # c # s) =
     base64_char (byte a div 4) # base64_char (byte a mod 4 * 16 + byte b div 16) #
     base64_char (byte b mod 16 * 4 + byte c div 64) # base64_char (byte c mod 64) # base64 s"
| "base64 [a, b] =
     [base64_char (byte a div 4), base64_char (byte a mod 4 * 16 + byte b div 16), base64_char (byte b mod 16 * 4),
      CHR ''='']"
| "base64 [a] = [base64_char (byte a div 4), base64_char (byte a mod 4 * 16), CHR ''='', CHR ''='']"
| "base64 [] = []"

text \<open>All values of a list, or the first error.\<close>

fun collect :: "('e + 'a) list \<Rightarrow> 'e + 'a list" where
  "collect [] = Inr []"
| "collect (x # xs) =
     (case x of Inl e \<Rightarrow> Inl e | Inr v \<Rightarrow> (case collect xs of Inl e \<Rightarrow> Inl e | Inr vs \<Rightarrow> Inr (v # vs)))"

definition or_error :: "json_error_kind \<Rightarrow> 'a option \<Rightarrow> go_error + 'a" where
  "or_error k v = (case v of None \<Rightarrow> Inl (JsonErr k) | Some x \<Rightarrow> Inr x)"

text \<open>
  The value of an \<open>any\<close>. An infinity and a NaN are unsupported values, a time out of the range of
  RFC 3339 makes its \<open>MarshalJSON\<close> fail, and \<open>VOther\<close> stands for a type that is not supported. The
  members of a map are sorted by their names.
\<close>

fun value_json :: "go_val \<Rightarrow> go_error + json" where
  "value_json VNil = Inr JNull"
| "value_json (VBytes b) = Inr (JStr (base64 b))"
| "value_json (VInt k i) = Inr (JNum (FormatInt i))"
| "value_json (VFloat32 w) = map_sum id JNum (or_error JsonUnsupportedValueError (float32_text w))"
| "value_json (VFloat64 w) = map_sum id JNum (or_error JsonUnsupportedValueError (float64_text w))"
| "value_json (VBool b) = Inr (JBool b)"
| "value_json (VString s) = Inr (JStr s)"
| "value_json (VTime t) = map_sum id JStr (or_error JsonMarshalerError (rfc3339_text 0 t))"
| "value_json (VSlice vs) = map_sum id JArr (collect (map value_json vs))"
| "value_json (VMap ms) =
     map_sum id (JObj \<circ> sort_key fst) (collect (map (\<lambda>m. map_sum id (Pair (fst m)) (value_json (snd m))) ms))"
| "value_json (VOther s) = Inl (JsonErr JsonUnsupportedTypeError)"

definition row_json :: "row_map \<Rightarrow> go_error + json" where
  "row_json m =
     map_sum id JObj (collect (map (\<lambda>(k, v). map_sum id (Pair k) (value_json v)) (sorted_list_of_fmap m)))"

text \<open>
  The fields in the order of the structs; an empty \<open>old\<close> is left out. A nil \<open>data\<close> would be written
  \<open>null\<close>; the model, which has no nil map, writes it as the empty map that \<open>rowToMap\<close> makes.
\<close>

definition event_json :: "location \<Rightarrow> EventData \<Rightarrow> go_error + json" where
  "event_json loc e =
     (let r = eRow e in
      case or_error JsonMarshalerError (rfc3339_text (loc (eTime e)) (eTime e)) of
        Inl err \<Rightarrow> Inl err
      | Inr t \<Rightarrow>
          (case row_json (rData r) of
             Inl err \<Rightarrow> Inl err
           | Inr data \<Rightarrow>
               (case row_json (rOld r) of
                  Inl err \<Rightarrow> Inl err
                | Inr old \<Rightarrow>
                    Inr (JObj [(''time'', JStr t), (''server_id'', JNum (FormatInt (sint (eServerID e)))),
                      (''pos'', JNum (FormatInt (sint (ePos e)))),
                      (''row'', JObj
                        ([(''time'', JNum (FormatInt (sint (rTime r)))), (''database'', JStr (rDatabase r)),
                          (''table'', JStr (rTable r)), (''type'', JStr (EventRowType_string (rType r))), (''data'', data)] @
                         (if rOld r = fmempty then [] else [(''old'', old)])))]))))"

definition marshal :: "location \<Rightarrow> EventData \<Rightarrow> go_error + string" where
  "marshal loc e = map_sum id print_json (event_json loc e)"

definition marshalIndent :: "location \<Rightarrow> EventData \<Rightarrow> go_error + string" where
  "marshalIndent loc e = map_sum id (print_indent ''  '' 0) (event_json loc e)"

section \<open>Decoding\<close>

text \<open>The value an \<open>any\<close> receives: a number becomes a \<open>float64\<close>, and one out of range is an error.\<close>

fun all_some :: "'a option list \<Rightarrow> 'a list option" where
  "all_some [] = Some []"
| "all_some (x # xs) = (case x of None \<Rightarrow> None | Some v \<Rightarrow> map_option (Cons v) (all_some xs))"

fun any_value :: "json \<Rightarrow> go_val option" where
  "any_value JNull = Some VNil"
| "any_value (JBool b) = Some (VBool b)"
| "any_value (JNum lit) = map_option VFloat64 (convertNumber lit)"
| "any_value (JStr s) = Some (VString s)"
| "any_value (JArr vs) = map_option VSlice (all_some (map any_value vs))"
| "any_value (JObj ms) =
     map_option (\<lambda>kvs. VMap (sort_key fst (AList.clearjunk (rev kvs))))
       (all_some (map (\<lambda>m. map_option (Pair (fst m)) (any_value (snd m))) ms))"

text \<open>
  The text of a time is looked at with its escapes resolved, the library looks at the bytes as they
  were written; \<open>Marshal\<close> writes none. A value of the wrong type leaves its field alone and is remembered as an error, a time that cannot
  be parsed ends the decoding, and \<open>null\<close> changes nothing but a map.
\<close>

definition type_error :: "go_error option \<Rightarrow> go_error option" where
  "type_error err = (case err of None \<Rightarrow> Some (JsonErr JsonUnmarshalTypeError) | Some e \<Rightarrow> Some e)"

definition time_error :: go_error where
  "time_error = ErrNew ''Time.UnmarshalJSON'' []"

definition store_int :: "json \<Rightarrow> (int64 \<Rightarrow> 'r \<Rightarrow> 'r) \<Rightarrow> go_error option \<times> 'r \<Rightarrow> go_error option \<times> 'r" where
  "store_int v upd = (\<lambda>(err, r).
     case v of
       JNum lit \<Rightarrow> (case ParseInt lit 64 of Some i \<Rightarrow> (err, upd (word_of_int i) r) | None \<Rightarrow> (type_error err, r))
     | JNull \<Rightarrow> (err, r)
     | _ \<Rightarrow> (type_error err, r))"

definition store_string :: "json \<Rightarrow> (string \<Rightarrow> 'r \<Rightarrow> 'r) \<Rightarrow> go_error option \<times> 'r \<Rightarrow> go_error option \<times> 'r" where
  "store_string v upd = (\<lambda>(err, r).
     case v of JStr s \<Rightarrow> (err, upd s r) | JNull \<Rightarrow> (err, r) | _ \<Rightarrow> (type_error err, r))"

definition store_entry :: "string \<times> json \<Rightarrow> go_error option \<times> row_map \<Rightarrow> go_error option \<times> row_map" where
  "store_entry = (\<lambda>(k, v) (err, m).
     case any_value v of Some x \<Rightarrow> (err, fmupd k x m) | None \<Rightarrow> (type_error err, m))"

definition store_map :: "json \<Rightarrow> ('r \<Rightarrow> row_map) \<Rightarrow> (row_map \<Rightarrow> 'r \<Rightarrow> 'r) \<Rightarrow> go_error option \<times> 'r \<Rightarrow> go_error option \<times> 'r" where
  "store_map v get upd = (\<lambda>(err, r).
     case v of
       JObj ms \<Rightarrow> (case fold store_entry ms (err, get r) of (err', m) \<Rightarrow> (err', upd m r))
     | JNull \<Rightarrow> (err, upd fmempty r)
     | _ \<Rightarrow> (type_error err, r))"

definition EventRowType_of :: "string \<Rightarrow> EventRowType" where
  "EventRowType_of s =
     (if s = ''insert'' then InsertEventRowType else if s = ''update'' then UpdateEventRowType
      else if s = ''delete'' then DeleteEventRowType else OtherEventRowType s)"

definition store_row_field :: "string \<times> json \<Rightarrow> go_error option \<times> EventRowData \<Rightarrow> go_error option \<times> EventRowData" where
  "store_row_field = (\<lambda>(k, v).
     if fold_key k = ''TIME'' then store_int v (\<lambda>i r. r\<lparr>rTime := i\<rparr>)
     else if fold_key k = ''DATABASE'' then store_string v (\<lambda>s r. r\<lparr>rDatabase := s\<rparr>)
     else if fold_key k = ''TABLE'' then store_string v (\<lambda>s r. r\<lparr>rTable := s\<rparr>)
     else if fold_key k = ''TYPE'' then store_string v (\<lambda>s r. r\<lparr>rType := EventRowType_of s\<rparr>)
     else if fold_key k = ''DATA'' then store_map v rData (\<lambda>m r. r\<lparr>rData := m\<rparr>)
     else if fold_key k = ''OLD'' then store_map v rOld (\<lambda>m r. r\<lparr>rOld := m\<rparr>)
     else id)"

definition store_time :: "json \<Rightarrow> go_error option \<times> EventData \<Rightarrow> go_error option \<times> EventData" where
  "store_time v = (\<lambda>(err, e).
     case v of
       JStr s \<Rightarrow> (case rfc3339_Parse s of Some t \<Rightarrow> (err, e\<lparr>eTime := t\<rparr>) | None \<Rightarrow> (Some time_error, e))
     | JNull \<Rightarrow> (err, e)
     | _ \<Rightarrow> (Some time_error, e))"

definition store_row :: "json \<Rightarrow> go_error option \<times> EventData \<Rightarrow> go_error option \<times> EventData" where
  "store_row v = (\<lambda>(err, e).
     case v of
       JObj ms \<Rightarrow> (case fold store_row_field ms (err, eRow e) of (err', r) \<Rightarrow> (err', e\<lparr>eRow := r\<rparr>))
     | JNull \<Rightarrow> (err, e)
     | _ \<Rightarrow> (type_error err, e))"

definition store_event_field :: "string \<times> json \<Rightarrow> go_error option \<times> EventData \<Rightarrow> go_error option \<times> EventData" where
  "store_event_field = (\<lambda>(k, v) (err, e).
     if err = Some time_error then (err, e)
     else if fold_key k = ''TIME'' then store_time v (err, e)
     else if fold_key k = ''SERVER_ID'' then store_int v (\<lambda>i e. e\<lparr>eServerID := i\<rparr>) (err, e)
     else if fold_key k = ''POS'' then store_int v (\<lambda>i e. e\<lparr>ePos := i\<rparr>) (err, e)
     else if fold_key k = ''ROW'' then store_row v (err, e)
     else (err, e))"

definition unmarshal_event :: "string \<Rightarrow> go_error + EventData" where
  "unmarshal_event s =
     (case parse_json s of
        None \<Rightarrow> Inl (JsonErr JsonSyntaxError)
      | Some JNull \<Rightarrow> Inr zeroEvent
      | Some (JObj ms) \<Rightarrow>
          (case fold store_event_field ms (None, zeroEvent) of
             (Some err, e) \<Rightarrow> Inl err
           | (None, e) \<Rightarrow> Inr e)
      | Some _ \<Rightarrow> Inl (JsonErr JsonUnmarshalTypeError))"

section \<open>What comes back\<close>

text \<open>
  The cells of a row: scalars, and integers of their kind's range. On the wire a cell loses its
  type: bytes come back as their base 64 text, every number as the nearest \<open>float64\<close>, a time as text.
\<close>

definition wire_cell :: "go_val \<Rightarrow> bool" where
  "wire_cell v \<longleftrightarrow>
     in_range v \<and> (case v of VSlice vs \<Rightarrow> False | VMap ms \<Rightarrow> False | _ \<Rightarrow> True)"

definition wire_value :: "go_val \<Rightarrow> go_val" where
  "wire_value v =
     (case v of VBytes b \<Rightarrow> VString (base64 b)
      | VInt k i \<Rightarrow> VFloat64 (float_of_int i)
      | VFloat32 w \<Rightarrow> VFloat64 (float_of_float32 w)
      | VString s \<Rightarrow> VString (to_valid_utf8 s)
      | VTime t \<Rightarrow> (case rfc3339_text 0 t of Some s \<Rightarrow> VString s | None \<Rightarrow> VNil)
      | _ \<Rightarrow> v)"

definition wire_event :: "EventData \<Rightarrow> EventData" where
  "wire_event e =
     (let r = eRow e in
      e\<lparr>eRow := r\<lparr>rDatabase := to_valid_utf8 (rDatabase r), rTable := to_valid_utf8 (rTable r),
        rType := EventRowType_of (to_valid_utf8 (EventRowType_string (rType r))),
        rData := fmmap wire_value (rData r), rOld := fmmap wire_value (rOld r)\<rparr>\<rparr>)"

definition wire_row :: "row_map \<Rightarrow> bool" where
  "wire_row m \<longleftrightarrow> fmpred (\<lambda>k v. valid_utf8 k \<and> wire_cell v) m"

subsection \<open>Lemmas\<close>

lemma base64_ascii: "c \<in> set (base64 s) \<Longrightarrow> byte c < 128"
proof (induction s rule: base64.induct)
  case (1 a b c s)
  have "byte (base64_char n) < 128" for n by (auto simp: base64_char_def)
  with 1 show ?case by auto
qed (auto simp: base64_char_def)

lemma pad2_ascii: "c \<in> set (pad2 n) \<Longrightarrow> byte c < 128"
  by (auto simp: pad2_def)

lemma rfc3339_ascii:
  assumes "rfc3339_text z t = Some s" shows "\<forall>c \<in> set s. byte c < 128"
proof -
  have frac: "\<forall>c \<in> set (fraction_text ns). byte c < 128" for ns
  proof
    fix d assume "d \<in> set (fraction_text ns)"
    then have "d = CHR ''.'' \<or> d \<in> set (padded 9 ns)"
      by (auto simp: fraction_text_def trim_zeros_def split: if_splits dest: set_dropWhileD)
    then show "byte d < 128" using padded_digits [of 9 ns] by (auto simp: list_all_iff is_digit_def)
  qed
  have zone: "\<forall>c \<in> set (zone_text z). byte c < 128" by (auto simp: zone_text_def dest: pad2_ascii)
  have pad: "\<forall>c \<in> set (pad2 n). byte c < 128" for n using pad2_ascii by blast
  obtain y m d where civ: "civil ((t + z * 60000000000) div 1000000000 div 86400) = (y, m, d)" by (metis prod_cases3)
  define secs where "secs = (t + z * 60000000000) div 1000000000"
  define sod ns where "sod = nat (secs mod 86400)" and "ns = nat ((t + z * 60000000000) mod 1000000000)"
  have "s = pad4 (nat y) @ CHR ''-'' # pad2 m @ CHR ''-'' # pad2 d @ CHR ''T'' # pad2 (sod div 3600) @
      CHR '':'' # pad2 (sod div 60 mod 60) @ CHR '':'' # pad2 (sod mod 60) @ fraction_text ns @ zone_text z"
    using assms civ by (auto simp: rfc3339_text_def Let_def secs_def sod_def ns_def split: if_splits)
  then show ?thesis using frac zone pad by (simp add: pad4_def ball_Un)
qed

text \<open>A cell that can be written is a number, a string or a constant, and is read back as described.\<close>

lemma cell_roundtrip:
  assumes "wire_cell v" and "value_json v = Inr j"
  shows "well_formed d j" and "any_value (read_back j) = Some (wire_value v)"
proof -
  have "well_formed d j \<and> any_value (read_back j) = Some (wire_value v)"
  proof (cases v)
    case (VInt k i)
    then have "\<bar>i\<bar> \<le> 2 ^ 64" using assms(1) by (cases k) (auto simp: wire_cell_def)
    with VInt assms(2) convertNumber_int show ?thesis by (auto simp: wire_value_def)
  next
    case (VFloat32 w)
    then obtain lit where "float32_text w = Some lit" "j = JNum lit"
      using assms(2) by (auto simp: or_error_def split: option.splits)
    with VFloat32 float32_is_number convertNumber_float32 show ?thesis by (auto simp: wire_value_def)
  next
    case (VFloat64 w)
    then obtain lit where "float64_text w = Some lit" "j = JNum lit"
      using assms(2) by (auto simp: or_error_def split: option.splits)
    with VFloat64 float64_roundtrip show ?thesis by (auto simp: wire_value_def)
  next
    case (VTime t)
    then obtain s where "rfc3339_text 0 t = Some s" "j = JStr s"
      using assms(2) by (auto simp: or_error_def split: option.splits)
    with VTime to_valid_ascii [OF rfc3339_ascii] show ?thesis by (auto simp: wire_value_def)
  next
    case (VBytes b)
    with assms(2) base64_ascii to_valid_ascii [of "base64 b"] show ?thesis by (auto simp: wire_value_def)
  qed (use assms in \<open>auto simp: wire_value_def wire_cell_def\<close>)
  then show "well_formed d j" "any_value (read_back j) = Some (wire_value v)" by simp_all
qed

lemma collect_Inr: "collect (map f xs) = Inr ys \<Longrightarrow> list_all2 (\<lambda>x y. f x = Inr y) xs ys"
  by (induction xs arbitrary: ys) (auto split: sum.splits)

lemma fmlookup_fold:
  assumes "distinct (map fst kvs)"
  shows "fmlookup (fold (\<lambda>(k, v). fmupd k (g v)) kvs m) k =
    (case map_of kvs k of Some v \<Rightarrow> Some (g v) | None \<Rightarrow> fmlookup m k)"
  using assms
proof (induction kvs arbitrary: m)
  case (Cons kv kvs)
  obtain k' v where "kv = (k', v)" by fastforce
  moreover from this Cons.prems have "map_of kvs k' = None" by (simp add: map_of_eq_None_iff)
  ultimately show ?case using Cons by (auto split: option.splits)
qed simp

lemma store_entries:
  assumes "list_all2 (\<lambda>(k, v) m. map_sum id (Pair k) (value_json v) = Inr m) kvs ms"
    and "\<forall>(k, v) \<in> set kvs. valid_utf8 k \<and> wire_cell v"
  shows "list_all (\<lambda>m. well_formed d (snd m)) ms \<and>
    fold store_entry (map (\<lambda>m. (to_valid_utf8 (fst m), read_back (snd m))) ms) (err, m0) =
      (err, fold (\<lambda>(k, v). fmupd k (wire_value v)) kvs m0)"
  using assms
proof (induction arbitrary: m0)
  case (Cons kv kvs m ms)
  obtain k v where kv: "kv = (k, v)" by fastforce
  with Cons.hyps(1) obtain j where j: "value_json v = Inr j" "m = (k, j)" by (cases "value_json v") auto
  have "valid_utf8 k" "wire_cell v" using Cons.prems kv by auto
  with j cell_roundtrip [OF _ j(1)] Cons kv show ?case by (simp add: store_entry_def to_valid_utf8_id)
qed simp

lemma row_roundtrip:
  assumes "wire_row m" and "row_json m = Inr j"
  shows "\<exists>ms. j = JObj ms \<and> list_all (\<lambda>m. well_formed d (snd m)) ms \<and>
    (\<forall>err. fold store_entry (map (\<lambda>m. (to_valid_utf8 (fst m), read_back (snd m))) ms) (err, fmempty) =
      (err, fmmap wire_value m))"
proof -
  let ?kvs = "sorted_list_of_fmap m"
  obtain ms where ms: "j = JObj ms" "collect (map (\<lambda>(k, v). map_sum id (Pair k) (value_json v)) ?kvs) = Inr ms"
    using assms(2) unfolding row_json_def
    by (cases "collect (map (\<lambda>(k, v). map_sum id (Pair k) (value_json v)) ?kvs)") auto
  have cells: "\<forall>(k, v) \<in> set ?kvs. valid_utf8 k \<and> wire_cell v"
  proof -
    have "list_all (\<lambda>(k, v). valid_utf8 k \<and> wire_cell v) ?kvs"
      using assms(1) by (simp add: wire_row_def curry_def)
    then show ?thesis by (simp add: list_all_iff)
  qed
  have "distinct (map fst ?kvs)" by (simp add: sorted_list_of_fmap_def comp_def sorted_list_of_fset.rep_eq)
  then have "fold (\<lambda>(k, v). fmupd k (wire_value v)) ?kvs fmempty = fmmap wire_value m"
    by (intro fmap_ext) (simp add: fmlookup_fold split: option.split)
  with store_entries [OF _ cells] collect_Inr [OF ms(2)] ms(1) show ?thesis
    by (fastforce simp: case_prod_beta')
qed

lemma store_int_sint [simp]: "store_int (JNum (FormatInt (sint w))) upd (err, r) = (err, upd w r)" for w :: int64
proof -
  have "- (2 ^ 63) \<le> sint w" "sint w < 2 ^ 63" using sint_greater_eq [of w] sint_less [of w] by simp_all
  then show ?thesis by (simp add: store_int_def ParseInt_FormatInt)
qed

lemma store_string_JStr [simp]: "store_string (JStr s) upd (err, r) = (err, upd s r)"
  by (simp add: store_string_def)

lemma store_row_names:
  "store_row_field (''time'', v) = store_int v (\<lambda>i r. r\<lparr>rTime := i\<rparr>)"
  "store_row_field (''database'', v) = store_string v (\<lambda>s r. r\<lparr>rDatabase := s\<rparr>)"
  "store_row_field (''table'', v) = store_string v (\<lambda>s r. r\<lparr>rTable := s\<rparr>)"
  "store_row_field (''type'', v) = store_string v (\<lambda>s r. r\<lparr>rType := EventRowType_of s\<rparr>)"
  "store_row_field (''data'', v) = store_map v rData (\<lambda>m r. r\<lparr>rData := m\<rparr>)"
  "store_row_field (''old'', v) = store_map v rOld (\<lambda>m r. r\<lparr>rOld := m\<rparr>)"
  by (simp_all add: store_row_field_def)

lemma store_event_names:
  "store_event_field (''time'', v) (None, e) = store_time v (None, e)"
  "store_event_field (''server_id'', v) (None, e) = store_int v (\<lambda>i e. e\<lparr>eServerID := i\<rparr>) (None, e)"
  "store_event_field (''pos'', v) (None, e) = store_int v (\<lambda>i e. e\<lparr>ePos := i\<rparr>) (None, e)"
  "store_event_field (''row'', v) (None, e) = store_row v (None, e)"
  by (simp_all add: store_event_field_def)

lemma event_reads_back:
  assumes "marshal loc e = Inr s" and "wire_row (rData (eRow e))" and "wire_row (rOld (eRow e))"
  shows "unmarshal_event s = Inr (wire_event e)"
proof -
  let ?r = "eRow e"
  obtain t data old where t: "rfc3339_text (loc (eTime e)) (eTime e) = Some t"
    and data: "row_json (rData ?r) = Inr data" and old: "row_json (rOld ?r) = Inr old"
    using assms(1) by (auto simp: marshal_def event_json_def or_error_def Let_def split: option.splits sum.splits)
  obtain ds where ds: "data = JObj ds" "list_all (\<lambda>m. well_formed 9997 (snd m)) ds"
      "\<And>err. fold store_entry (map (\<lambda>m. (to_valid_utf8 (fst m), read_back (snd m))) ds) (err, fmempty) =
        (err, fmmap wire_value (rData ?r))"
    using row_roundtrip [OF assms(2) data] by blast
  obtain os where os: "old = JObj os" "list_all (\<lambda>m. well_formed 9997 (snd m)) os"
      "\<And>err. fold store_entry (map (\<lambda>m. (to_valid_utf8 (fst m), read_back (snd m))) os) (err, fmempty) =
        (err, fmmap wire_value (rOld ?r))"
    using row_roundtrip [OF assms(3) old] by blast
  define row where "row = [(''time'', JNum (FormatInt (sint (rTime ?r)))), (''database'', JStr (rDatabase ?r)),
      (''table'', JStr (rTable ?r)), (''type'', JStr (EventRowType_string (rType ?r))), (''data'', data)] @
      (if rOld ?r = fmempty then [] else [(''old'', old)])"
  define top where "top = [(''time'', JStr t), (''server_id'', JNum (FormatInt (sint (eServerID e)))),
      (''pos'', JNum (FormatInt (sint (ePos e)))), (''row'', JObj row)]"
  have s: "s = print_json (JObj top)"
    using assms(1) t data old by (simp add: marshal_def event_json_def or_error_def Let_def top_def row_def)
  have "well_formed 10000 (JObj top)"
    using ds(1,2) os(1,2) by (simp add: top_def row_def)
  from parse_json_print [OF this] have parsed: "parse_json s = Some (read_back (JObj top))" by (simp add: s)
  have tv: "to_valid_utf8 t = t" by (rule to_valid_ascii [OF rfc3339_ascii [OF t]])
  have wire: "wire_event e = \<lparr>eTime = eTime e, eServerID = eServerID e, ePos = ePos e, eRow =
      \<lparr>rTime = rTime ?r, rDatabase = to_valid_utf8 (rDatabase ?r), rTable = to_valid_utf8 (rTable ?r),
        rType = EventRowType_of (to_valid_utf8 (EventRowType_string (rType ?r))),
        rData = fmmap wire_value (rData ?r), rOld = fmmap wire_value (rOld ?r)\<rparr>\<rparr>"
    by (cases e; cases ?r) (simp add: wire_event_def)
  have stored: "rData r = fmempty \<Longrightarrow>
      store_row_field (''data'', read_back data) (None, r) = (None, r\<lparr>rData := fmmap wire_value (rData ?r)\<rparr>)"
    "rOld r = fmempty \<Longrightarrow>
      store_row_field (''old'', read_back old) (None, r) = (None, r\<lparr>rOld := fmmap wire_value (rOld ?r)\<rparr>)" for r
    using ds os by (simp_all add: store_row_names store_map_def)
  have "fold store_row_field (map (\<lambda>m. (to_valid_utf8 (fst m), read_back (snd m))) row) (None, zeroRow) = (None, eRow (wire_event e))"
    unfolding row_def wire zeroRow_def by (cases "rOld ?r = fmempty") (simp_all add: store_row_names(1-4) stored)
  then have "fold store_event_field (map (\<lambda>m. (to_valid_utf8 (fst m), read_back (snd m))) top) (None, zeroEvent) = (None, wire_event e)"
    unfolding top_def
    by (simp add: store_event_names store_time_def store_row_def zeroEvent_def rfc3339_roundtrip [OF t] tv)
      (simp add: wire)
  then show ?thesis by (simp add: unmarshal_event_def parsed)
qed

text \<open>
  Which values and events can be written: the floats are finite, the times are in the range of
  RFC 3339, and every type is supported.
\<close>

fun encodable :: "go_val \<Rightarrow> bool" where
  "encodable (VFloat32 w) \<longleftrightarrow> unat w mod 2 ^ 31 < 255 * 2 ^ 23"
| "encodable (VFloat64 w) \<longleftrightarrow> unat w mod 2 ^ 63 < 2047 * 2 ^ 52"
| "encodable (VTime t) \<longleftrightarrow> rfc3339_text 0 t \<noteq> None"
| "encodable (VSlice vs) \<longleftrightarrow> list_all encodable vs"
| "encodable (VMap ms) \<longleftrightarrow> list_all (\<lambda>m. encodable (snd m)) ms"
| "encodable (VOther s) \<longleftrightarrow> False"
| "encodable _ \<longleftrightarrow> True"

definition encodable_event :: "location \<Rightarrow> EventData \<Rightarrow> bool" where
  "encodable_event loc e \<longleftrightarrow>
     rfc3339_text (loc (eTime e)) (eTime e) \<noteq> None \<and>
     fmpred (\<lambda>_. encodable) (rData (eRow e)) \<and> fmpred (\<lambda>_. encodable) (rOld (eRow e))"

lemma isl_map_sum [simp]: "isl (map_sum id f x) \<longleftrightarrow> isl x"
  by (cases x) simp_all

lemma isl_or_error [simp]: "isl (or_error k v) \<longleftrightarrow> v = None"
  by (cases v) (simp_all add: or_error_def)

lemma isl_collect [simp]: "isl (collect xs) \<longleftrightarrow> (\<exists>x \<in> set xs. isl x)"
  by (induction xs) (auto split: sum.split)

lemma isl_value_json [simp]: "isl (value_json v) \<longleftrightarrow> \<not> encodable v"
  by (induction v rule: encodable.induct)
    (auto simp: float32_text_def float64_text_def Let_def list_all_iff)

lemma isl_row_json [simp]: "isl (row_json m) \<longleftrightarrow> \<not> fmpred (\<lambda>_. encodable) m"
proof -
  have "fmpred (\<lambda>_. encodable) m \<longleftrightarrow> list_all (\<lambda>(k, v). encodable v) (sorted_list_of_fmap m)"
    by (simp add: curry_def)
  then show ?thesis by (simp add: row_json_def list_all_iff case_prod_beta')
qed

lemma isl_marshal [simp]: "isl (marshal loc e) \<longleftrightarrow> \<not> encodable_event loc e"
proof -
  have "isl (event_json loc e) \<longleftrightarrow>
      rfc3339_text (loc (eTime e)) (eTime e) = None \<or> isl (row_json (rData (eRow e))) \<or> isl (row_json (rOld (eRow e)))"
    by (auto simp: event_json_def Let_def or_error_def simp del: isl_row_json split: option.split sum.split)
  then show ?thesis by (simp add: marshal_def encodable_event_def)
qed

text \<open>An event that can be written, and of which all rows hold cells only.\<close>

definition sendable :: "location \<Rightarrow> EventData \<Rightarrow> bool" where
  "sendable loc e \<longleftrightarrow> encodable_event loc e \<and> wire_row (rData (eRow e)) \<and> wire_row (rOld (eRow e))"

definition wire_text :: "location \<Rightarrow> EventData \<Rightarrow> string" where
  "wire_text loc e = projr (marshal loc e)"

lemma sendableD:
  assumes "sendable loc e"
  shows "marshal loc e = Inr (wire_text loc e)" and "unmarshal_event (wire_text loc e) = Inr (wire_event e)"
proof -
  have "\<not> isl (marshal loc e)" using assms by (simp add: sendable_def)
  then show m: "marshal loc e = Inr (wire_text loc e)" by (simp add: wire_text_def del: isl_marshal)
  show "unmarshal_event (wire_text loc e) = Inr (wire_event e)"
    using assms by (intro event_reads_back [OF m]) (simp_all add: sendable_def)
qed

section \<open>Errors and samples\<close>

text \<open>An event that is not written fails with one of the three errors \<open>encoding/json\<close> documents for that.\<close>

definition encoding_error :: "go_error \<Rightarrow> bool" where
  "encoding_error err \<longleftrightarrow>
     err \<in> JsonErr ` {JsonMarshalerError, JsonUnsupportedTypeError, JsonUnsupportedValueError}"

lemma map_sum_Inl: "map_sum id f x = Inl err \<longleftrightarrow> x = Inl err" "Inl err = map_sum id f x \<longleftrightarrow> x = Inl err"
  by (cases x; auto)+

lemma or_error_Inl [simp]: "or_error k v = Inl err \<longleftrightarrow> v = None \<and> err = JsonErr k"
  by (auto simp: or_error_def split: option.split)

lemma collect_Inl: "collect xs = Inl err \<Longrightarrow> Inl err \<in> set xs"
  by (induction xs) (auto split: sum.splits)

lemma value_json_error: "value_json v = Inl err \<Longrightarrow> encoding_error err"
  by (induction v rule: value_json.induct)
    (auto simp: encoding_error_def map_sum_Inl dest!: collect_Inl)

lemma row_json_error: "row_json m = Inl err \<Longrightarrow> encoding_error err"
  by (auto simp: row_json_def map_sum_Inl dest!: collect_Inl value_json_error)

lemma row_json_empty [simp]: "row_json fmempty = Inr (JObj [])"
  by (simp add: row_json_def sorted_list_of_fmap_def sorted_list_of_fset.rep_eq)

lemma marshal_error: "marshal loc e = Inl err \<Longrightarrow> encoding_error err"
  by (auto simp: marshal_def event_json_def Let_def map_sum_Inl encoding_error_def
      split: sum.splits dest: row_json_error [unfolded encoding_error_def])

lemma marshalIndent_error: "marshalIndent loc e = Inl err \<longleftrightarrow> marshal loc e = Inl err"
  by (simp add: marshal_def marshalIndent_def map_sum_Inl)

text \<open>Texts and events for the samples below: UTC, the zero event, and the text \<open>null\<close>, which decodes to it.\<close>

definition utc :: location where
  "utc = (\<lambda>_. 0)"

definition zero_text :: string where
  "zero_text = (case marshal utc zeroEvent of Inr s \<Rightarrow> s | Inl _ \<Rightarrow> [])"

lemma unmarshal_null [simp]: "unmarshal_event ''null'' = Inr zeroEvent"
proof -
  have "parse_json ''null'' = Some JNull" by code_simp
  then show ?thesis by (simp add: unmarshal_event_def)
qed

lemma unmarshal_empty [simp]: "unmarshal_event [] = Inl (JsonErr JsonSyntaxError)"
  by (simp add: unmarshal_event_def parse_json_def skip_def)

lemma marshal_zero [simp]: "marshal utc zeroEvent = Inr zero_text"
proof -
  have "rfc3339_text 0 zero_time = Some ''0001-01-01T00:00:00Z''" by code_simp
  then show ?thesis
    by (simp add: zero_text_def marshal_def event_json_def zeroEvent_def zeroRow_def utc_def or_error_def Let_def)
qed

section \<open>Properties\<close>

text \<open>
  C3. The wire format carries an event. An event of scalar cells is written exactly when its times
  are in the range of RFC 3339 and its floats are finite, and failing to write it is one of the
  errors \<open>encoding/json\<close> documents. The text of a written event is decoded, wherever the process
  that writes it is located, to the event with the same instant, position, server, database, table,
  kind and columns, and every cell as the wire carries it: integers and floats as the nearest
  \<open>float64\<close>, strings as they are, bytes in base 64, times as their RFC 3339 text.
\<close>

theorem event_roundtrip:
  assumes "wire_row (rData (eRow e))" and "wire_row (rOld (eRow e))"
  shows "case marshal loc e of
      Inr s \<Rightarrow> encodable_event loc e \<and> unmarshal_event s = Inr (wire_event e)
    | Inl err \<Rightarrow> \<not> encodable_event loc e \<and> encoding_error err"
  using isl_marshal [of loc e] marshal_error [of loc e] event_reads_back [OF _ assms]
  by (cases "marshal loc e") (auto simp del: isl_marshal)

text \<open>The witness: a change of a user, with an identifier, a name and a picture, captured in Berlin.\<close>

definition user_change :: EventData where
  "user_change =
     \<lparr>eTime = 1700000000123456789, eServerID = 1, ePos = 4096, eRow =
       \<lparr>rTime = 1700000000, rDatabase = ''app'', rTable = ''user'', rType = UpdateEventRowType,
        rData = fmap_of_list [(''id'', VInt KInt64 42), (''name'', VString ''Ada''), (''picture'', VBytes ''GIF'')],
        rOld = fmap_of_list [(''id'', VInt KInt64 42), (''name'', VNil)]\<rparr>\<rparr>"

theorem event_roundtrip_witness:
  "\<exists>s. marshal (\<lambda>_. 60) user_change = Inr s \<and>
    (\<exists>e. unmarshal_event s = Inr e \<and> eTime e = 1700000000123456789 \<and>
      fmlookup (rData (eRow e)) ''id'' = Some (VFloat64 (float_of_int 42)) \<and>
      fmlookup (rData (eRow e)) ''picture'' = Some (VString (base64 ''GIF'')))"
proof -
  have rows: "wire_row (rData (eRow user_change))" "wire_row (rOld (eRow user_change))"
    by (simp_all add: wire_row_def user_change_def wire_cell_def, code_simp+)
  have "civil 19675 = (2023, 11, 14)" by code_simp
  then have "rfc3339_text 60 (eTime user_change) \<noteq> None"
    by (simp add: rfc3339_text_def user_change_def Let_def)
  then have "encodable_event (\<lambda>_. 60) user_change" by (auto simp: encodable_event_def user_change_def fmpred_iff split: if_splits)
  with event_roundtrip [OF rows, of "\<lambda>_. 60"]
  show ?thesis
    by (auto simp: wire_event_def user_change_def wire_value_def fmmap_fmupd Let_def split: sum.splits)
qed

end
