(* ===== verification/Producer_Core.thy ===== *)
theory Producer_Core
  imports Event_Json
begin

text \<open>
  \<open>queue/producer/producer.go\<close>: the producer interface, the registry of producer types, the
  classification of errors and the retry loop with exponential backoff. Times are Go's
  \<open>time.Duration\<close>, a signed 64-bit number of nanoseconds, so that the wrap-around of the backoff
  is the code's.
\<close>

section \<open>The interface and the registry\<close>

record 'w IProducer =
  Send :: "'w ctx \<Rightarrow> EventData \<Rightarrow> 'w \<Rightarrow> go_error option \<times> 'w"
  CloseProducer :: "'w \<Rightarrow> go_error option \<times> 'w"

record RedisConfig =
  rcAddr :: string
  rcPassword :: string
  rcDB :: int
  rcKey :: string

record KafkaConfig =
  kcBrokers :: "string list"
  kcTopic :: string

record RabbitMQConfig =
  rmURL :: string
  rmExchange :: string
  rmExchangeType :: string
  rmRoutingKey :: string
  rmQueue :: string
  rmDurable :: bool
  rmAutoDelete :: bool
  rmAutoAck :: bool
  rmExclusive :: bool
  rmNoWait :: bool

record RocketMQConfig =
  rkServers :: "string list"
  rkTopic :: string
  rkGroup :: string
  rkRetry :: int
  rkNamespace :: string
  rkAccessKey :: string
  rkSecretKey :: string

record PulsarConfig =
  plURL :: string
  plTopic :: string
  plToken :: string
  plOperationTimeout :: int
  plConnectionTimeout :: int

record ProducerConfig =
  pcType :: string
  pcRedis :: RedisConfig
  pcKafka :: KafkaConfig
  pcRabbitMQ :: RabbitMQConfig
  pcRocketMQ :: RocketMQConfig
  pcPulsar :: PulsarConfig

text \<open>A creator builds a producer, which may reach the network: it fails or answers in a world.\<close>

type_synonym ('cfg, 'p, 'w) creator = "'cfg \<Rightarrow> 'w \<Rightarrow> (go_error + 'p) \<times> 'w"
type_synonym ('cfg, 'p, 'w) registry = "string \<rightharpoonup> ('cfg, 'p, 'w) creator"

definition Register :: "('cfg, 'p, 'w) registry \<Rightarrow> string \<Rightarrow> ('cfg, 'p, 'w) creator \<Rightarrow>
    ('cfg, 'p, 'w) registry" where
  "Register m ty fn = m(ty \<mapsto> fn)"

record ('p, 'w) producer_creators =
  newStdout :: "'w \<Rightarrow> (go_error + 'p) \<times> 'w"
  newRedis :: "(RedisConfig, 'p, 'w) creator"
  newKafka :: "(KafkaConfig, 'p, 'w) creator"
  newRabbitMQ :: "(RabbitMQConfig, 'p, 'w) creator"
  newRocketMQ :: "(RocketMQConfig, 'p, 'w) creator"
  newPulsar :: "(PulsarConfig, 'p, 'w) creator"

text \<open>The registrations of \<open>init\<close>, in their order.\<close>

definition producers :: "('p, 'w) producer_creators \<Rightarrow> (ProducerConfig, 'p, 'w) registry" where
  "producers k =
     (let m = Map.empty;
          m = Register m ''stdout'' (\<lambda>cfg. newStdout k);
          m = Register m ''redis'' (\<lambda>cfg. newRedis k (pcRedis cfg));
          m = Register m ''kafka'' (\<lambda>cfg. newKafka k (pcKafka cfg));
          m = Register m ''rabbitmq'' (\<lambda>cfg. newRabbitMQ k (pcRabbitMQ cfg));
          m = Register m ''rocketmq'' (\<lambda>cfg. newRocketMQ k (pcRocketMQ cfg));
          m = Register m ''pulsar'' (\<lambda>cfg. newPulsar k (pcPulsar cfg))
      in m)"

definition NewProducer :: "(ProducerConfig, 'p, 'w) registry \<Rightarrow> ProducerConfig \<Rightarrow> 'w \<Rightarrow>
    (go_error + 'p) \<times> 'w" where
  "NewProducer reg cfg w =
     (case reg (pcType cfg) of
        None \<Rightarrow> (Inl (ErrNew ''producer type %s is not registered'' [FStr (pcType cfg)]), w)
      | Some creator \<Rightarrow> creator cfg w)"

section \<open>Which errors a retry can help\<close>

definition isRetriable :: "go_error option \<Rightarrow> bool" where
  "isRetriable err =
     (case err of
        None \<Rightarrow> False
      | Some e \<Rightarrow>
          \<not> (errors_As_json e JsonSyntaxError \<or> errors_As_json e JsonMarshalerError \<or>
             errors_As_json e JsonUnsupportedTypeError \<or> errors_As_json e JsonUnsupportedValueError))"

section \<open>The backoff\<close>

type_synonym duration = "64 word"

definition Millisecond :: duration where "Millisecond = 1000000"
definition Second :: duration where "Second = 1000000000"

text \<open>
  \<open>time.Duration(math.Pow(2, n))\<close>: the power is exact in a float64; from \<open>2 ^ 63\<close> on the
  conversion to an int64 is implementation-specific in Go, so \<open>conv\<close> says what it gives there.
\<close>

definition duration_of_pow2 :: "(nat \<Rightarrow> duration) \<Rightarrow> nat \<Rightarrow> duration" where
  "duration_of_pow2 conv n = (if n < 63 then 2 ^ n else conv n)"

definition backoff :: "(nat \<Rightarrow> duration) \<Rightarrow> nat \<Rightarrow> duration" where
  "backoff conv i =
     (let b = duration_of_pow2 conv (i + 1) * 100 * Millisecond in
      if sint b > sint (2 * Second) then 2 * Second else b)"

section \<open>The retry loop\<close>

text \<open>
  What the loop meets outside: \<open>await d ctx w\<close> is the \<open>select\<close> between \<open>time.After(d)\<close> and
  \<open>ctx.Done()\<close>, \<open>True\<close> when the context's case was taken.
\<close>

record 'w retry_env =
  powConv :: "nat \<Rightarrow> duration"
  await :: "duration \<Rightarrow> 'w ctx \<Rightarrow> 'w \<Rightarrow> bool \<times> 'w"

function retryLoop :: "'w retry_env \<Rightarrow> 'w ctx \<Rightarrow> 'w IProducer \<Rightarrow> EventData \<Rightarrow> int \<Rightarrow> int \<Rightarrow>
    go_error option \<Rightarrow> 'w \<Rightarrow> go_error option \<times> 'w" where
  "retryLoop env ctx p event maxRetries i lastErr w =
     (if i \<le> maxRetries then
        (case Send p ctx event w of
           (None, w1) \<Rightarrow> (None, w1)
         | (Some err, w1) \<Rightarrow>
             if \<not> isRetriable (Some err) then (Some err, w1)
             else if i < maxRetries then
               (case await env (backoff (powConv env) (nat i)) ctx w1 of
                  (True, w2) \<Rightarrow> (ctx w2, w2)
                | (False, w2) \<Rightarrow> retryLoop env ctx p event maxRetries (i + 1) (Some err) w2)
             else retryLoop env ctx p event maxRetries (i + 1) (Some err) w1)
      else (lastErr, w))"
  by pat_completeness auto
termination
  by (relation "measure (\<lambda>(env, ctx, p, event, maxRetries, i, lastErr, w). nat (maxRetries + 1 - i))") auto

declare retryLoop.simps [simp del]

definition SendWithRetry :: "'w retry_env \<Rightarrow> 'w ctx \<Rightarrow> 'w IProducer \<Rightarrow> EventData \<Rightarrow> int \<Rightarrow> 'w \<Rightarrow>
    go_error option \<times> 'w" where
  "SendWithRetry env ctx p event maxRetries w = retryLoop env ctx p event maxRetries 0 None w"

section \<open>Lemmas\<close>

lemma isRetriable_None [simp]: "\<not> isRetriable None"
  by (simp add: isRetriable_def)

lemma isRetriable_Wrap [simp]: "isRetriable (Some (Wrap m xs e)) = isRetriable (Some e)"
  by (simp add: isRetriable_def)

lemma retryLoop_stop: "maxRetries < i \<Longrightarrow> retryLoop env ctx p event maxRetries i lastErr w = (lastErr, w)"
  by (simp add: retryLoop.simps)

lemma retryLoop_last:
  "retryLoop env ctx p event maxRetries maxRetries lastErr w = Send p ctx event w"
  by (subst retryLoop.simps)
    (simp add: retryLoop_stop split: prod.split option.split)

lemma retryLoop_final [simp]:
  "i \<le> maxRetries \<Longrightarrow> Send p ctx event w = (e, w1) \<Longrightarrow> \<not> isRetriable e \<Longrightarrow>
   retryLoop env ctx p event maxRetries i lastErr w = (e, w1)"
  by (subst retryLoop.simps) (cases e; auto)

lemma retryLoop_again:
  "i < maxRetries \<Longrightarrow> Send p ctx event w = (e, w1) \<Longrightarrow> isRetriable e \<Longrightarrow>
   retryLoop env ctx p event maxRetries i lastErr w =
     (case await env (backoff (powConv env) (nat i)) ctx w1 of
        (True, w2) \<Rightarrow> (ctx w2, w2)
      | (False, w2) \<Rightarrow> retryLoop env ctx p event maxRetries (i + 1) e w2)"
  by (subst retryLoop.simps) (cases e; auto split: prod.split bool.split)

text \<open>Induction over the attempts of one call.\<close>

lemma retryLoop_induct [consumes 1, case_names last final canceled again]:
  assumes "i \<le> maxRetries"
    and "\<And>w. P maxRetries w (Send p ctx event w)"
    and "\<And>i w e w1. i < maxRetries \<Longrightarrow> Send p ctx event w = (e, w1) \<Longrightarrow> \<not> isRetriable e \<Longrightarrow> P i w (e, w1)"
    and "\<And>i w e w1 w2. i < maxRetries \<Longrightarrow> Send p ctx event w = (e, w1) \<Longrightarrow> isRetriable e \<Longrightarrow>
      await env (backoff (powConv env) (nat i)) ctx w1 = (True, w2) \<Longrightarrow> P i w (ctx w2, w2)"
    and "\<And>i w e w1 w2 r. i < maxRetries \<Longrightarrow> Send p ctx event w = (e, w1) \<Longrightarrow> isRetriable e \<Longrightarrow>
      await env (backoff (powConv env) (nat i)) ctx w1 = (False, w2) \<Longrightarrow> P (i + 1) w2 r \<Longrightarrow> P i w r"
  shows "P i w (retryLoop env ctx p event maxRetries i lastErr w)"
  using assms(1)
proof (induction "nat (maxRetries - i)" arbitrary: i lastErr w)
  case 0
  then show ?case using assms(2) by (simp add: retryLoop_last)
next
  case (Suc n)
  then have lt: "i < maxRetries" by simp
  obtain e w1 where s: "Send p ctx event w = (e, w1)" by fastforce
  obtain done' w2 where a: "await env (backoff (powConv env) (nat i)) ctx w1 = (done', w2)" by fastforce
  show ?case
  proof (cases "isRetriable e")
    case False
    with lt s show ?thesis using assms(3) by simp
  next
    case True
    have "P (i + 1) w2 (retryLoop env ctx p event maxRetries (i + 1) e w2)"
      using Suc.hyps lt by simp
    with True lt s a show ?thesis
      using assms(4,5) by (cases done') (auto simp: retryLoop_again)
  qed
qed




lemma sint_word_of_int_small:
  "0 \<le> k \<Longrightarrow> k < 2 ^ 63 \<Longrightarrow> sint (word_of_int k :: duration) = k"
  by (simp add: sint_sbintrunc' signed_take_bit_int_eq_self)

lemma backoff_product:
  "i < 62 \<Longrightarrow> duration_of_pow2 conv (i + 1) * 100 * Millisecond = word_of_int (2 ^ (i + 1) * 100000000)"
  by (simp add: duration_of_pow2_def Millisecond_def)

section \<open>Properties\<close>

text \<open>
  The cap ends where the product wraps: for the attempt 36 the product exceeds an int64, the
  duration is negative, and the comparison with two seconds does not catch it.
\<close>

lemma backoff_wraps: "sint (backoff conv 36) < 0"
  by (simp add: backoff_def duration_of_pow2_def Millisecond_def Second_def)

lemma backoff_below:
  assumes "i < 36"
  shows "sint (backoff conv i) = min (2 ^ (i + 1) * 100 * sint Millisecond) (2 * sint Second)"
proof -
  let ?n = "2 ^ (i + 1) * 100000000 :: int"
  have "(2 :: int) ^ (i + 1) \<le> 2 ^ 36" using assms by (intro power_increasing) simp_all
  then have "?n < 2 ^ 63" by simp
  then have n: "sint (word_of_int ?n :: duration) = ?n" by (intro sint_word_of_int_small) simp_all
  have two: "sint (2 * Second) = 2000000000" by (simp add: Second_def)
  have units: "sint Millisecond = 1000000" "sint Second = 1000000000"
    by (simp_all add: Second_def Millisecond_def)
  have b: "duration_of_pow2 conv (i + 1) * 100 * Millisecond = word_of_int ?n"
    using assms by (intro backoff_product) simp
  have "sint (backoff conv i) = (if ?n > 2000000000 then 2000000000 else ?n)"
    unfolding backoff_def Let_def b n two by (simp only: if_distrib [of sint] n two)
  then show ?thesis by (simp add: units min_def)
qed

text \<open>
  C25. The backoff. Up to the thirty-sixth retry the wait after the attempt \<open>i\<close> is \<open>2 ^ (i + 1)\<close>
  times 100 milliseconds, capped at two seconds: never negative, never above the cap, and free
  of any wrap-around of the 64-bit product. For the attempt 36 the product wraps to a negative
  duration, which the cap does not catch, so a caller with \<open>maxRetries\<close> above 36 would retry
  without any pause.
\<close>

theorem backoff_capped:
  "(i < 36 \<longrightarrow> sint (backoff conv i) = min (2 ^ (i + 1) * 100 * sint Millisecond) (2 * sint Second)) \<and>
   sint (backoff conv 36) < 0"
  using backoff_below backoff_wraps by blast

theorem backoff_capped_witness:
  "map (\<lambda>i. sint (backoff (\<lambda>_. 0) i)) [0, 1, 2, 35] = [200000000, 400000000, 800000000, 2000000000] \<and>
   sint (backoff (\<lambda>_. 0) 36) < 0"
  by (simp add: backoff_capped [THEN conjunct1, rule_format] backoff_capped [THEN conjunct2] Second_def Millisecond_def)

text \<open>
  C26. One call of \<open>SendWithRetry\<close> sends at least once and at most \<open>maxRetries + 1\<close> times,
  whatever the producer answers and whenever the context ends.
\<close>

theorem SendWithRetry_attempts:
  assumes "\<And>w. sends (snd (Send p ctx event w)) = sends w + (1 :: int)"
    and "\<And>d w. sends (snd (await env d ctx w)) = sends w" and "0 \<le> maxRetries"
  shows "sends w + 1 \<le> sends (snd (SendWithRetry env ctx p event maxRetries w)) \<and>
    sends (snd (SendWithRetry env ctx p event maxRetries w)) \<le> sends w + maxRetries + 1"
proof -
  define P where "P i w r \<longleftrightarrow> sends w + 1 \<le> sends (snd r) \<and>
      sends (snd r) \<le> sends w + (maxRetries - i) + 1" for i w and r :: "go_error option \<times> 'a"
  have send: "Send p ctx event w = (e, w1) \<Longrightarrow> sends w1 = sends w + 1" for w e w1
    using assms(1) [of w] by simp
  have wait: "await env d ctx w = (b, w2) \<Longrightarrow> sends w2 = sends w" for d w b w2
    using assms(2) [of d w] by simp
  have "P 0 w (retryLoop env ctx p event maxRetries 0 None w)"
    by (rule retryLoop_induct [where P = P, OF assms(3)]) (auto simp: P_def assms(1) dest!: send wait)
  then show ?thesis by (simp add: SendWithRetry_def P_def)
qed

definition scripted :: "(nat \<Rightarrow> go_error option) \<Rightarrow> nat IProducer" where
  "scripted answers = \<lparr>Send = (\<lambda>_ _ n. (answers n, Suc n)), CloseProducer = (\<lambda>n. (None, n))\<rparr>"

definition patient :: "'w retry_env" where
  "patient = \<lparr>powConv = (\<lambda>_. 0), await = (\<lambda>_ _ w. (False, w))\<rparr>"

theorem SendWithRetry_attempts_witness:
  "int 0 + 1 \<le> int (snd (SendWithRetry patient (\<lambda>_. None) (scripted (\<lambda>_. Some IoEOF)) zeroEvent 3 0)) \<and>
   int (snd (SendWithRetry patient (\<lambda>_. None) (scripted (\<lambda>_. Some IoEOF)) zeroEvent 3 0)) \<le> int 0 + 3 + 1"
  by (rule SendWithRetry_attempts) (simp_all add: scripted_def patient_def)

text \<open>
  What the retry loop reports is true of its last act: it reports what the producer
  answered to the last send, or, when the context ended during a wait, the context's error.
  So nil means that the last send was accepted, and nothing is sent after an accepted send.
\<close>

lemma SendWithRetry_nil_means_sent:
  assumes "SendWithRetry env ctx p event maxRetries w = (None, w')" and "0 \<le> maxRetries"
    and "\<And>d w w'. await env d ctx w = (True, w') \<Longrightarrow> ctx w' \<noteq> None"
  shows "\<exists>w0. Send p ctx event w0 = (None, w')"
proof -
  define P where "P r \<longleftrightarrow> (\<exists>w0. Send p ctx event w0 = r) \<or> (\<exists>e. ctx (snd r) = Some e \<and> fst r = Some e)"
    for r :: "go_error option \<times> 'a"
  have "P (retryLoop env ctx p event maxRetries 0 None w)"
    by (rule retryLoop_induct [where P = "\<lambda>i w. P", OF assms(2)]) (use assms(3) in \<open>fastforce simp: P_def\<close>)+
  with assms(1) show ?thesis by (auto simp: SendWithRetry_def P_def)
qed

lemma SendWithRetry_nil_means_sent_witness:
  "\<exists>w0. Send (scripted (\<lambda>n. if n < 2 then Some IoEOF else None)) (\<lambda>_. None) zeroEvent w0 = (None, 3)"
proof (rule SendWithRetry_nil_means_sent [where env = patient and maxRetries = 3 and w = 0])
  show "SendWithRetry patient (\<lambda>_. None) (scripted (\<lambda>n. if n < 2 then Some IoEOF else None)) zeroEvent 3 0 = (None, 3)"
    by (simp add: SendWithRetry_def retryLoop.simps scripted_def patient_def isRetriable_def)
qed (simp_all add: patient_def)

text \<open>
  C12. The outcome when the context stays alive, in full: let the \<open>k\<close>-th send of the call answer
  \<open>answers k\<close>. The loop stops at the first answer that is nil or not retriable, or else at the
  attempt \<open>maxRetries\<close>, and reports that answer after exactly that many sends.
\<close>

definition stopping_attempt :: "(nat \<Rightarrow> go_error option) \<Rightarrow> nat \<Rightarrow> nat" where
  "stopping_attempt answers n =
     (case List.find (\<lambda>k. \<not> isRetriable (answers k)) [0..<n] of Some k \<Rightarrow> k | None \<Rightarrow> n)"

theorem SendWithRetry_outcome:
  assumes "\<And>w. Send p ctx event w = (answers (sent w), snd (Send p ctx event w))"
    and "\<And>w. sent (snd (Send p ctx event w)) = Suc (sent w)"
    and "\<And>d w. \<not> fst (await env d ctx w) \<and> sent (snd (await env d ctx w)) = sent w"
    and "sent w = 0"
  shows "fst (SendWithRetry env ctx p event (int n) w) = answers (stopping_attempt answers n) \<and>
    sent (snd (SendWithRetry env ctx p event (int n) w)) = Suc (stopping_attempt answers n)"
proof -
  define P where "P i w r \<longleftrightarrow> (sent w = nat i \<longrightarrow> (\<forall>k < nat i. isRetriable (answers k)) \<longrightarrow>
      fst r = answers (stopping_attempt answers n) \<and> sent (snd r) = Suc (stopping_attempt answers n))"
    for i w and r :: "go_error option \<times> 'a"
  have send: "Send p ctx event w = (e, w1) \<Longrightarrow> e = answers (sent w) \<and> sent w1 = Suc (sent w)" for w e w1
    using assms(1,2) [of w] by (metis fst_conv snd_conv)
  have stop_last: "stopping_attempt answers n = n" if "\<forall>k < n. isRetriable (answers k)"
    using that by (auto simp: stopping_attempt_def find_None_iff split: option.split dest!: find_Some_iff [THEN iffD1])
  have stop_at: "stopping_attempt answers n = i"
    if "i < n" "\<forall>k < i. isRetriable (answers k)" "\<not> isRetriable (answers i)" for i
    using that by (auto simp: stopping_attempt_def find_None_iff find_Some_iff split: option.split)
      (metis linorder_neqE_nat)+
  have alive: "await env d ctx w1 \<noteq> (True, w2)" and wait: "await env d ctx w1 = (False, w2) \<Longrightarrow> sent w2 = sent w1"
    for d w1 w2 using assms(3) [of d w1] by auto
  define Q where "Q i w r \<longleftrightarrow> (0 \<le> i \<longrightarrow> P i w r)" for i w and r :: "go_error option \<times> 'a"
  have "Q 0 w (retryLoop env ctx p event (int n) 0 None w)"
  proof (rule retryLoop_induct [where P = Q, OF of_nat_0_le_iff], goal_cases)
    case (1 w)
    then show ?case using send [of w] by (cases "Send p ctx event w") (auto simp: P_def Q_def stop_last)
  next
    case (2 i w e w1)
    then show ?case using send [of w e w1] stop_at [of "nat i"] by (auto simp: P_def Q_def)
  next
    case (3 i w e w1 w2)
    then show ?case using alive by blast
  next
    case (4 i w e w1 w2 r)
    then show ?case using send [of w e w1] wait [of _ w1 w2]
      by (auto simp: P_def Q_def nat_add_distrib less_Suc_eq)
  qed
  then have "P 0 w (retryLoop env ctx p event (int n) 0 None w)" by (simp add: Q_def)
  with assms(4) show ?thesis by (simp add: SendWithRetry_def P_def)
qed

theorem SendWithRetry_outcome_witness:
  "fst (SendWithRetry patient (\<lambda>_. None) (scripted (\<lambda>n. if n < 2 then Some IoEOF else None)) zeroEvent (int 3) 0) = None \<and>
   snd (SendWithRetry patient (\<lambda>_. None) (scripted (\<lambda>n. if n < 2 then Some IoEOF else None)) zeroEvent (int 3) 0) = 3"
proof -
  let ?a = "\<lambda>n :: nat. if n < 2 then Some IoEOF else None"
  have stop: "stopping_attempt ?a 3 = 2"
    by (simp add: stopping_attempt_def isRetriable_def upt_rec numeral_3_eq_3)
  have "fst (SendWithRetry patient (\<lambda>_. None) (scripted ?a) zeroEvent (int 3) 0) = ?a (stopping_attempt ?a 3) \<and>
      id (snd (SendWithRetry patient (\<lambda>_. None) (scripted ?a) zeroEvent (int 3) 0)) = Suc (stopping_attempt ?a 3)"
    by (rule SendWithRetry_outcome) (simp_all add: scripted_def patient_def)
  then show ?thesis by (simp add: stop)
qed

text \<open>
  The configured type decides the constructor: a registered name reaches exactly its own
  constructor with its own section of the configuration, and any other name is an error that
  builds nothing and touches nothing.
\<close>

lemma NewProducer_dispatch:
  "NewProducer (producers k) cfg w =
     (if pcType cfg = ''stdout'' then newStdout k w
      else if pcType cfg = ''redis'' then newRedis k (pcRedis cfg) w
      else if pcType cfg = ''kafka'' then newKafka k (pcKafka cfg) w
      else if pcType cfg = ''rabbitmq'' then newRabbitMQ k (pcRabbitMQ cfg) w
      else if pcType cfg = ''rocketmq'' then newRocketMQ k (pcRocketMQ cfg) w
      else if pcType cfg = ''pulsar'' then newPulsar k (pcPulsar cfg) w
      else (Inl (ErrNew ''producer type %s is not registered'' [FStr (pcType cfg)]), w))"
  by (simp add: NewProducer_def producers_def Register_def)

end
