(* ===== verification/Cli.thy ===== *)
theory Cli
  imports Prelude
begin

text \<open>
  The command-line library \<open>github.com/chihqiang/cli\<close> as the code uses it: the values it fills in and
  reads. How it parses a command line and what it runs is not here: it is outside the repository.
\<close>

text \<open>What a command is given: the value of a flag, and the arguments.\<close>

record cli_input =
  inString :: "string \<Rightarrow> string"
  inArgs :: "string list"

record cli_flag =
  flName :: string
  flAliases :: "string list"
  flUsage :: string
  flValue :: string

text \<open>The values a command's context carries, beside its end: \<open>context.WithValue\<close>.\<close>

type_synonym 'v context_values = "string \<rightharpoonup> 'v"

type_synonym ('v, 'w) cli_action = "'v context_values \<Rightarrow> 'w ctx \<Rightarrow> cli_input \<Rightarrow> 'w \<Rightarrow> go_error option \<times> 'w"

record ('v, 'w) cli_command =
  cmdName :: string
  cmdUsage :: string
  cmdArgsUsage :: string
  cmdFlags :: "cli_flag list"
  cmdAction :: "('v, 'w) cli_action"

text \<open>The facts of \<open>runtime\<close> a version line shows.\<close>

record build =
  buildGo :: string
  buildOS :: string
  buildArch :: string

record ('v, 'w) cli_app =
  appName :: string
  appUsage :: string
  appVersion :: string
  appVersionPrinter :: "build \<Rightarrow> string"
  appFlags :: "cli_flag list"
  appBefore :: "cli_input \<Rightarrow> 'v context_values \<Rightarrow> 'v context_values \<times> go_error option"
  appSubcommands :: "('v, 'w) cli_command list"
  appAction :: "('v, 'w) cli_action"

text \<open>\<open>signal.NotifyContext\<close>: the context is over when the parent is, or once a signal arrived.\<close>

definition NotifyContext :: "('w \<Rightarrow> bool) \<Rightarrow> 'w ctx \<Rightarrow> 'w ctx" where
  "NotifyContext signalled ctx w =
     (case ctx w of Some err \<Rightarrow> Some err | None \<Rightarrow> if signalled w then Some CtxCanceled else None)"

end
