(* ===== verification/Setup.thy ===== *)
theory Setup
  imports Source_Life Producer_Core Cli
begin

text \<open>
  \<open>config/config.go\<close>, \<open>cmd/before.go\<close>, \<open>cmd/flags.go\<close> and \<open>cmd/setup.go\<close>: loading the configuration
  and creating and closing the three components of the listening program. The reader of
  configuration files is a parameter, and so are the registries of stores and producers, which
  the theories of those components fill.
\<close>

record Config =
  cfStore :: StoreConfig
  cfSource :: SourceConfig
  cfProducer :: ProducerConfig

definition config_Load :: "(string \<Rightarrow> go_error + Config) \<Rightarrow> string \<Rightarrow> go_error + Config" where
  "config_Load LoadFile path =
     (case LoadFile path of
        Inl err \<Rightarrow> Inl (Wrap ''failed to load configuration from %s: %w'' [FStr path] err)
      | Inr cfg \<Rightarrow> Inr cfg)"

text \<open>The flag of the root command, and the configuration it puts into the context of the commands.\<close>

definition FlagConfig :: string where
  "FlagConfig = ''config''"

definition Flags :: "cli_flag list" where
  "Flags =
     [\<lparr>flName = FlagConfig, flAliases = [''c''], flUsage = ''Load configuration from `FILE`'', flValue = ''config.yml''\<rparr>]"

definition Before :: "(string \<Rightarrow> go_error + Config) \<Rightarrow> cli_input \<Rightarrow> Config context_values \<Rightarrow>
    Config context_values \<times> go_error option" where
  "Before LoadFile inp vals =
     (case config_Load LoadFile (inString inp FlagConfig) of
        Inl err \<Rightarrow> (vals, Some err)
      | Inr conf \<Rightarrow> (vals(''config'' \<mapsto> conf), None))"

text \<open>The listen command needs the configuration that \<open>Before\<close> put into the context.\<close>

definition ListenCommand :: "('w ctx \<Rightarrow> Config \<Rightarrow> 'w \<Rightarrow> go_error option \<times> 'w) \<Rightarrow> (Config, 'w) cli_command" where
  "ListenCommand run =
     \<lparr>cmdName = ''listen'', cmdUsage = ''Listen to CDC events without sending them to any producer'', cmdArgsUsage = [],
      cmdFlags = [],
      cmdAction = (\<lambda>vals ctx inp w.
        case vals ''config'' of
          None \<Rightarrow> (Some (ErrNew ''config not found in context'' []), w)
        | Some cfg \<Rightarrow> run ctx cfg w)\<rparr>"

section \<open>Creating and closing the components\<close>

record 'w components =
  cmSource :: "'w MySQLSource"
  cmStore :: "'w IStore"
  cmProducer :: "'w IProducer"

record 'w registries =
  rgStores :: "('w IStore, 'w) store_registry"
  rgCanal :: "'w canal_lib"
  rgProducers :: "(ProducerConfig, 'w IProducer, 'w) registry"

definition SetupComponents :: "'w registries \<Rightarrow> Config \<Rightarrow> 'w \<Rightarrow> ((go_error + 'w components) \<times> 'w) outcome" where
  "SetupComponents rg cfg w =
     (case NewStore (rgStores rg) (cfStore cfg) w of
        (Inl err, w1) \<Rightarrow> Returns (Inl (Wrap ''failed to create store: %w'' [] err), w1)
      | (Inr iStore, w1) \<Rightarrow>
          (case NewSource (rgCanal rg) (cfSource cfg) w1 of
             (Inl err, w2) \<Rightarrow>
               (case CloseStore iStore w2 of
                  (cerr, w3) \<Rightarrow> Returns (Inl (Wrap ''failed to create source: %w'' [] err), w3))
           | (Inr iSource, w2) \<Rightarrow>
               (let iSource = WithStore iSource iStore in
                case NewProducer (rgProducers rg) (cfProducer cfg) w2 of
                  (Inl err, w3) \<Rightarrow>
                    (case Source_Close iSource w3 of
                       Panics m \<Rightarrow> Panics m
                     | Returns (cerr, iSource', w4) \<Rightarrow>
                         (case CloseStore iStore w4 of
                            (cerr, w5) \<Rightarrow> Returns (Inl (Wrap ''failed to create producer: %w'' [] err), w5)))
                | (Inr iProducer, w3) \<Rightarrow>
                    Returns (Inr \<lparr>cmSource = iSource, cmStore = iStore, cmProducer = iProducer\<rparr>, w3))))"

definition CloseSetupComponents :: "'w MySQLSource \<Rightarrow> 'w IStore \<Rightarrow> 'w IProducer \<Rightarrow> 'w \<Rightarrow>
    ('w MySQLSource \<times> 'w) outcome" where
  "CloseSetupComponents iSource iStore iProducer w =
     (case Source_Close iSource w of
        Panics m \<Rightarrow> Panics m
      | Returns (err, iSource', w1) \<Rightarrow>
          (case CloseStore iStore w1 of
             (err, w2) \<Rightarrow> (case CloseProducer iProducer w2 of (err, w3) \<Rightarrow> Returns (iSource', w3))))"

section \<open>What is open\<close>

text \<open>
  The stores and canals that are open, counted in the world. A constructor that succeeds opens one,
  closing closes it, and nothing else changes the counts.
\<close>

record 'w counts =
  openStores :: "'w \<Rightarrow> int"
  openCanals :: "'w \<Rightarrow> int"

definition same_counts :: "'w counts \<Rightarrow> 'w \<Rightarrow> 'w \<Rightarrow> bool" where
  "same_counts n w w' \<longleftrightarrow> openStores n w' = openStores n w \<and> openCanals n w' = openCanals n w"

definition store_counted :: "'w counts \<Rightarrow> ('w IStore, 'w) store_registry \<Rightarrow> StoreConfig \<Rightarrow> bool" where
  "store_counted n reg cfg \<longleftrightarrow>
     (\<forall>w. case NewStore reg cfg w of
        (Inl err, w1) \<Rightarrow> same_counts n w w1
      | (Inr st, w1) \<Rightarrow>
          openStores n w1 = openStores n w + 1 \<and> openCanals n w1 = openCanals n w \<and>
          (\<forall>v. openStores n (snd (CloseStore st v)) = openStores n v - 1 \<and>
               openCanals n (snd (CloseStore st v)) = openCanals n v))"

definition canal_counted :: "'w counts \<Rightarrow> 'w canal_lib \<Rightarrow> bool" where
  "canal_counted n lib \<longleftrightarrow>
     (\<forall>cc w. case NewCanal lib cc w of
        (Inl err, w1) \<Rightarrow> same_counts n w w1
      | (Inr c, w1) \<Rightarrow>
          openStores n w1 = openStores n w \<and> openCanals n w1 = openCanals n w + 1 \<and>
          (\<forall>v. openStores n (CloseCanal c v) = openStores n v \<and> openCanals n (CloseCanal c v) = openCanals n v - 1))"

definition producer_counted :: "'w counts \<Rightarrow> (ProducerConfig, 'w IProducer, 'w) registry \<Rightarrow> ProducerConfig \<Rightarrow> bool" where
  "producer_counted n reg cfg \<longleftrightarrow>
     (\<forall>w. case NewProducer reg cfg w of
        (Inl err, w1) \<Rightarrow> same_counts n w w1
      | (Inr p, w1) \<Rightarrow> same_counts n w w1 \<and> (\<forall>v. same_counts n v (snd (CloseProducer p v))))"

text \<open>A source that never ran is left as it is by \<open>Close\<close>, its canal included.\<close>

lemma Close_before_Run: "\<not> msRunning s \<Longrightarrow> Source_Close s w = Returns (None, s, w)"
  by (simp add: Source_Close_def source_stop_def)

lemma NewSource_fresh:
  "NewSource lib cfg w = (Inr s, w') \<Longrightarrow> \<not> msRunning s \<and> msStore s = None \<and> source_ok s \<and> \<not> chClosed (msChan s) \<and>
     (\<exists>c cc. msCanal s = Some c \<and> NewCanal lib cc w = (Inr c, w'))"
  by (auto simp: NewSource_def NewMySQLSource_def source_ok_def make_chan_def Let_def split: prod.splits sum.splits if_splits)

lemma store_countedD:
  assumes "store_counted n reg cfg"
  shows "NewStore reg cfg w = (Inl err, w1) \<Longrightarrow> same_counts n w w1"
    and "NewStore reg cfg w = (Inr st, w1) \<Longrightarrow> openStores n w1 = openStores n w + 1 \<and> openCanals n w1 = openCanals n w \<and>
      (CloseStore st v = (e, v1) \<longrightarrow> openStores n v1 = openStores n v - 1 \<and> openCanals n v1 = openCanals n v)"
  using assms [unfolded store_counted_def, THEN spec, of w] by (simp_all, metis snd_conv)

lemma canal_countedD:
  assumes "canal_counted n lib"
  shows "NewCanal lib cc w = (Inl err, w1) \<Longrightarrow> same_counts n w w1"
    and "NewCanal lib cc w = (Inr c, w1) \<Longrightarrow> openStores n w1 = openStores n w \<and> openCanals n w1 = openCanals n w + 1"
  using assms [unfolded canal_counted_def, THEN spec, THEN spec, of w cc] by simp_all

lemma producer_countedD:
  assumes "producer_counted n reg cfg" and "NewProducer reg cfg w = (r, w1)"
  shows "same_counts n w w1"
  using assms(1) [unfolded producer_counted_def, THEN spec, of w] assms(2) by (cases r) simp_all

lemma NewSource_counted:
  assumes "canal_counted n lib" and "NewSource lib cfg w = (r, w')"
  shows "openStores n w' = openStores n w \<and> openCanals n w' = openCanals n w + (case r of Inl _ \<Rightarrow> 0 | Inr _ \<Rightarrow> 1)"
proof (cases r)
  case (Inl e)
  with assms(2) canal_countedD(1) [OF assms(1)] show ?thesis
    by (fastforce simp: NewSource_def NewMySQLSource_def same_counts_def Let_def split: prod.splits sum.splits if_splits)
next
  case (Inr s)
  with NewSource_fresh [of lib cfg w s w'] assms(2) canal_countedD(2) [OF assms(1)] show ?thesis by auto
qed

section \<open>Properties\<close>

text \<open>
  C39. What a failed setup leaves open. When any of the three components cannot be created,
  \<open>SetupComponents\<close> is an error that says which, and every store it opened is closed again. The
  canal is not: when the producer cannot be created the source is closed, but closing a source
  that never ran does nothing. A setup that succeeds has opened one store and one canal.
\<close>

theorem setup_leaves_open:
  assumes "store_counted n (rgStores rg) (cfStore cfg)" and "canal_counted n (rgCanal rg)"
    and "producer_counted n (rgProducers rg) (cfProducer cfg)"
  shows "\<exists>r w'. SetupComponents rg cfg w = Returns (r, w') \<and>
    (case r of
       Inl e \<Rightarrow> openStores n w' = openStores n w \<and>
         ((\<exists>err. e = Wrap ''failed to create producer: %w'' [] err) \<and> openCanals n w' = openCanals n w + 1 \<or>
          (\<exists>err. e = Wrap ''failed to create store: %w'' [] err \<or> e = Wrap ''failed to create source: %w'' [] err) \<and>
            openCanals n w' = openCanals n w)
     | Inr c \<Rightarrow> openStores n w' = openStores n w + 1 \<and> openCanals n w' = openCanals n w + 1 \<and>
         msStore (cmSource c) = Some (cmStore c) \<and> \<not> msRunning (cmSource c) \<and> \<not> chClosed (msChan (cmSource c)))"
proof -
  obtain rs w1 where store: "NewStore (rgStores rg) (cfStore cfg) w = (rs, w1)" by fastforce
  show ?thesis
  proof (cases rs)
    case (Inl err)
    with store_countedD(1) [OF assms(1)] store show ?thesis by (simp add: SetupComponents_def same_counts_def)
  next
    case (Inr st)
    note opened = store_countedD(2) [OF assms(1) store [unfolded Inr]]
    obtain rc w2 where src: "NewSource (rgCanal rg) (cfSource cfg) w1 = (rc, w2)" by fastforce
    note canal = NewSource_counted [OF assms(2) src]
    show ?thesis
    proof (cases rc)
      case (Inl err)
      obtain e w3 where "CloseStore st w2 = (e, w3)" by fastforce
      with opened [of w2 e w3] canal Inl Inr store src show ?thesis by (simp add: SetupComponents_def)
    next
      case (Inr s)
      note fresh = NewSource_fresh [OF src [unfolded Inr]]
      obtain rp w3 where prod: "NewProducer (rgProducers rg) (cfProducer cfg) w2 = (rp, w3)" by fastforce
      note kept = producer_countedD [OF assms(3) prod]
      have idle: "\<not> msRunning (WithStore s st)" using fresh by (simp add: WithStore_def)
      obtain e w4 where "CloseStore st w3 = (e, w4)" by fastforce
      with opened [of w3 e w4] canal kept Close_before_Run [OF idle] store src prod fresh Inr \<open>rs = Inr st\<close>
      show ?thesis
        by (cases rp) (simp_all add: SetupComponents_def same_counts_def Let_def WithStore_def)
    qed
  qed
qed

text \<open>The witness: a store and a canal that only count, and no producer of the configured type.\<close>

definition counting_store :: "(int \<times> int) IStore" where
  "counting_store =
     \<lparr>SetKey = (\<lambda>_ _ w. (None, w)), GetKey = (\<lambda>_ w. (Inl RedisNil, w)), HasKey = (\<lambda>_ w. (False, w)),
      DeleteKey = (\<lambda>_ w. (None, w)), CloseStore = (\<lambda>(a, b). (None, (a - 1, b)))\<rparr>"

definition counting_registries :: "(int \<times> int) registries" where
  "counting_registries =
     \<lparr>rgStores = RegisterStore Map.empty ''file'' (\<lambda>_ (a, b). (Inr counting_store, (a + 1, b))),
      rgCanal =
        \<lparr>NewDefaultConfig =
           \<lparr>cnAddr = '''', cnUser = '''', cnPassword = '''', cnDumpPath = '''', cnExclude = [], cnInclude = []\<rparr>,
         NewCanal = (\<lambda>_ (a, b).
           (Inr \<lparr>GetMasterPos = (\<lambda>w. (Inl IoEOF, w)), CloseCanal = (\<lambda>(a, b). (a, b - 1))\<rparr>, (a, b + 1))),
         LookPath = (\<lambda>_ _. None)\<rparr>,
      rgProducers = Map.empty\<rparr>"

definition counting_config :: Config where
  "counting_config =
     \<lparr>cfStore = \<lparr>scType = ''file'', scFile = \<lparr>sfDir = ''d''\<rparr>, scRedis = \<lparr>srAddr = '''', srPassword = '''', srDB = 0\<rparr>\<rparr>,
      cfSource = \<lparr>soType = ''mysql'', soMysql =
        \<lparr>mcAddr = '''', mcUser = '''', mcPassword = '''', mcExcludeTableRegex = [], mcIncludeTableRegex = []\<rparr>\<rparr>,
      cfProducer = undefined\<rparr>"

theorem setup_leaves_open_witness:
  "\<exists>e w'. SetupComponents counting_registries counting_config (0, 0) = Returns (Inl e, w') \<and> w' = (0, 1)"
proof -
  let ?n = "\<lparr>openStores = fst, openCanals = snd\<rparr>"
  have counted: "store_counted ?n (rgStores counting_registries) (cfStore counting_config)"
    "canal_counted ?n (rgCanal counting_registries)"
    "producer_counted ?n (rgProducers counting_registries) (cfProducer counting_config)"
    by (auto simp: store_counted_def canal_counted_def producer_counted_def same_counts_def counting_registries_def
        counting_config_def counting_store_def NewStore_def RegisterStore_def NewProducer_def split: prod.split)
  obtain e w' where run: "SetupComponents counting_registries counting_config (0, 0) = Returns (Inl e, w')"
      "\<exists>err. e = Wrap ''failed to create producer: %w'' [] err"
    by (simp add: SetupComponents_def counting_registries_def counting_config_def counting_store_def NewStore_def
        RegisterStore_def NewSource_def NewMySQLSource_def NewProducer_def WithStore_def Close_before_Run Let_def)
  from setup_leaves_open [OF counted, of "(0, 0)"] run show ?thesis by (auto simp: prod_eq_iff)
qed

end
