(* ===== verification/Listen.thy ===== *)
theory Listen
  imports Setup
begin

text \<open>
  \<open>cmd/clisten.go\<close>: the listening program as a step system. Its threads are the goroutine of
  \<open>Run\<close>, the canal that calls the source back, the consumer, and the main thread; the steps are
  the points at which they meet. The canal is the binlog library's: it makes its callbacks one
  after the other, and whether its \<open>Close\<close> waits for a callback that is running is a parameter.
\<close>

section \<open>The state\<close>

datatype callback = OnRowCall RowsEvent | OnPosSyncedCall mysql_Position

datatype run_state = RunStarting | RunSelecting | RunOver "go_error option"
datatype consumer_state = Waiting | Sending EventData | Exited
datatype main_state = AwaitSource | AwaitConsumer "go_error option" | ListenReturned "go_error option"

text \<open>
  \<open>liCanal\<close> is what \<open>RunFrom\<close> returned, once it did; \<open>liPending\<close> the events the running \<open>OnRow\<close> has
  still to send. The last three fields are histories: the events put into the channel, those
  handed to the producer with what \<open>SendWithRetry\<close> answered, and the positions saved.
\<close>

record 'w listen =
  liSource :: "'w MySQLSource"
  liWorld :: 'w
  liTodo :: "callback list"
  liPending :: "EventData list"
  liCanal :: "go_error option option"
  liRun :: run_state
  liConsumer :: consumer_state
  liMain :: main_state
  liCrash :: bool
  liDelivered :: "EventData list"
  liHanded :: "(EventData \<times> go_error option) list"
  liSaved :: "mysql_Position list"

record 'w listen_env =
  leCtx :: "'w ctx"
  leCancel :: "'w \<Rightarrow> 'w"
  leStore :: "'w IStore"
  leProducer :: "'w IProducer"
  leRetry :: "'w retry_env"
  leWaits :: bool

definition running :: "'w listen \<Rightarrow> bool" where
  "running l \<longleftrightarrow> \<not> liCrash l \<and> (\<forall>r. liMain l \<noteq> ListenReturned r)"

definition listen_start :: "'w MySQLSource \<Rightarrow> 'w \<Rightarrow> callback list \<Rightarrow> 'w listen" where
  "listen_start s w todo =
     \<lparr>liSource = s, liWorld = w, liTodo = todo, liPending = [], liCanal = None, liRun = RunStarting,
      liConsumer = Waiting, liMain = AwaitSource, liCrash = False, liDelivered = [], liHanded = [], liSaved = []\<rparr>"

text \<open>\<open>Listen\<close> up to the start of its goroutines: without its components it returns at once.\<close>

definition Listen_begin :: "'w registries \<Rightarrow> Config \<Rightarrow> 'w \<Rightarrow> callback list \<Rightarrow>
    (go_error \<times> 'w + 'w components \<times> 'w listen) outcome" where
  "Listen_begin rg cfg w todo =
     (case SetupComponents rg cfg w of
        Panics m \<Rightarrow> Panics m
      | Returns (Inl err, w1) \<Rightarrow> Returns (Inl (err, w1))
      | Returns (Inr cs, w1) \<Rightarrow> Returns (Inr (cs, listen_start (cmSource cs) w1 todo)))"

section \<open>The steps\<close>

text \<open>What comes from outside: the end of the caller's context, the callbacks, the end of the canal.\<close>

inductive outside_step :: "'w listen_env \<Rightarrow> 'w listen \<Rightarrow> 'w listen \<Rightarrow> bool" for env where
  interrupt: "running l \<Longrightarrow> leCtx env (liWorld l) = None \<Longrightarrow> leCtx env w' \<noteq> None \<Longrightarrow>
    outside_step env l (l\<lparr>liWorld := w'\<rparr>)"
| canal_row: "running l \<Longrightarrow> liRun l \<noteq> RunStarting \<Longrightarrow> liCanal l = None \<Longrightarrow> liPending l = [] \<Longrightarrow>
    liTodo l = OnRowCall e # todo \<Longrightarrow>
    outside_step env l (l\<lparr>liTodo := todo, liPending := row_events now e 0\<rparr>)"
| canal_synced: "running l \<Longrightarrow> liRun l \<noteq> RunStarting \<Longrightarrow> liCanal l = None \<Longrightarrow> liPending l = [] \<Longrightarrow>
    liTodo l = OnPosSyncedCall pos # todo \<Longrightarrow> OnPosSynced (leStore env) pos (liWorld l) = (err, w') \<Longrightarrow>
    outside_step env l (l\<lparr>liTodo := todo, liWorld := w', liSaved := liSaved l @ (if err = None then [pos] else [])\<rparr>)"
| canal_ends: "running l \<Longrightarrow> liRun l \<noteq> RunStarting \<Longrightarrow> liCanal l = None \<Longrightarrow> liPending l = [] \<Longrightarrow>
    outside_step env l (l\<lparr>liCanal := Some err\<rparr>)"

text \<open>
  What the program does. In \<open>run_ctx\<close> the source is stopped while the canal may be calling back,
  unless the canal's \<open>Close\<close> waits; when it waits there are no callbacks after it.
\<close>

inductive program_step :: "'w listen_env \<Rightarrow> 'w listen \<Rightarrow> 'w listen \<Rightarrow> bool" for env where
  run_refused: "running l \<Longrightarrow> liRun l = RunStarting \<Longrightarrow> Source_enter (leCtx env) (liSource l) = Inl err \<Longrightarrow>
    program_step env l (l\<lparr>liRun := RunOver (Some err)\<rparr>)"
| run_enter: "running l \<Longrightarrow> liRun l = RunStarting \<Longrightarrow> Source_enter (leCtx env) (liSource l) = Inr (st, s') \<Longrightarrow>
    loadPosition st (msCanal s') (liWorld l) = (pos, w') \<Longrightarrow>
    program_step env l (l\<lparr>liSource := s', liWorld := w', liRun := RunSelecting\<rparr>)"
| row_sent: "running l \<Longrightarrow> liPending l = ev # evs \<Longrightarrow> Sent ch \<in> offers (liSource l) (liWorld l) ev \<Longrightarrow>
    program_step env l (l\<lparr>liSource := (liSource l)\<lparr>msChan := ch\<rparr>, liPending := evs, liDelivered := liDelivered l @ [ev]\<rparr>)"
| row_aborted: "running l \<Longrightarrow> liPending l = ev # evs \<Longrightarrow> Aborted e \<in> offers (liSource l) (liWorld l) ev \<Longrightarrow>
    program_step env l (l\<lparr>liPending := []\<rparr>)"
| row_panics: "running l \<Longrightarrow> liPending l = ev # evs \<Longrightarrow> SendPanics m \<in> offers (liSource l) (liWorld l) ev \<Longrightarrow>
    program_step env l (l\<lparr>liCrash := True\<rparr>)"
| run_ctx: "running l \<Longrightarrow> liRun l = RunSelecting \<Longrightarrow> leCtx env (liWorld l) = Some e \<Longrightarrow>
    leWaits env \<longrightarrow> liPending l = [] \<Longrightarrow> source_stop (liSource l) (liWorld l) = Returns (s', w') \<Longrightarrow>
    program_step env l (l\<lparr>liSource := s', liWorld := w', liRun := RunOver (run_report (CtxDone e)),
      liCanal := (if leWaits env \<and> liCanal l = None then Some None else liCanal l)\<rparr>)"
| run_canal: "running l \<Longrightarrow> liRun l = RunSelecting \<Longrightarrow> liCanal l = Some err \<Longrightarrow>
    source_stop (liSource l) (liWorld l) = Returns (s', w') \<Longrightarrow>
    program_step env l (l\<lparr>liSource := s', liWorld := w', liRun := RunOver (run_report (CanalDone err))\<rparr>)"
| run_panics: "running l \<Longrightarrow> liRun l = RunSelecting \<Longrightarrow> source_stop (liSource l) (liWorld l) = Panics m \<Longrightarrow>
    program_step env l (l\<lparr>liCrash := True\<rparr>)"
| consumer_receives: "running l \<Longrightarrow> liConsumer l = Waiting \<Longrightarrow> chan_recv (msChan (liSource l)) = Some (Some ev, ch) \<Longrightarrow>
    program_step env l (l\<lparr>liSource := (liSource l)\<lparr>msChan := ch\<rparr>, liConsumer := Sending ev\<rparr>)"
| consumer_sends: "running l \<Longrightarrow> liConsumer l = Sending ev \<Longrightarrow>
    SendWithRetry (leRetry env) (leCtx env) (leProducer env) ev 3 (liWorld l) = (err, w') \<Longrightarrow>
    program_step env l (l\<lparr>liWorld := w', liConsumer := Waiting, liHanded := liHanded l @ [(ev, err)]\<rparr>)"
| consumer_drained: "running l \<Longrightarrow> liConsumer l = Waiting \<Longrightarrow> chan_recv (msChan (liSource l)) = Some (None, ch) \<Longrightarrow>
    program_step env l (l\<lparr>liConsumer := Exited\<rparr>)"
| consumer_canceled: "running l \<Longrightarrow> liConsumer l = Waiting \<Longrightarrow> leCtx env (liWorld l) \<noteq> None \<Longrightarrow>
    program_step env l (l\<lparr>liConsumer := Exited\<rparr>)"
| main_failed: "running l \<Longrightarrow> liMain l = AwaitSource \<Longrightarrow> liRun l = RunOver (Some err) \<Longrightarrow>
    program_step env l (l\<lparr>liWorld := leCancel env (liWorld l), liMain := AwaitConsumer (Some err)\<rparr>)"
| main_completed: "running l \<Longrightarrow> liMain l = AwaitSource \<Longrightarrow> liRun l = RunOver None \<Longrightarrow>
    program_step env l (l\<lparr>liMain := AwaitConsumer None\<rparr>)"
| main_closes: "running l \<Longrightarrow> liMain l = AwaitConsumer r \<Longrightarrow> liConsumer l = Exited \<Longrightarrow>
    CloseSetupComponents (liSource l) (leStore env) (leProducer env) (liWorld l) = Returns (s', w') \<Longrightarrow>
    program_step env l (l\<lparr>liSource := s', liWorld := w', liMain := ListenReturned r\<rparr>)"
| main_panics: "running l \<Longrightarrow> liMain l = AwaitConsumer r \<Longrightarrow> liConsumer l = Exited \<Longrightarrow>
    CloseSetupComponents (liSource l) (leStore env) (leProducer env) (liWorld l) = Panics m \<Longrightarrow>
    program_step env l (l\<lparr>liCrash := True\<rparr>)"

definition listen_step :: "'w listen_env \<Rightarrow> 'w listen \<Rightarrow> 'w listen \<Rightarrow> bool" where
  "listen_step env l l' \<longleftrightarrow> program_step env l l' \<or> outside_step env l l'"

section \<open>What is assumed of the world\<close>

text \<open>
  A context that is over stays over, whatever the components do, and \<open>cancel\<close> ends it. A component
  may be interrupted while it works.
\<close>

definition keeps :: "'w ctx \<Rightarrow> ('w \<Rightarrow> 'w) \<Rightarrow> bool" where
  "keeps ctx f \<longleftrightarrow> (\<forall>w. ctx w \<noteq> None \<longrightarrow> ctx (f w) \<noteq> None)"

definition proper_env :: "'w listen_env \<Rightarrow> 'w canal \<Rightarrow> bool" where
  "proper_env env c \<longleftrightarrow>
     (\<forall>w. leCtx env (leCancel env w) \<noteq> None) \<and>
     (\<forall>k v. keeps (leCtx env) (\<lambda>w. snd (SetKey (leStore env) k v w))) \<and>
     (\<forall>k. keeps (leCtx env) (\<lambda>w. snd (GetKey (leStore env) k w))) \<and>
     keeps (leCtx env) (\<lambda>w. snd (CloseStore (leStore env) w)) \<and>
     (\<forall>ev. keeps (leCtx env) (\<lambda>w. snd (SendWithRetry (leRetry env) (leCtx env) (leProducer env) ev 3 w))) \<and>
     keeps (leCtx env) (\<lambda>w. snd (CloseProducer (leProducer env) w)) \<and>
     keeps (leCtx env) (\<lambda>w. snd (GetMasterPos c w)) \<and> keeps (leCtx env) (CloseCanal c)"

text \<open>The environment of a run over the components that were set up.\<close>

definition listens_on :: "'w listen_env \<Rightarrow> 'w components \<Rightarrow> 'w canal \<Rightarrow> bool" where
  "listens_on env cs c \<longleftrightarrow>
     leStore env = cmStore cs \<and> leProducer env = cmProducer cs \<and> msCanal (cmSource cs) = Some c \<and> proper_env env c"

lemma proper_envD:
  assumes "proper_env env c"
  shows "leCtx env (leCancel env w) \<noteq> None"
    and "SetKey (leStore env) k v w = (e, w') \<Longrightarrow> leCtx env w \<noteq> None \<Longrightarrow> leCtx env w' \<noteq> None"
    and "GetKey (leStore env) k w = (r, w') \<Longrightarrow> leCtx env w \<noteq> None \<Longrightarrow> leCtx env w' \<noteq> None"
    and "CloseStore (leStore env) w = (e, w') \<Longrightarrow> leCtx env w \<noteq> None \<Longrightarrow> leCtx env w' \<noteq> None"
    and "SendWithRetry (leRetry env) (leCtx env) (leProducer env) ev 3 w = (e, w') \<Longrightarrow> leCtx env w \<noteq> None \<Longrightarrow>
      leCtx env w' \<noteq> None"
    and "CloseProducer (leProducer env) w = (e, w') \<Longrightarrow> leCtx env w \<noteq> None \<Longrightarrow> leCtx env w' \<noteq> None"
    and "GetMasterPos c w = (p, w') \<Longrightarrow> leCtx env w \<noteq> None \<Longrightarrow> leCtx env w' \<noteq> None"
    and "leCtx env w \<noteq> None \<Longrightarrow> leCtx env (CloseCanal c w) \<noteq> None"
  using assms unfolding proper_env_def keeps_def by (metis snd_conv)+

lemma loadPosition_keeps:
  assumes "proper_env env c" and "loadPosition (leStore env) (Some c) w = (pos, w')" and "leCtx env w \<noteq> None"
  shows "leCtx env w' \<noteq> None"
proof -
  obtain r w1 where g: "GetKey (leStore env) StoreKeyPosition w = (r, w1)" by fastforce
  obtain r' w2 where m: "GetMasterPos c w1 = (r', w2)" by fastforce
  have "w' = w1 \<or> w' = w2"
    using assms(2) g m by (auto simp: loadPosition_def Let_def split: option.splits sum.splits)
  then show ?thesis using proper_envD(3) [OF assms(1) g assms(3)] proper_envD(7) [OF assms(1) m] by blast
qed

lemma source_stop_keeps:
  "proper_env env c \<Longrightarrow> msCanal s = Some c \<Longrightarrow> source_stop s w = Returns (s', w') \<Longrightarrow> leCtx env w \<noteq> None \<Longrightarrow>
   leCtx env w' \<noteq> None"
  by (auto simp: source_stop_def Let_def dest: proper_envD(8) split: if_splits outcome.splits)

section \<open>The invariant\<close>

text \<open>The source in each state of \<open>Run\<close>; \<open>c\<close> is its canal.\<close>

definition source_inv :: "'w listen_env \<Rightarrow> 'w canal \<Rightarrow> 'w listen \<Rightarrow> bool" where
  "source_inv env c l \<longleftrightarrow>
     (let s = liSource l in
      source_ok s \<and> msStore s = Some (leStore env) \<and> msCanal s = Some c \<and>
      chCap (msChan s) = 10240 \<and> length (chBuf (msChan s)) \<le> 10240 \<and>
      (case liRun l of
         RunStarting \<Rightarrow> \<not> msRunning s \<and> \<not> chClosed (msChan s) \<and> liPending l = [] \<and> liCanal l = None
       | RunSelecting \<Rightarrow> msRunning s \<and> \<not> chClosed (msChan s) \<and> msRunCtx s = leCtx env
       | RunOver r \<Rightarrow> \<not> msRunning s \<and> chClosed (msChan s) \<and> msRunCtx s = leCtx env \<and>
           (leWaits env \<longrightarrow> liPending l = [] \<and> liCanal l \<noteq> None)) \<and>
      (liCanal l \<noteq> None \<longrightarrow> liPending l = []))"

text \<open>Where every event is that was put into the channel, and why the consumer left.\<close>

definition in_flight :: "consumer_state \<Rightarrow> EventData list" where
  "in_flight c = (case c of Sending ev \<Rightarrow> [ev] | _ \<Rightarrow> [])"

definition flow_inv :: "'w listen_env \<Rightarrow> 'w listen \<Rightarrow> bool" where
  "flow_inv env l \<longleftrightarrow>
     liDelivered l = map fst (liHanded l) @ in_flight (liConsumer l) @ chBuf (msChan (liSource l)) \<and>
     (liConsumer l = Exited \<longrightarrow>
        leCtx env (liWorld l) \<noteq> None \<or> chBuf (msChan (liSource l)) = [] \<and> chClosed (msChan (liSource l)))"

definition main_inv :: "'w listen_env \<Rightarrow> 'w listen \<Rightarrow> bool" where
  "main_inv env l \<longleftrightarrow>
     (case liMain l of
        AwaitSource \<Rightarrow> True
      | AwaitConsumer r \<Rightarrow> liRun l = RunOver r \<and> (r \<noteq> None \<longrightarrow> leCtx env (liWorld l) \<noteq> None)
      | ListenReturned r \<Rightarrow> liRun l = RunOver r \<and> (r \<noteq> None \<longrightarrow> leCtx env (liWorld l) \<noteq> None) \<and> liConsumer l = Exited) \<and>
     (liCrash l \<longrightarrow> \<not> leWaits env)"

definition listen_inv :: "'w listen_env \<Rightarrow> 'w canal \<Rightarrow> 'w listen \<Rightarrow> bool" where
  "listen_inv env c l \<longleftrightarrow> source_inv env c l \<and> flow_inv env l \<and> main_inv env l"

lemmas inv_defs = listen_inv_def source_inv_def flow_inv_def main_inv_def in_flight_def running_def Let_def

lemma stop_running:
  assumes "source_ok s" and "msRunning s" and "\<not> chClosed (msChan s)"
  shows "source_stop s w = Returns (s\<lparr>msRunning := False, msChan := (msChan s)\<lparr>chClosed := True\<rparr>, msChanClosed := True\<rparr>,
    (case msCanal s of Some c \<Rightarrow> CloseCanal c w | None \<Rightarrow> w))"
  using assms by (simp add: source_stop_def source_ok_def chan_close_def)

lemma close_stopped:
  "\<not> msRunning s \<Longrightarrow> CloseSetupComponents s st p w =
     (case CloseStore st w of (e, w1) \<Rightarrow> (case CloseProducer p w1 of (e', w2) \<Rightarrow> Returns (s, w2)))"
  by (simp add: CloseSetupComponents_def Close_before_Run)

lemma enter_fresh:
  "msStore s = Some st \<Longrightarrow> \<not> msRunning s \<Longrightarrow> Source_enter ctx s = Inr (st, s\<lparr>msRunning := True, msRunCtx := ctx\<rparr>)"
  by (simp add: Source_enter_def)

lemma listen_invD:
  assumes "listen_inv env c l"
  shows "source_ok (liSource l)" "msStore (liSource l) = Some (leStore env)" "msCanal (liSource l) = Some c"
    and "liRun l = RunStarting \<Longrightarrow> \<not> msRunning (liSource l)"
    and "liRun l = RunOver r \<Longrightarrow> \<not> msRunning (liSource l)"
    and "liMain l = AwaitConsumer r' \<Longrightarrow> liRun l = RunOver r'"
  using assms by (auto simp: inv_defs)

text \<open>No step revives a context.\<close>

lemma program_step_ctx:
  assumes "program_step env l l'" and "proper_env env c" and "listen_inv env c l" and "leCtx env (liWorld l) \<noteq> None"
  shows "leCtx env (liWorld l') \<noteq> None"
  using assms(1)
proof cases
  case (run_enter st s' pos w')
  then show ?thesis
    using listen_invD(2-4) [OF assms(3)] loadPosition_keeps [OF assms(2) _ assms(4), of pos w'] by (auto simp: enter_fresh)
next
  case (main_closes r s' w')
  then show ?thesis
    using close_stopped [OF listen_invD(5) [OF assms(3) listen_invD(6) [OF assms(3)]]]
      proper_envD(4,6) [OF assms(2)] assms(4)
    by (auto split: prod.splits)
next
  case (run_ctx e s' w')
  then show ?thesis using source_stop_keeps [OF assms(2) listen_invD(3) [OF assms(3)] _ assms(4), of s' w'] by simp
next
  case (run_canal err s' w')
  then show ?thesis using source_stop_keeps [OF assms(2) listen_invD(3) [OF assms(3)] _ assms(4), of s' w'] by simp
next
  case (consumer_sends ev err w')
  then show ?thesis using proper_envD(5) [OF assms(2) _ assms(4), of ev err w'] by simp
next
  case (main_failed err)
  then show ?thesis using proper_envD(1) [OF assms(2)] by simp
qed (use assms(4) in simp_all)

lemma outside_step_ctx:
  "outside_step env l l' \<Longrightarrow> proper_env env c \<Longrightarrow> leCtx env (liWorld l) \<noteq> None \<Longrightarrow> leCtx env (liWorld l') \<noteq> None"
  by (induction rule: outside_step.induct)
    (auto simp: OnPosSynced_def savePosition_def dest!: proper_envD(2))

section \<open>The steps keep the invariant\<close>

lemma outside_step_inv: "outside_step env l l' \<Longrightarrow> proper_env env c \<Longrightarrow> listen_inv env c l \<Longrightarrow> listen_inv env c l'"
proof (induction rule: outside_step.induct)
  case (canal_synced l pos todo err w')
  then have "leCtx env (liWorld l) \<noteq> None \<Longrightarrow> leCtx env w' \<noteq> None"
    using proper_envD(2) [OF canal_synced.prems(1)] by (simp add: OnPosSynced_def savePosition_def)
  with canal_synced show ?case by (auto simp: inv_defs split: main_state.splits run_state.splits)
qed (auto simp: inv_defs split: main_state.splits run_state.splits)

text \<open>What the steps that call the source make of it.\<close>

lemma source_after:
  assumes "listen_inv env c l"
  shows "liRun l = RunSelecting \<Longrightarrow> source_stop (liSource l) w = Returns (s', w') \<Longrightarrow>
      s' = (liSource l)\<lparr>msRunning := False, msChan := (msChan (liSource l))\<lparr>chClosed := True\<rparr>, msChanClosed := True\<rparr>"
    and "liRun l = RunStarting \<Longrightarrow> Source_enter (leCtx env) (liSource l) = Inr (st, s') \<Longrightarrow>
      s' = (liSource l)\<lparr>msRunning := True, msRunCtx := leCtx env\<rparr>"
    and "liMain l = AwaitConsumer r \<Longrightarrow> CloseSetupComponents (liSource l) st' p w = Returns (s', w') \<Longrightarrow> s' = liSource l"
  using assms stop_running [of "liSource l" w] listen_invD(2,4) [OF assms] listen_invD(5,6) [OF assms]
  by (auto simp: inv_defs enter_fresh close_stopped split: prod.splits)

lemma program_step_source: "program_step env l l' \<Longrightarrow> listen_inv env c l \<Longrightarrow> source_inv env c l'"
proof (induction rule: program_step.induct)
  case (run_ctx l e s' w')
  with source_after(1) [OF run_ctx.prems run_ctx.hyps(2,5)] show ?case by (auto simp: inv_defs source_ok_def)
next
  case (run_canal l err s' w')
  with source_after(1) [OF run_canal.prems run_canal.hyps(2,4)] show ?case by (auto simp: inv_defs source_ok_def)
next
  case (run_enter l st s' pos w')
  with source_after(2) [OF run_enter.prems run_enter.hyps(2,3)] show ?case by (auto simp: inv_defs source_ok_def)
next
  case (run_refused l err)
  then show ?case using listen_invD(2,4) [OF run_refused.prems] by (simp add: enter_fresh)
next
  case (main_closes l r s' w')
  with source_after(3) [OF main_closes.prems main_closes.hyps(2,4)] show ?case by (auto simp: inv_defs split: run_state.splits)
qed (auto simp: inv_defs source_ok_def offers_iff split: run_state.splits)

lemma program_step_flow:
  assumes "program_step env l l'" and "proper_env env c" and "listen_inv env c l"
  shows "flow_inv env l'"
  using assms(1) program_step_ctx [OF assms] assms(3)
proof (induction rule: program_step.induct)
  case (run_ctx l e s' w')
  with source_after(1) [OF run_ctx.prems(2) run_ctx.hyps(2,5)] show ?case by (auto simp: inv_defs)
next
  case (run_canal l err s' w')
  with source_after(1) [OF run_canal.prems(2) run_canal.hyps(2,4)] show ?case by (auto simp: inv_defs)
next
  case (run_enter l st s' pos w')
  with source_after(2) [OF run_enter.prems(2) run_enter.hyps(2,3)] show ?case by (auto simp: inv_defs)
next
  case (main_closes l r s' w')
  with source_after(3) [OF main_closes.prems(2) main_closes.hyps(2,4)] show ?case by (auto simp: inv_defs split: run_state.splits)
qed (auto simp: inv_defs offers_iff split: run_state.splits)

lemma program_step_main:
  assumes "program_step env l l'" and "proper_env env c" and "listen_inv env c l"
  shows "main_inv env l'"
  using assms(1) program_step_ctx [OF assms] assms(3)
proof (induction rule: program_step.induct)
  case (main_failed l err)
  then show ?case using proper_envD(1) [OF assms(2)] by (auto simp: inv_defs)
next
  case (run_panics l m)
  then show ?case using stop_running [of "liSource l" "liWorld l"] by (simp add: inv_defs)
next
  case (main_panics l r m)
  have "\<not> msRunning (liSource l)"
    using listen_invD(5) [OF main_panics.prems(2) listen_invD(6) [OF main_panics.prems(2) main_panics.hyps(2)]] .
  then show ?case using main_panics.hyps(4) by (auto simp: close_stopped split: prod.splits)
next
  case (row_panics l ev evs m)
  then show ?case by (auto simp: inv_defs offers_iff split: run_state.splits main_state.splits)
qed (auto simp: inv_defs split: main_state.splits run_state.splits)

lemma listen_step_inv:
  assumes "listen_step env l l'" and "proper_env env c" and "listen_inv env c l"
  shows "listen_inv env c l'"
  using assms outside_step_inv [OF _ assms(2,3)] program_step_source [OF _ assms(3)]
    program_step_flow [OF _ assms(2,3)] program_step_main [OF _ assms(2,3)]
  by (auto simp: listen_step_def listen_inv_def)

lemma listen_start_inv:
  "source_ok s \<Longrightarrow> msStore s = Some (leStore env) \<Longrightarrow> msCanal s = Some c \<Longrightarrow> msChan s = make_chan 10240 \<Longrightarrow> \<not> msRunning s \<Longrightarrow>
   listen_inv env c (listen_start s w todo)"
  by (simp add: inv_defs listen_start_def make_chan_def)

section \<open>Every run ends\<close>

text \<open>
  The work that is left: every event weighs three before it is sent, two in the channel, one with
  the consumer; every callback, and every state a thread has still to leave, weighs one.
\<close>

definition callback_work :: "callback \<Rightarrow> nat" where
  "callback_work cb = (case cb of OnRowCall e \<Rightarrow> 1 + 3 * length (reRows e) | OnPosSyncedCall pos \<Rightarrow> 1)"

definition work :: "'w listen_env \<Rightarrow> 'w listen \<Rightarrow> nat" where
  "work env l =
     of_bool (\<not> liCrash l) + of_bool (leCtx env (liWorld l) = None) + of_bool (liCanal l = None) +
     sum_list (map callback_work (liTodo l)) + 3 * length (liPending l) + 2 * length (chBuf (msChan (liSource l))) +
     (case liRun l of RunStarting \<Rightarrow> 2 | RunSelecting \<Rightarrow> 1 | RunOver r \<Rightarrow> 0) +
     (case liConsumer l of Sending ev \<Rightarrow> 2 | Waiting \<Rightarrow> 1 | Exited \<Rightarrow> 0) +
     (case liMain l of AwaitSource \<Rightarrow> 2 | AwaitConsumer r \<Rightarrow> 1 | ListenReturned r \<Rightarrow> 0)"

lemma row_events_length: "length (row_events now e i) \<le> length (reRows e) - i"
proof (induction now e i rule: row_events.induct)
  case (1 now e i)
  then show ?case
    using row_round_next [of i now e] by (subst row_events.simps) auto
qed

lemma outside_step_work:
  assumes "outside_step env l l'" and "proper_env env c"
  shows "work env l' < work env l"
proof -
  have "leCtx env (liWorld l') = None \<Longrightarrow> leCtx env (liWorld l) = None"
    using outside_step_ctx [OF assms] by blast
  with assms(1) show ?thesis
  proof (induction rule: outside_step.induct)
    case (canal_row l e todo now)
    then show ?case using row_events_length [of now e 0] by (simp add: work_def callback_work_def)
  next
    case (canal_synced l pos todo err w')
    then show ?case by (auto simp: work_def callback_work_def)
  qed (simp_all add: work_def)
qed

lemma program_step_work:
  assumes "program_step env l l'" and "proper_env env c" and "listen_inv env c l"
  shows "work env l' < work env l"
proof -
  have "leCtx env (liWorld l') = None \<Longrightarrow> leCtx env (liWorld l) = None"
    using program_step_ctx [OF assms] by blast
  with assms(1) assms(3) show ?thesis
  proof (induction rule: program_step.induct)
    case (run_ctx l e s' w')
    with source_after(1) [OF run_ctx.prems(1) run_ctx.hyps(2,5)] show ?case by (auto simp: work_def)
  next
    case (run_canal l err s' w')
    with source_after(1) [OF run_canal.prems(1) run_canal.hyps(2,4)] show ?case by (auto simp: work_def)
  next
    case (run_enter l st s' pos w')
    with source_after(2) [OF run_enter.prems(1) run_enter.hyps(2,3)] show ?case by (auto simp: work_def)
  next
    case (main_closes l r s' w')
    with source_after(3) [OF main_closes.prems(1) main_closes.hyps(2,4)] show ?case by (auto simp: work_def)
  qed (auto simp: work_def running_def offers_iff)
qed

lemma listen_steps:
  assumes "(listen_step env ^^ n) l l'" and "proper_env env c" and "listen_inv env c l"
  shows "listen_inv env c l' \<and> n + work env l' \<le> work env l \<and>
    (leCtx env (liWorld l) \<noteq> None \<longrightarrow> leCtx env (liWorld l') \<noteq> None)"
  using assms(1)
proof (induction n arbitrary: l')
  case 0
  then show ?case using assms(3) by simp
next
  case (Suc n)
  then obtain l1 where step: "(listen_step env ^^ n) l l1" "listen_step env l1 l'" by auto
  note IH = Suc.IH [OF step(1)]
  have "work env l' < work env l1"
    using step(2) IH outside_step_work [OF _ assms(2)] program_step_work [OF _ assms(2)] by (auto simp: listen_step_def)
  moreover have "leCtx env (liWorld l1) \<noteq> None \<Longrightarrow> leCtx env (liWorld l') \<noteq> None"
    using step(2) IH outside_step_ctx [OF _ assms(2)] program_step_ctx [OF _ assms(2)] by (auto simp: listen_step_def)
  ultimately show ?case using IH listen_step_inv [OF step(2) assms(2)] by auto
qed

text \<open>
  Nothing to do: the canal has nothing to deliver, the channel is empty, the context is alive. In
  every other state some thread of the program can go on.
\<close>

definition idle :: "'w listen_env \<Rightarrow> 'w listen \<Rightarrow> bool" where
  "idle env l \<longleftrightarrow> liRun l = RunSelecting \<and> liPending l = [] \<and> liCanal l = None \<and> leCtx env (liWorld l) = None \<and>
     liConsumer l = Waiting \<and> chBuf (msChan (liSource l)) = []"

lemma consumer_can_step:
  assumes "running l" and "liConsumer l \<noteq> Exited"
    and "chBuf (msChan (liSource l)) \<noteq> [] \<or> chClosed (msChan (liSource l)) \<or> (\<exists>ev. liConsumer l = Sending ev)"
  shows "\<exists>l'. program_step env l l'"
proof (cases "liConsumer l")
  case (Sending ev)
  obtain err w' where "SendWithRetry (leRetry env) (leCtx env) (leProducer env) ev 3 (liWorld l) = (err, w')" by fastforce
  with consumer_sends [OF assms(1) Sending] show ?thesis by blast
next
  case Waiting
  show ?thesis
  proof (cases "chBuf (msChan (liSource l))")
    case Nil
    with assms(3) Waiting have "chan_recv (msChan (liSource l)) = Some (None, msChan (liSource l))" by simp
    with consumer_drained [OF assms(1) Waiting] show ?thesis by blast
  next
    case (Cons ev evs)
    then have "chan_recv (msChan (liSource l)) = Some (Some ev, (msChan (liSource l))\<lparr>chBuf := evs\<rparr>)" by simp
    with consumer_receives [OF assms(1) Waiting] show ?thesis by blast
  qed
qed (use assms(2) in simp)

lemma row_can_step:
  assumes "running l" and "listen_inv env c l" and "liRun l = RunSelecting" and "liPending l = ev # evs"
  shows "\<exists>l'. program_step env l l'"
proof (cases "length (chBuf (msChan (liSource l))) < 10240")
  case True
  then have "\<exists>ch. Sent ch \<in> offers (liSource l) (liWorld l) ev" using assms(2,3) by (simp add: inv_defs offers_iff)
  with row_sent [OF assms(1,4)] show ?thesis by blast
next
  case full: False
  show ?thesis
  proof (cases "leCtx env (liWorld l)")
    case None
    then have "liConsumer l \<noteq> Exited" using assms(2,3) by (auto simp: inv_defs)
    with full show ?thesis by (intro consumer_can_step [OF assms(1)]) auto
  next
    case (Some e)
    then have "Aborted e \<in> offers (liSource l) (liWorld l) ev" using assms(2,3) by (simp add: inv_defs offers_iff)
    with row_aborted [OF assms(1,4)] show ?thesis by blast
  qed
qed

lemma run_can_step:
  assumes "running l" and "listen_inv env c l" and "liRun l = RunSelecting" and "liPending l = []"
    and "leCtx env (liWorld l) \<noteq> None \<or> liCanal l \<noteq> None"
  shows "\<exists>l'. program_step env l l'"
proof -
  obtain s' w' where stop: "source_stop (liSource l) (liWorld l) = Returns (s', w')"
    using source_stop_Returns [OF listen_invD(1) [OF assms(2)]] by blast
  show ?thesis
    using assms(5) run_ctx [OF assms(1,3) _ _ stop, of env] run_canal [OF assms(1,3) _ stop] assms(4) by auto
qed

lemma main_can_step:
  assumes "running l" and "listen_inv env c l" and "liRun l = RunOver r"
  shows "\<exists>l'. program_step env l l'"
proof (cases "liMain l")
  case AwaitSource
  with main_failed [OF assms(1) AwaitSource] main_completed [OF assms(1) AwaitSource] assms(3) show ?thesis
    by (cases r) blast+
next
  case (AwaitConsumer r')
  show ?thesis
  proof (cases "liConsumer l = Exited")
    case True
    have "\<not> msRunning (liSource l)" using listen_invD(5) [OF assms(2,3)] .
    moreover obtain e w1 where "CloseStore (leStore env) (liWorld l) = (e, w1)" by fastforce
    moreover obtain e' w2 where "CloseProducer (leProducer env) w1 = (e', w2)" by fastforce
    ultimately have "CloseSetupComponents (liSource l) (leStore env) (leProducer env) (liWorld l) = Returns (liSource l, w2)"
      by (simp add: close_stopped)
    with main_closes [OF assms(1) AwaitConsumer True] show ?thesis by blast
  next
    case False
    then show ?thesis using assms(2,3) by (intro consumer_can_step [OF assms(1)]) (auto simp: inv_defs)
  qed
qed (use assms(1) in \<open>simp add: running_def\<close>)

lemma progress:
  assumes "running l" and "listen_inv env c l" and "\<not> idle env l"
  shows "\<exists>l'. program_step env l l'"
proof (cases "liRun l")
  case RunStarting
  obtain pos w' where "loadPosition (leStore env) (Some c) (liWorld l) = (pos, w')" by fastforce
  with RunStarting run_enter [OF assms(1), of env] listen_invD(2-4) [OF assms(2)] show ?thesis
    by (fastforce simp: enter_fresh)
next
  case RunSelecting
  show ?thesis
  proof (cases "liPending l")
    case Nil
    show ?thesis
    proof (cases "leCtx env (liWorld l) \<noteq> None \<or> liCanal l \<noteq> None")
      case False
      then have "liConsumer l \<noteq> Exited" using assms(2) RunSelecting by (auto simp: inv_defs)
      with False Nil assms(3) RunSelecting show ?thesis
        by - (rule consumer_can_step [OF assms(1)], simp, cases "liConsumer l", auto simp: idle_def)
    qed (rule run_can_step [OF assms(1,2) RunSelecting Nil])
  qed (rule row_can_step [OF assms(1,2) RunSelecting])
qed (rule main_can_step [OF assms(1,2)])

section \<open>A shutdown\<close>

text \<open>
  A small world: whether the context is over, and the file of the saved position. The producer takes
  everything at once.
\<close>

type_synonym demo_world = "bool \<times> string option"

definition demo_store :: "demo_world IStore" where
  "demo_store =
     \<lparr>SetKey = (\<lambda>_ v (b, x). (None, (b, Some v))),
      GetKey = (\<lambda>_ (b, x). (case x of None \<Rightarrow> Inl RedisNil | Some v \<Rightarrow> Inr v, (b, x))),
      HasKey = (\<lambda>_ (b, x). (x \<noteq> None, (b, x))), DeleteKey = (\<lambda>_ (b, x). (None, (b, None))),
      CloseStore = (\<lambda>w. (None, w))\<rparr>"

definition demo_canal :: "demo_world canal" where
  "demo_canal = \<lparr>GetMasterPos = (\<lambda>w. (Inl IoEOF, w)), CloseCanal = (\<lambda>w. w)\<rparr>"

definition demo_lib :: "demo_world canal_lib" where
  "demo_lib =
     \<lparr>NewDefaultConfig =
        \<lparr>cnAddr = '''', cnUser = '''', cnPassword = '''', cnDumpPath = '''', cnExclude = [], cnInclude = []\<rparr>,
      NewCanal = (\<lambda>_ w. (Inr demo_canal, w)), LookPath = (\<lambda>_ _. None)\<rparr>"

definition demo_config :: SourceConfig where
  "demo_config =
     \<lparr>soType = ''mysql'', soMysql =
        \<lparr>mcAddr = '''', mcUser = '''', mcPassword = '''', mcExcludeTableRegex = [''x''], mcIncludeTableRegex = []\<rparr>\<rparr>"

definition demo_source :: "demo_world MySQLSource" where
  "demo_source =
     \<lparr>msStore = None, msCanal = Some demo_canal, msCfg = soMysql demo_config, msChan = make_chan 10240,
      msRunning = False, msChanClosed = False, msRunCtx = (\<lambda>_. None)\<rparr>"

definition demo_producer :: "demo_world IProducer" where
  "demo_producer = \<lparr>Send = (\<lambda>_ _ w. (None, w)), CloseProducer = (\<lambda>w. (None, w))\<rparr>"

definition demo_env :: "bool \<Rightarrow> demo_world listen_env" where
  "demo_env waits =
     \<lparr>leCtx = (\<lambda>(b, x). if b then Some CtxCanceled else None), leCancel = (\<lambda>(b, x). (True, x)),
      leStore = demo_store, leProducer = demo_producer,
      leRetry = patient, leWaits = waits\<rparr>"

definition demo_rows :: RowsEvent where
  "demo_rows =
     \<lparr>reLogPos = 100, reServerID = 1, reTimestamp = 0, reSchema = ''app'', reTable = ''user'', reColumns = [],
      reAction = InsertAction, reRows = [[]]\<rparr>"

definition demo_change :: EventData where
  "demo_change = change_event (\<lambda>_. 0) demo_rows 0 InsertEventRowType fmempty fmempty"

definition demo_position :: mysql_Position where
  "demo_position = \<lparr>posName = ''bin.1'', posPos = 200\<rparr>"

definition demo_registries :: "demo_world registries" where
  "demo_registries =
     \<lparr>rgStores = (\<lambda>_. Some (\<lambda>_ w. (Inr demo_store, w))), rgCanal = demo_lib,
      rgProducers = (\<lambda>_. Some (\<lambda>_ w. (Inr demo_producer, w)))\<rparr>"

definition demo_components :: "demo_world components" where
  "demo_components = \<lparr>cmSource = WithStore demo_source demo_store, cmStore = demo_store, cmProducer = demo_producer\<rparr>"

lemma demo_new: "NewSource demo_lib demo_config w = (Inr demo_source, w)"
  by (simp add: NewSource_def NewMySQLSource_def demo_lib_def demo_config_def demo_source_def)

lemma demo_proper: "proper_env (demo_env waits) demo_canal"
proof -
  have "SendWithRetry patient ctx demo_producer ev 3 w = (None, w)" for ctx ev w
    unfolding SendWithRetry_def by (subst retryLoop.simps) (simp add: demo_producer_def)
  then show ?thesis
    by (auto simp: proper_env_def demo_env_def demo_producer_def keeps_def demo_store_def demo_canal_def split: prod.splits)
qed

lemma demo_begin:
  "Listen_begin demo_registries \<lparr>cfStore = c, cfSource = demo_config, cfProducer = p\<rparr> (False, None) todo =
     Returns (Inr (demo_components, listen_start (WithStore demo_source demo_store) (False, None) todo))"
  by (simp add: Listen_begin_def SetupComponents_def demo_registries_def NewStore_def demo_new NewProducer_def
      demo_components_def)

lemma demo_listens: "listens_on (demo_env waits) demo_components demo_canal"
  using demo_proper [of waits]
  by (simp add: listens_on_def demo_env_def demo_components_def demo_source_def WithStore_def)

lemma demo_row: "row_events (\<lambda>_. 0) demo_rows 0 = [demo_change]"
  by (simp add: row_events.simps row_round_def demo_rows_def demo_change_def change_event_def rowToMap_def)

text \<open>
  A row is delivered and the position after it is saved; the consumer has not taken the event yet
  when the context ends, and its \<open>select\<close> takes the context's case.
\<close>

definition demo_ran :: "bool \<Rightarrow> demo_world MySQLSource" where
  "demo_ran waits = (WithStore demo_source demo_store)\<lparr>msRunning := True, msRunCtx := leCtx (demo_env waits)\<rparr>"

lemmas demo_defs = demo_env_def demo_store_def demo_canal_def demo_source_def demo_ran_def make_chan_def WithStore_def
  running_def listen_start_def offers_iff

lemma demo_delivers:
  fixes waits :: bool
  defines "start \<equiv> listen_start (WithStore demo_source demo_store) (False, None)"
  shows "(listen_step (demo_env waits))\<^sup>*\<^sup>* (start (OnRowCall demo_rows # todo))
    ((start todo)\<lparr>liSource := (demo_ran waits)\<lparr>msChan := (make_chan 10240)\<lparr>chBuf := [demo_change]\<rparr>\<rparr>,
       liRun := RunSelecting, liDelivered := [demo_change]\<rparr>)"
proof -
  let ?env = "demo_env waits" and ?l0 = "start (OnRowCall demo_rows # todo)"
  let ?l1 = "?l0\<lparr>liSource := demo_ran waits, liWorld := (False, None), liRun := RunSelecting\<rparr>"
  have "program_step ?env ?l0 ?l1"
    by (rule run_enter [where st = demo_store and pos = "\<lparr>posName = '''', posPos = 0\<rparr>"])
      (simp_all add: start_def demo_defs Source_enter_def loadPosition_def)
  moreover
  let ?l2 = "?l1\<lparr>liTodo := todo, liPending := row_events (\<lambda>_. 0) demo_rows 0\<rparr>"
  have "outside_step ?env ?l1 ?l2" by (rule canal_row) (simp_all add: start_def demo_defs)
  moreover
  let ?ch = "(make_chan 10240)\<lparr>chBuf := [demo_change]\<rparr>"
  let ?l3 = "?l2\<lparr>liSource := (demo_ran waits)\<lparr>msChan := ?ch\<rparr>, liPending := [], liDelivered := [demo_change]\<rparr>"
  have "program_step ?env ?l2
      (?l2\<lparr>liSource := (liSource ?l2)\<lparr>msChan := ?ch\<rparr>, liPending := [], liDelivered := liDelivered ?l2 @ [demo_change]\<rparr>)"
    using demo_row by (intro row_sent) (simp_all add: start_def demo_defs)
  then have "program_step ?env ?l2 ?l3" by (simp add: start_def listen_start_def)
  ultimately have "(listen_step ?env)\<^sup>*\<^sup>* ?l0 ?l3"
    by (meson listen_step_def rtranclp.rtrancl_into_rtrancl rtranclp.rtrancl_refl)
  then show ?thesis by (simp add: start_def listen_start_def)
qed

text \<open>The context ends and the source is stopped; what the canal was doing is left as it is.\<close>

lemma demo_stops:
  assumes "\<not> liCrash l" and "liMain l = AwaitSource" and "liRun l = RunSelecting" and "liWorld l = (False, x)"
    and "liSource l = (demo_ran waits)\<lparr>msChan := ch\<rparr>" and "\<not> chClosed ch" and "waits \<longrightarrow> liPending l = []"
    and "liCanal l = None"
  shows "(listen_step (demo_env waits))\<^sup>*\<^sup>* l
    (l\<lparr>liWorld := (True, x), liRun := RunOver (Some CtxCanceled), liCanal := (if waits then Some None else None),
       liSource := (demo_ran waits)\<lparr>msRunning := False, msChan := ch\<lparr>chClosed := True\<rparr>, msChanClosed := True\<rparr>\<rparr>)"
proof -
  let ?env = "demo_env waits"
  let ?l1 = "l\<lparr>liWorld := (True, x)\<rparr>"
  have "outside_step ?env l ?l1"
    using assms(1-4) by (intro interrupt) (simp_all add: running_def demo_env_def)
  moreover
  let ?s = "(demo_ran waits)\<lparr>msRunning := False, msChan := ch\<lparr>chClosed := True\<rparr>, msChanClosed := True\<rparr>"
  let ?l2 = "?l1\<lparr>liSource := ?s, liWorld := (True, x), liRun := RunOver (run_report (CtxDone CtxCanceled)),
    liCanal := (if leWaits ?env \<and> liCanal ?l1 = None then Some None else liCanal ?l1)\<rparr>"
  have "program_step ?env ?l1 ?l2"
    using assms by (intro run_ctx) (simp_all add: demo_defs source_stop_def chan_close_def)
  ultimately have "(listen_step ?env)\<^sup>*\<^sup>* l ?l2"
    by (meson listen_step_def rtranclp.rtrancl_into_rtrancl rtranclp.rtrancl_refl)
  moreover have "?l2 = l\<lparr>liWorld := (True, x), liRun := RunOver (Some CtxCanceled),
      liCanal := (if waits then Some None else None), liSource := ?s\<rparr>"
    using assms(8) by (simp add: run_report_def demo_env_def)
  ultimately show ?thesis by simp
qed

text \<open>The consumer leaves, and \<open>Listen\<close> returns.\<close>

lemma demo_returns:
  assumes "\<not> liCrash l" and "liMain l = AwaitSource" and "liRun l = RunOver (Some e)" and "liWorld l = (True, x)"
    and "liConsumer l = Waiting" and "\<not> msRunning (liSource l)"
  shows "(listen_step (demo_env waits))\<^sup>*\<^sup>* l (l\<lparr>liConsumer := Exited, liMain := ListenReturned (Some e)\<rparr>)"
proof -
  let ?env = "demo_env waits"
  let ?l1 = "l\<lparr>liConsumer := Exited\<rparr>"
  have "program_step ?env l ?l1"
    using assms by (intro consumer_canceled) (simp_all add: running_def demo_env_def)
  moreover
  let ?l2 = "?l1\<lparr>liWorld := leCancel ?env (liWorld ?l1), liMain := AwaitConsumer (Some e)\<rparr>"
  have "program_step ?env ?l1 ?l2" using assms by (intro main_failed) (simp_all add: running_def)
  moreover
  let ?l3 = "?l2\<lparr>liSource := liSource ?l2, liWorld := (True, x), liMain := ListenReturned (Some e)\<rparr>"
  have "program_step ?env ?l2 ?l3"
    using assms by (intro main_closes) (simp_all add: running_def close_stopped demo_env_def demo_store_def demo_producer_def)
  ultimately have "(listen_step ?env)\<^sup>*\<^sup>* l ?l3"
    by (meson listen_step_def rtranclp.rtrancl_into_rtrancl rtranclp.rtrancl_refl)
  moreover have "?l3 = l\<lparr>liConsumer := Exited, liMain := ListenReturned (Some e)\<rparr>"
    using assms(4) by simp
  ultimately show ?thesis by simp
qed

definition demo_end :: "demo_world listen" where
  "demo_end = (listen_start (WithStore demo_source demo_store) (True, Some (encode demo_position)) [])
     \<lparr>liSource := (demo_ran True)\<lparr>msRunning := False,
        msChan := (make_chan 10240)\<lparr>chBuf := [demo_change], chClosed := True\<rparr>, msChanClosed := True\<rparr>,
      liRun := RunOver (Some CtxCanceled), liCanal := Some None, liConsumer := Exited,
      liMain := ListenReturned (Some CtxCanceled), liDelivered := [demo_change], liSaved := [demo_position]\<rparr>"

lemma demo_run:
  "(listen_step (demo_env True))\<^sup>*\<^sup>*
     (listen_start (WithStore demo_source demo_store) (False, None) [OnRowCall demo_rows, OnPosSyncedCall demo_position])
     demo_end"
proof -
  let ?env = "demo_env True" and ?s = "WithStore demo_source demo_store"
  let ?ch = "(make_chan 10240)\<lparr>chBuf := [demo_change]\<rparr>"
  let ?l1 = "(listen_start ?s (False, None) [OnPosSyncedCall demo_position])
    \<lparr>liSource := (demo_ran True)\<lparr>msChan := ?ch\<rparr>, liRun := RunSelecting, liDelivered := [demo_change]\<rparr>"
  let ?l2 = "(listen_start ?s (False, Some (encode demo_position)) [])
    \<lparr>liSource := (demo_ran True)\<lparr>msChan := ?ch\<rparr>, liRun := RunSelecting, liDelivered := [demo_change],
     liSaved := [demo_position]\<rparr>"
  have "outside_step ?env ?l1 (?l1\<lparr>liTodo := [], liWorld := (False, Some (encode demo_position)),
      liSaved := liSaved ?l1 @ (if None = (None :: go_error option) then [demo_position] else [])\<rparr>)"
    by (rule canal_synced) (simp_all add: demo_defs OnPosSynced_def savePosition_def encode_def)
  then have saved: "(listen_step ?env)\<^sup>*\<^sup>* ?l1 ?l2"
    by (simp add: listen_start_def listen_step_def r_into_rtranclp)
  let ?l3 = "?l2\<lparr>liWorld := (True, Some (encode demo_position)), liRun := RunOver (Some CtxCanceled), liCanal := Some None,
    liSource := (demo_ran True)\<lparr>msRunning := False, msChan := ?ch\<lparr>chClosed := True\<rparr>, msChanClosed := True\<rparr>\<rparr>"
  have stopped: "(listen_step ?env)\<^sup>*\<^sup>* ?l2 ?l3"
    using demo_stops [of ?l2 "Some (encode demo_position)" ?ch True] by (simp add: listen_start_def make_chan_def)
  have returned: "(listen_step ?env)\<^sup>*\<^sup>* ?l3 (?l3\<lparr>liConsumer := Exited, liMain := ListenReturned (Some CtxCanceled)\<rparr>)"
    by (rule demo_returns) (simp_all add: listen_start_def)
  have final: "?l3\<lparr>liConsumer := Exited, liMain := ListenReturned (Some CtxCanceled)\<rparr> = demo_end"
    by (simp add: demo_end_def listen_start_def)
  show ?thesis
    by (rule rtranclp_trans [OF demo_delivers rtranclp_trans [OF saved rtranclp_trans [OF stopped returned [unfolded final]]]])
qed

text \<open>The same shutdown with a canal whose \<open>Close\<close> does not wait: the next row finds the channel closed.\<close>

lemma demo_crash:
  "\<exists>l. (listen_step (demo_env False))\<^sup>*\<^sup>*
      (listen_start (WithStore demo_source demo_store) (False, None) [OnRowCall demo_rows, OnRowCall demo_rows]) l \<and>
     liCrash l"
proof -
  let ?env = "demo_env False" and ?s = "WithStore demo_source demo_store"
  let ?ch = "(make_chan 10240)\<lparr>chBuf := [demo_change]\<rparr>"
  let ?l1 = "(listen_start ?s (False, None) [OnRowCall demo_rows])
    \<lparr>liSource := (demo_ran False)\<lparr>msChan := ?ch\<rparr>, liRun := RunSelecting, liDelivered := [demo_change]\<rparr>"
  let ?l2 = "?l1\<lparr>liTodo := [], liPending := row_events (\<lambda>_. 0) demo_rows 0\<rparr>"
  have "outside_step ?env ?l1 ?l2" by (rule canal_row) (simp_all add: demo_defs)
  then have row: "(listen_step ?env)\<^sup>*\<^sup>* ?l1 ?l2" by (simp add: listen_step_def r_into_rtranclp)
  let ?l3 = "?l2\<lparr>liWorld := (True, None), liRun := RunOver (Some CtxCanceled), liCanal := None,
    liSource := (demo_ran False)\<lparr>msRunning := False, msChan := ?ch\<lparr>chClosed := True\<rparr>, msChanClosed := True\<rparr>\<rparr>"
  have stopped: "(listen_step ?env)\<^sup>*\<^sup>* ?l2 ?l3"
    using demo_stops [of ?l2 None ?ch False] by (simp add: listen_start_def make_chan_def)
  have "program_step ?env ?l3 (?l3\<lparr>liCrash := True\<rparr>)"
    using demo_row by (intro row_panics [where ev = demo_change and evs = "[]" and m = "''send on closed channel''"])
      (simp_all add: demo_defs)
  then have crash: "(listen_step ?env)\<^sup>*\<^sup>* ?l3 (?l3\<lparr>liCrash := True\<rparr>)" by (simp add: listen_step_def r_into_rtranclp)
  show ?thesis
    using rtranclp_trans [OF demo_delivers rtranclp_trans [OF row rtranclp_trans [OF stopped crash]]]
    by (intro exI [of _ "?l3\<lparr>liCrash := True\<rparr>"]) simp
qed

section \<open>Properties\<close>

lemma SetupComponents_source:
  assumes "SetupComponents rg cfg w0 = Returns (Inr cs, w)"
  shows "\<exists>s w1 w2. NewSource (rgCanal rg) (cfSource cfg) w1 = (Inr s, w2) \<and> cmSource cs = WithStore s (cmStore cs)"
  using assms by (fastforce simp: SetupComponents_def Let_def split: prod.splits sum.splits outcome.splits)

lemma Listen_begin_inv:
  assumes "Listen_begin rg cfg w0 todo = Returns (Inr (cs, l0))" and "listens_on env cs c"
  shows "listen_inv env c l0"
proof -
  obtain w where created: "SetupComponents rg cfg w0 = Returns (Inr cs, w)" and l0: "l0 = listen_start (cmSource cs) w todo"
    using assms(1) by (auto simp: Listen_begin_def split: outcome.splits prod.splits sum.splits)
  obtain s w1 w2 where s: "NewSource (rgCanal rg) (cfSource cfg) w1 = (Inr s, w2)" "cmSource cs = WithStore s (cmStore cs)"
    using SetupComponents_source [OF created] by blast
  show ?thesis
    unfolding l0 using assms(2) s
    by (intro listen_start_inv)
      (auto simp: listens_on_def NewSource_def NewMySQLSource_def WithStore_def source_ok_def make_chan_def Let_def
        split: prod.splits sum.splits if_splits)
qed

lemma Listen_reachable:
  assumes "Listen_begin rg cfg w0 todo = Returns (Inr (cs, l0))" and "listens_on env cs c" and "(listen_step env)\<^sup>*\<^sup>* l0 l"
  shows "listen_inv env c l"
proof -
  obtain n where n: "(listen_step env ^^ n) l0 l" using rtranclp_imp_relpowp [OF assms(3)] by blast
  have "proper_env env c" using assms(2) by (simp add: listens_on_def)
  with listen_steps [OF n] Listen_begin_inv [OF assms(1,2)] show ?thesis by blast
qed

text \<open>
  C1. Every event reaches the producer once, in the order of the binlog. At any time the events put
  into the channel are, in order, those handed to the producer, the one being sent, and those still
  in the channel, which never holds more than 10240. When \<open>Listen\<close> returned the consumer had left
  before the components were closed, and unless the context was over every event had been handed
  over. If the canal's \<open>Close\<close> waits for its callbacks, nothing panics.
\<close>

theorem events_in_order:
  assumes "Listen_begin rg cfg w0 todo = Returns (Inr (cs, l0))" and "listens_on env cs c"
    and "(listen_step env)\<^sup>*\<^sup>* l0 l"
  shows "liDelivered l = map fst (liHanded l) @ in_flight (liConsumer l) @ chBuf (msChan (liSource l)) \<and>
    length (chBuf (msChan (liSource l))) \<le> 10240 \<and>
    (\<forall>r. liMain l = ListenReturned r \<longrightarrow> liConsumer l = Exited \<and> liRun l = RunOver r \<and>
       (leCtx env (liWorld l) = None \<longrightarrow> map fst (liHanded l) = liDelivered l)) \<and>
    (leWaits env \<longrightarrow> \<not> liCrash l)"
  using Listen_reachable [OF assms] by (auto simp: inv_defs)

text \<open>
  C8. Listening ends. From any state a run has at most as many steps as there is work left; and once
  the context is over or the canal has returned, a run that cannot go on has returned, or crashed.
  Before that the program only ever waits when there is nothing to deliver.
\<close>

theorem listen_ends:
  assumes "Listen_begin rg cfg w0 todo = Returns (Inr (cs, l0))" and "listens_on env cs c"
    and "(listen_step env)\<^sup>*\<^sup>* l0 l"
  shows "((listen_step env ^^ n) l l' \<longrightarrow> n + work env l' \<le> work env l) \<and>
    ((\<nexists>l'. program_step env l l') \<longrightarrow>
       liCrash l \<or> (\<exists>r. liMain l = ListenReturned r) \<or>
       leCtx env (liWorld l) = None \<and> liCanal l = None \<and> liPending l = [] \<and> chBuf (msChan (liSource l)) = [])"
proof -
  have inv: "listen_inv env c l" by (rule Listen_reachable [OF assms])
  have "proper_env env c" using assms(2) by (simp add: listens_on_def)
  then have "(listen_step env ^^ n) l l' \<Longrightarrow> n + work env l' \<le> work env l" using listen_steps [OF _ _ inv] by blast
  moreover have "running l \<Longrightarrow> \<nexists>l'. program_step env l l' \<Longrightarrow> idle env l" using progress [OF _ inv] by blast
  ultimately show ?thesis by (auto simp: running_def idle_def)
qed

theorem events_in_order_witness:
  "\<exists>cfg cs l0 l. Listen_begin demo_registries cfg (False, None) [OnRowCall demo_rows, OnPosSyncedCall demo_position] =
       Returns (Inr (cs, l0)) \<and> listens_on (demo_env True) cs demo_canal \<and> (listen_step (demo_env True))\<^sup>*\<^sup>* l0 l \<and>
     liDelivered l = [demo_change] \<and>
     liDelivered l = map fst (liHanded l) @ in_flight (liConsumer l) @ chBuf (msChan (liSource l))"
proof -
  note started = demo_begin [of undefined undefined "[OnRowCall demo_rows, OnPosSyncedCall demo_position]"]
  have "liDelivered demo_end = [demo_change]" by (simp add: demo_end_def)
  with events_in_order [OF started demo_listens demo_run] started demo_listens [of True] demo_run show ?thesis by blast
qed

theorem listen_ends_witness:
  "\<exists>cfg cs l0 l. Listen_begin demo_registries cfg (False, None) [OnRowCall demo_rows, OnPosSyncedCall demo_position] =
       Returns (Inr (cs, l0)) \<and> listens_on (demo_env True) cs demo_canal \<and> (listen_step (demo_env True))\<^sup>*\<^sup>* l0 l \<and>
     0 + work (demo_env True) l \<le> work (demo_env True) l \<and> liMain l = ListenReturned (Some CtxCanceled)"
proof -
  note started = demo_begin [of undefined undefined "[OnRowCall demo_rows, OnPosSyncedCall demo_position]"]
  have "liMain demo_end = ListenReturned (Some CtxCanceled)" by (simp add: demo_end_def)
  moreover have "(listen_step (demo_env True) ^^ 0) demo_end demo_end" by simp
  ultimately show ?thesis
    using listen_ends [OF started demo_listens demo_run, of 0 demo_end] started demo_listens [of True] demo_run by blast
qed

text \<open>
  C9. What a shutdown can lose. The position after an event is saved once the event is in the
  channel, not once it was sent; a consumer that finds its context over leaves the events in the
  channel. So \<open>Listen\<close> can return with an event that was never handed to the producer and a saved
  position behind it, from which the next start resumes. And when the canal's \<open>Close\<close> does not wait
  for its callbacks, the shutdown can panic with a send on the closed channel.
\<close>

theorem shutdown_can_lose_events:
  "(\<exists>rg cfg w todo env cs c l0 ev pos l. Listen_begin rg cfg w todo = Returns (Inr (cs, l0)) \<and> listens_on env cs c \<and>
      leWaits env \<and> (listen_step env)\<^sup>*\<^sup>* l0 (l :: demo_world listen) \<and>
      liMain l = ListenReturned (Some CtxCanceled) \<and> liDelivered l = [ev] \<and> liHanded l = [] \<and>
      liSaved l = [pos] \<and> uint (ePos ev) < uint (posPos pos) \<and>
      fst (loadPosition (cmStore cs) (Some c) (liWorld l)) = pos) \<and>
   (\<exists>rg cfg w todo env cs c l0 l. Listen_begin rg cfg w todo = Returns (Inr (cs, l0)) \<and> listens_on env cs c \<and>
      \<not> leWaits env \<and> (listen_step env)\<^sup>*\<^sup>* l0 (l :: demo_world listen) \<and> liCrash l)"
proof (intro conjI)
  let ?w = "(False, None) :: demo_world" and ?cfg = "\<lparr>cfStore = undefined, cfSource = demo_config, cfProducer = undefined\<rparr>"
  have "unmarshal_position (encode demo_position) = Inr \<lparr>mpFile = ''bin.1'', mpPos = 200\<rparr>"
    by (simp add: encode_def demo_position_def position_roundtrip valid_utf8.simps)
  moreover have "encode demo_position \<noteq> []" by (simp add: encode_def marshal_position_def)
  ultimately have resumed: "fst (loadPosition (cmStore demo_components) (Some demo_canal) (liWorld demo_end)) = demo_position"
    by (simp add: demo_end_def loadPosition_def demo_store_def demo_position_def listen_start_def demo_components_def)
  have pos: "uint (ePos demo_change) < uint (posPos demo_position)"
    by (simp add: demo_change_def change_event_def demo_rows_def demo_position_def)
  have ended: "liMain demo_end = ListenReturned (Some CtxCanceled)" "liDelivered demo_end = [demo_change]"
    "liHanded demo_end = []" "liSaved demo_end = [demo_position]"
    by (simp_all add: demo_end_def listen_start_def)
  have waits: "leWaits (demo_env True)" "\<not> leWaits (demo_env False)" by (simp_all add: demo_env_def)
  show "\<exists>rg cfg w todo env cs c l0 ev pos l. Listen_begin rg cfg w todo = Returns (Inr (cs, l0)) \<and> listens_on env cs c \<and>
      leWaits env \<and> (listen_step env)\<^sup>*\<^sup>* l0 (l :: demo_world listen) \<and>
      liMain l = ListenReturned (Some CtxCanceled) \<and> liDelivered l = [ev] \<and> liHanded l = [] \<and>
      liSaved l = [pos] \<and> uint (ePos ev) < uint (posPos pos) \<and>
      fst (loadPosition (cmStore cs) (Some c) (liWorld l)) = pos"
    using demo_begin [of undefined undefined "[OnRowCall demo_rows, OnPosSyncedCall demo_position]"]
      demo_listens [of True] waits(1) demo_run ended pos resumed
    by blast
  obtain l where l: "(listen_step (demo_env False))\<^sup>*\<^sup>* (listen_start (WithStore demo_source demo_store) ?w
      [OnRowCall demo_rows, OnRowCall demo_rows]) l" "liCrash l"
    using demo_crash by blast
  show "\<exists>rg cfg w todo env cs c l0 l. Listen_begin rg cfg w todo = Returns (Inr (cs, l0)) \<and> listens_on env cs c \<and>
      \<not> leWaits env \<and> (listen_step env)\<^sup>*\<^sup>* l0 (l :: demo_world listen) \<and> liCrash l"
    using demo_begin [of undefined undefined "[OnRowCall demo_rows, OnRowCall demo_rows]"]
      demo_listens [of False] waits(2) l
    by blast
qed

end
