(* ===== verification/Task_Watchers.thy ===== *)
theory Task_Watchers
  imports Prelude
begin

text \<open>
  \<open>task/task.go\<close> and \<open>task/watchers.go\<close>: the tables a task watches, their validation, and the
  index that routes a table, written \<open>db.table\<close>, to the tasks watching it.
\<close>

section \<open>Tables and tasks\<close>

record Table =
  tDatabase :: string
  tName :: string
  tPrimaryKey :: string
  tRefColumn :: string

text \<open>
  The interface \<open>ITask\<close>. The two runs may do anything to the world; what a run reports is its
  error. \<open>taskType\<close> is what \<open>%T\<close> prints.
\<close>

record 'w ITask =
  taskType :: string
  MainTable :: Table
  SubTables :: "Table list"
  RunByPrimaryKey :: "'w ctx \<Rightarrow> Table \<Rightarrow> go_val \<Rightarrow> 'w \<Rightarrow> go_error option \<times> 'w"
  RunByTimeRange :: "'w ctx \<Rightarrow> Table \<Rightarrow> go_time \<Rightarrow> go_time \<Rightarrow> 'w \<Rightarrow> go_error option \<times> 'w"

record 'w watcher =
  wTask :: "'w ITask"
  wTable :: Table
  wMain :: bool

type_synonym 'w watchers = "string \<rightharpoonup> 'w watcher list"

section \<open>Keys and validation\<close>

definition tableKeyOf :: "string \<Rightarrow> string \<Rightarrow> string" where
  "tableKeyOf database table = database @ ''.'' @ table"

definition validateTable :: "Table \<Rightarrow> bool \<Rightarrow> go_error option" where
  "validateTable t main =
     (if tDatabase t = '''' \<or> tName t = '''' then
        Some (ErrNew ''a table needs a database and a name, got %q.%q'' [FStr (tDatabase t), FStr (tName t)])
      else if strings_Contains (tDatabase t) ''.'' \<or> strings_Contains (tName t) ''.'' then
        Some (ErrNew ''neither the database %q nor the table %q can hold a dot: a table is addressed as db.table''
          [FStr (tDatabase t), FStr (tName t)])
      else if main then
        (if tPrimaryKey t = '''' then
           Some (ErrNew ''the main table %s.%s needs a primary key: the column holding the value the tasks are run by''
             [FStr (tDatabase t), FStr (tName t)])
         else None)
      else if tRefColumn t = '''' then
        Some (ErrNew ''the sub table %s.%s needs a ref_column: the column holding the primary key of the main table''
          [FStr (tDatabase t), FStr (tName t)])
      else None)"

definition tableKey :: "Table \<Rightarrow> string" where
  "tableKey t = tableKeyOf (tDatabase t) (tName t)"

section \<open>The index\<close>

definition watchers_add :: "'w watchers \<Rightarrow> Table \<Rightarrow> 'w watcher \<Rightarrow> 'w watchers" where
  "watchers_add ws t w =
     (let key = tableKeyOf (tDatabase t) (tName t) in map_append ws key w)"

definition watchers_of :: "'w watchers \<Rightarrow> string \<Rightarrow> 'w watcher list" where
  "watchers_of ws key = slice_of ws key"

definition watchers_named :: "'w watchers \<Rightarrow> string \<Rightarrow> go_error + 'w watcher list" where
  "watchers_named ws table =
     (if \<not> strings_Contains table ''.'' then
        Inl (ErrNew ''the table %q has to be written as db.table'' [FStr table])
      else let found = watchers_of ws table in
        if length found = 0 then Inl (ErrNew ''no task watches the table %s'' [FStr table])
        else Inr found)"

text \<open>
  The inner loop of \<open>indexTasks\<close>: the sub tables of one task, with the keys the task has
  already declared.
\<close>

fun indexSubs :: "'w ITask \<Rightarrow> string set \<Rightarrow> Table list \<Rightarrow> 'w watchers \<Rightarrow> go_error + 'w watchers" where
  "indexSubs t declared [] index = Inr index"
| "indexSubs t declared (sub # subs) index =
     (case validateTable sub False of
        Some err \<Rightarrow> Inl (Wrap ''in %T: %w'' [FStr (taskType t)] err)
      | None \<Rightarrow>
          (let key = tableKeyOf (tDatabase sub) (tName sub) in
           if key \<in> declared then
             Inl (ErrNew ''in %T: the table %s is declared twice, so one of its changes would be run twice''
               [FStr (taskType t), FStr key])
           else
             indexSubs t (insert key declared) subs
               (watchers_add index sub \<lparr>wTask = t, wTable = sub, wMain = False\<rparr>)))"

fun indexLoop :: "'w ITask list \<Rightarrow> 'w watchers \<Rightarrow> go_error + 'w watchers" where
  "indexLoop [] index = Inr index"
| "indexLoop (t # ts) index =
     (let main = MainTable t in
      case validateTable main True of
        Some err \<Rightarrow> Inl (Wrap ''in %T: %w'' [FStr (taskType t)] err)
      | None \<Rightarrow>
          (case indexSubs t {tableKeyOf (tDatabase main) (tName main)} (SubTables t)
                  (watchers_add index main \<lparr>wTask = t, wTable = main, wMain = True\<rparr>) of
             Inl err \<Rightarrow> Inl err
           | Inr index' \<Rightarrow> indexLoop ts index'))"

definition indexTasks :: "'w ITask list \<Rightarrow> go_error + 'w watchers" where
  "indexTasks tasks = indexLoop tasks Map.empty"

definition keyColumn :: "'w watcher \<Rightarrow> string" where
  "keyColumn w = (if wMain w then tPrimaryKey (wTable w) else tRefColumn (wTable w))"

definition keyRole :: "'w watcher \<Rightarrow> string" where
  "keyRole w = (if wMain w then ''primary key'' else ''ref_column'')"

section \<open>What the index holds\<close>

text \<open>The specification: the declarations of a task, and when they can be routed.\<close>

definition declarations :: "'w ITask \<Rightarrow> 'w watcher list" where
  "declarations t =
     \<lparr>wTask = t, wTable = MainTable t, wMain = True\<rparr>
     # map (\<lambda>s. \<lparr>wTask = t, wTable = s, wMain = False\<rparr>) (SubTables t)"

definition declared_tables :: "'w ITask \<Rightarrow> Table list" where
  "declared_tables t = MainTable t # SubTables t"

definition routable :: "'w ITask \<Rightarrow> bool" where
  "routable t \<longleftrightarrow>
     validateTable (MainTable t) True = None \<and>
     (\<forall>s \<in> set (SubTables t). validateTable s False = None) \<and>
     distinct (map tableKey (declared_tables t))"

definition plain_name :: "string \<Rightarrow> bool" where
  "plain_name s \<longleftrightarrow> s \<noteq> '''' \<and> CHR ''.'' \<notin> set s"

lemma validateTable_None:
  "validateTable t main = None \<longleftrightarrow>
     plain_name (tDatabase t) \<and> plain_name (tName t) \<and>
     (if main then tPrimaryKey t \<noteq> '''' else tRefColumn t \<noteq> '''')"
  by (auto simp: validateTable_def plain_name_def)

lemma watchers_of_add [simp]:
  "watchers_of (watchers_add ws t w) key =
     (if key = tableKey t then watchers_of ws key @ [w] else watchers_of ws key)"
  by (simp add: watchers_of_def watchers_add_def tableKey_def)

lemma watchers_of_empty [simp]: "watchers_of Map.empty key = []"
  by (simp add: watchers_of_def)

lemma indexSubs_Inr_iff:
  "(\<exists>m. indexSubs t declared subs index = Inr m) \<longleftrightarrow>
     (\<forall>s \<in> set subs. validateTable s False = None) \<and>
     distinct (map tableKey subs) \<and> tableKey ` set subs \<inter> declared = {}"
  by (induction subs arbitrary: declared index)
    (auto simp: tableKey_def Let_def split: option.split)

lemma indexSubs_of:
  "indexSubs t declared subs index = Inr m \<Longrightarrow>
   watchers_of m key = watchers_of index key
     @ filter (\<lambda>w. tableKey (wTable w) = key) (map (\<lambda>s. \<lparr>wTask = t, wTable = s, wMain = False\<rparr>) subs)"
  by (induction subs arbitrary: declared index)
    (auto simp: Let_def tableKey_def split: option.splits if_splits)

lemma indexLoop_of:
  "indexLoop ts index = Inr m \<Longrightarrow>
   watchers_of m key = watchers_of index key
     @ filter (\<lambda>w. tableKey (wTable w) = key) (concat (map declarations ts))"
proof (induction ts arbitrary: index)
  case Nil
  then show ?case by simp
next
  case (Cons t ts)
  from Cons.prems obtain index' where
    subs: "indexSubs t {tableKey (MainTable t)} (SubTables t)
             (watchers_add index (MainTable t) \<lparr>wTask = t, wTable = MainTable t, wMain = True\<rparr>) = Inr index'"
    and rest: "indexLoop ts index' = Inr m"
    by (auto simp: Let_def tableKey_def split: option.splits sum.splits)
  show ?case
    using Cons.IH [OF rest] indexSubs_of [OF subs, of key] by (simp add: declarations_def)
qed

lemma indexLoop_Inr_iff: "(\<exists>m. indexLoop ts index = Inr m) \<longleftrightarrow> (\<forall>t \<in> set ts. routable t)"
proof (induction ts arbitrary: index)
  case Nil
  then show ?case by simp
next
  case (Cons t ts)
  let ?index = "watchers_add index (MainTable t) \<lparr>wTask = t, wTable = MainTable t, wMain = True\<rparr>"
  have subs: "(\<exists>m. indexSubs t {tableKey (MainTable t)} (SubTables t) ?index = Inr m) \<longleftrightarrow>
      (\<forall>s \<in> set (SubTables t). validateTable s False = None) \<and>
      distinct (map tableKey (declared_tables t))"
    unfolding indexSubs_Inr_iff declared_tables_def by auto
  show ?case
  proof (cases "indexSubs t {tableKey (MainTable t)} (SubTables t) ?index")
    case (Inl e)
    with subs have "\<not> routable t" by (auto simp: routable_def)
    with Inl show ?thesis by (auto simp: Let_def tableKey_def split: option.split)
  next
    case (Inr m)
    with subs have "routable t \<longleftrightarrow> validateTable (MainTable t) True = None"
      by (auto simp: routable_def)
    with Inr show ?thesis
      by (auto simp: Let_def tableKey_def Cons.IH split: option.split)
  qed
qed

lemma tableKeyOf_plain_inject:
  assumes key: "tableKeyOf d n = tableKeyOf d' n'" and plain: "plain_name d'" "plain_name n'"
  shows "d = d' \<and> n = n'"
proof -
  have "count_list (d @ CHR ''.'' # n) (CHR ''.'') = 1"
    using key plain by (simp add: tableKeyOf_def plain_name_def count_list_zero_iff)
  then have "CHR ''.'' \<notin> set d" "CHR ''.'' \<notin> set n"
    by (auto simp: count_list_zero_iff [symmetric])
  with key plain show ?thesis
    using append_char_unique [of d "CHR ''.''" n d' n'] by (simp add: tableKeyOf_def plain_name_def)
qed

lemma declarations_routable_plain:
  "routable t \<Longrightarrow> w \<in> set (declarations t) \<Longrightarrow>
   plain_name (tDatabase (wTable w)) \<and> plain_name (tName (wTable w)) \<and> keyColumn w \<noteq> ''''"
  by (auto simp: routable_def declarations_def validateTable_None keyColumn_def)

text \<open>
  Routing is exact: whatever names a change carries, its key leads to the declarations of
  that very table, in the order of the tasks, and to nothing else.
\<close>

lemma indexTasks_routes:
  assumes "indexTasks tasks = Inr m"
  shows "watchers_of m (tableKeyOf db tbl) =
    filter (\<lambda>w. tDatabase (wTable w) = db \<and> tName (wTable w) = tbl) (concat (map declarations tasks))"
proof -
  have ok: "\<forall>t \<in> set tasks. routable t"
    using assms indexLoop_Inr_iff [of tasks Map.empty] by (auto simp: indexTasks_def)
  have "watchers_of m (tableKeyOf db tbl) =
      filter (\<lambda>w. tableKey (wTable w) = tableKeyOf db tbl) (concat (map declarations tasks))"
    using indexLoop_of [of tasks Map.empty m "tableKeyOf db tbl"] assms by (simp add: indexTasks_def)
  also have "\<dots> = filter (\<lambda>w. tDatabase (wTable w) = db \<and> tName (wTable w) = tbl)
      (concat (map declarations tasks))"
    using ok by (intro filter_cong refl)
      (auto simp: tableKey_def dest: declarations_routable_plain tableKeyOf_plain_inject [OF sym])
  finally show ?thesis .
qed

lemma declarations_one_per_key:
  assumes "routable t"
  shows "length (filter (\<lambda>w. tableKey (wTable w) = key) (declarations t)) \<le> 1"
proof -
  have keys: "map (\<lambda>w. tableKey (wTable w)) (declarations t) = map tableKey (declared_tables t)"
    by (simp add: declarations_def declared_tables_def)
  have gen: "length (filter (\<lambda>w. f w = key) ws) \<le> 1" if "distinct (map f ws)"
    for f and ws :: "'a watcher list"
    using that by (induction ws) (auto simp: filter_empty_conv intro: rev_image_eqI)
  show ?thesis using assms by (intro gen) (simp add: keys routable_def)
qed

text \<open>The conditions on a task in terms of the names it declares.\<close>

definition well_declared :: "'w ITask \<Rightarrow> bool" where
  "well_declared t \<longleftrightarrow>
     tPrimaryKey (MainTable t) \<noteq> '''' \<and>
     list_all (\<lambda>s. tRefColumn s \<noteq> '''') (SubTables t) \<and>
     list_all (\<lambda>s. plain_name (tDatabase s) \<and> plain_name (tName s)) (declared_tables t) \<and>
     distinct (map (\<lambda>s. (tDatabase s, tName s)) (declared_tables t))"

lemma routable_iff: "routable t \<longleftrightarrow> well_declared t"
proof (cases "list_all (\<lambda>s. plain_name (tDatabase s) \<and> plain_name (tName s)) (declared_tables t)")
  case True
  then have "distinct (map tableKey (declared_tables t)) \<longleftrightarrow>
      distinct (map (\<lambda>s. (tDatabase s, tName s)) (declared_tables t))"
    unfolding distinct_map inj_on_def list_all_iff
    by (auto simp: tableKey_def dest: tableKeyOf_plain_inject)
  with True show ?thesis
    by (auto simp: routable_def well_declared_def validateTable_None list_all_iff declared_tables_def)
next
  case False
  then show ?thesis
    by (auto simp: routable_def well_declared_def validateTable_None list_all_iff declared_tables_def)
qed

end
