(* ===== verification/Consumer_Core.thy ===== *)
theory Consumer_Core
  imports Event_Json "HOL-Library.Sublist"
begin

text \<open>
  \<open>queue/consumer/consumer.go\<close>: the consumer interface, the registry of consumer types, and what
  is done with one message. The loops of the consumers are bodies given to a shared \<open>for {}\<close> with
  fuel; each iteration also yields the actions it took, so that what a consumer does with a
  message can be stated. The lemmas about the loop are shared through the locale
  \<open>settling\<close>, which the consumers with acknowledgements interpret.
\<close>

section \<open>The interface\<close>

type_synonym 'w handler = "'w ctx \<Rightarrow> EventData \<Rightarrow> 'w \<Rightarrow> go_error option \<times> 'w"

record 'w IConsumer =
  Consume :: "'w ctx \<Rightarrow> 'w handler \<Rightarrow> 'w \<Rightarrow> go_error option \<times> 'w"
  CloseConsumer :: "'w \<Rightarrow> go_error option \<times> 'w"

record RedisConsumerConfig =
  rccAddr :: string
  rccPassword :: string
  rccDB :: int
  rccKey :: string
  rccTimeout :: int

record KafkaConsumerConfig =
  kccBrokers :: "string list"
  kccTopic :: string
  kccGroup :: string
  kccStartOffset :: string

record RabbitMQConsumerConfig =
  rmcURL :: string
  rmcExchange :: string
  rmcExchangeType :: string
  rmcRoutingKey :: string
  rmcQueue :: string
  rmcDurable :: bool
  rmcAutoDelete :: bool
  rmcExclusive :: bool
  rmcNoWait :: bool
  rmcPrefetch :: int
  rmcDropOnError :: bool
  rmcConsumerTag :: string

record RocketMQConsumerConfig =
  rkcServers :: "string list"
  rkcTopic :: string
  rkcGroup :: string
  rkcNamespace :: string
  rkcAccessKey :: string
  rkcSecretKey :: string
  rkcConsumeFromWhere :: string
  rkcConsumeGoroutineNums :: int

record PulsarConsumerConfig =
  plcURL :: string
  plcTopic :: string
  plcSubscription :: string
  plcSubscriptionType :: string
  plcSubscriptionInitialPosition :: string
  plcToken :: string
  plcOperationTimeout :: int
  plcConnectionTimeout :: int
  plcNackRedeliveryDelay :: int

record ConsumerConfig =
  ccType :: string
  ccRedis :: RedisConsumerConfig
  ccKafka :: KafkaConsumerConfig
  ccRabbitMQ :: RabbitMQConsumerConfig
  ccRocketMQ :: RocketMQConsumerConfig
  ccPulsar :: PulsarConsumerConfig

type_synonym ('cfg, 'c, 'w) consumer_creator = "'cfg \<Rightarrow> 'w \<Rightarrow> (go_error + 'c) \<times> 'w"
type_synonym ('c, 'w) consumer_registry = "string \<rightharpoonup> (ConsumerConfig, 'c, 'w) consumer_creator"

definition RegisterConsumer :: "('c, 'w) consumer_registry \<Rightarrow> string \<Rightarrow>
    (ConsumerConfig, 'c, 'w) consumer_creator \<Rightarrow> ('c, 'w) consumer_registry" where
  "RegisterConsumer m ty fn = m(ty \<mapsto> fn)"

record ('c, 'w) consumer_creators =
  mkRedis :: "(RedisConsumerConfig, 'c, 'w) consumer_creator"
  mkKafka :: "(KafkaConsumerConfig, 'c, 'w) consumer_creator"
  mkRabbitMQ :: "(RabbitMQConsumerConfig, 'c, 'w) consumer_creator"
  mkRocketMQ :: "(RocketMQConsumerConfig, 'c, 'w) consumer_creator"
  mkPulsar :: "(PulsarConsumerConfig, 'c, 'w) consumer_creator"

definition consumers :: "('c, 'w) consumer_creators \<Rightarrow> ('c, 'w) consumer_registry" where
  "consumers k =
     (let m = Map.empty;
          m = RegisterConsumer m ''redis'' (\<lambda>cfg. mkRedis k (ccRedis cfg));
          m = RegisterConsumer m ''kafka'' (\<lambda>cfg. mkKafka k (ccKafka cfg));
          m = RegisterConsumer m ''rabbitmq'' (\<lambda>cfg. mkRabbitMQ k (ccRabbitMQ cfg));
          m = RegisterConsumer m ''rocketmq'' (\<lambda>cfg. mkRocketMQ k (ccRocketMQ cfg));
          m = RegisterConsumer m ''pulsar'' (\<lambda>cfg. mkPulsar k (ccPulsar cfg))
      in m)"

definition NewConsumer :: "('c, 'w) consumer_registry \<Rightarrow> ConsumerConfig \<Rightarrow> 'w \<Rightarrow> (go_error + 'c) \<times> 'w" where
  "NewConsumer reg cfg w =
     (case reg (ccType cfg) of
        None \<Rightarrow> (Inl (ErrNew ''consumer type %s is not registered'' [FStr (ccType cfg)]), w)
      | Some creator \<Rightarrow> creator cfg w)"

section \<open>One message\<close>

datatype disposition = ackDisposition | retryDisposition

definition decodeEvent :: "string \<Rightarrow> go_error + EventData" where
  "decodeEvent payload =
     (case unmarshal_event payload of
        Inl err \<Rightarrow> Inl (Wrap ''invalid event payload: %w'' [] err)
      | Inr event \<Rightarrow> Inr event)"

definition processMessage :: "'w ctx \<Rightarrow> 'w handler \<Rightarrow> string \<Rightarrow> 'w \<Rightarrow> disposition \<times> 'w" where
  "processMessage ctx handler payload w =
     (case decodeEvent payload of
        Inl err \<Rightarrow> (ackDisposition, w)
      | Inr event \<Rightarrow>
          (case handler ctx event w of
             (Some err, w1) \<Rightarrow> (retryDisposition, w1)
           | (None, w1) \<Rightarrow> (ackDisposition, w1)))"

lemma processMessage_retry:
  "processMessage ctx handler payload w = (retryDisposition, w') \<longleftrightarrow>
     (\<exists>event err. unmarshal_event payload = Inr event \<and> handler ctx event w = (Some err, w'))"
  by (auto simp: processMessage_def decodeEvent_def split: sum.split option.split prod.split)

text \<open>What no handler call changes, \<open>processMessage\<close> leaves unchanged.\<close>

lemma processMessage_frame:
  assumes "processMessage ctx handler payload w = (d, w')"
    and "\<And>event e w1. handler ctx event w = (e, w1) \<Longrightarrow> f w1 = f w"
  shows "f w' = f w"
  using assms(1) assms(2)
  by (cases "decodeEvent payload")
    (auto simp: processMessage_def split: prod.splits option.splits)

lemma processMessage_ack:
  "processMessage ctx handler payload w = (ackDisposition, w') \<longleftrightarrow>
     (\<exists>err. unmarshal_event payload = Inl err \<and> w' = w) \<or>
     (\<exists>event. unmarshal_event payload = Inr event \<and> handler ctx event w = (None, w'))"
  by (auto simp: processMessage_def decodeEvent_def split: sum.split option.split prod.split)

section \<open>Closing\<close>

text \<open>
  The \<open>closed\<close> field, read and set under the consumer's mutex. \<open>Close\<close> may be called while
  \<open>Consume\<close> is running, so the field is part of the world and any call that goes through the
  world can find it set afterwards.
\<close>

record 'w flag =
  isSet :: "'w \<Rightarrow> bool"
  setFlag :: "'w \<Rightarrow> 'w"

text \<open>The same for fields of any type that one mutex guards: what they hold, and storing them.\<close>

record ('s, 'w) guarded =
  peek :: "'w \<Rightarrow> 's"
  poke :: "'s \<Rightarrow> 'w \<Rightarrow> 'w"

section \<open>The loop\<close>

text \<open>
  What a consumer does that can be seen from outside: it reads a message, the handler sees it (in
  a world), and it is acknowledged, or given back with or without requeueing, with the answer of
  the client library.
\<close>

datatype ('m, 'w) act =
    Fetched 'm
  | Handled 'm 'w disposition
  | Acked 'm "go_error option"
  | Nacked 'm bool "go_error option"

datatype loop_end = Continue | Stop "go_error option"

text \<open>
  \<open>for { body }\<close>: \<open>None\<close> means that the loop is still running when the fuel is spent. The actions
  of the iterations are collected in their order.
\<close>

fun for_loop :: "nat \<Rightarrow> ('w \<Rightarrow> 'a list \<times> loop_end \<times> 'w) \<Rightarrow> 'w \<Rightarrow> 'a list \<times> go_error option option \<times> 'w" where
  "for_loop 0 body w = ([], None, w)"
| "for_loop (Suc n) body w =
     (case body w of
        (acts, Stop r, w1) \<Rightarrow> (acts, Some r, w1)
      | (acts, Continue, w1) \<Rightarrow>
          (case for_loop n body w1 of (acts', r, w2) \<Rightarrow> (acts @ acts', r, w2)))"

lemma for_loop_induct [consumes 1, case_names spent stop continue]:
  assumes "for_loop n body w = (acts, r, w')"
    and "\<And>w. P [] None w w"
    and "\<And>w acts r w'. body w = (acts, Stop r, w') \<Longrightarrow> P acts (Some r) w w'"
    and "\<And>w acts w1 acts' r w'. body w = (acts, Continue, w1) \<Longrightarrow> P acts' r w1 w' \<Longrightarrow> P (acts @ acts') r w w'"
  shows "P acts r w w'"
  using assms(1)
proof (induction n arbitrary: w acts)
  case 0
  then show ?case using assms(2) by simp
next
  case (Suc n)
  obtain acts1 e w1 where body: "body w = (acts1, e, w1)" by (cases "body w") auto
  show ?case
  proof (cases e)
    case Continue
    with Suc.prems body obtain acts2 where "for_loop n body w1 = (acts2, r, w')" and "acts = acts1 @ acts2"
      by (auto split: prod.splits)
    with Suc.IH body Continue assms(4) show ?thesis by blast
  next
    case (Stop r1)
    with Suc.prems body have "acts1 = acts" "r = Some r1" "w1 = w'" by auto
    with Stop body assms(3) show ?thesis by blast
  qed
qed

text \<open>More fuel changes nothing once the loop has returned.\<close>

lemma for_loop_mono:
  "for_loop n body w = (acts, Some r, w') \<Longrightarrow> n \<le> m \<Longrightarrow> for_loop m body w = (acts, Some r, w')"
proof (induction n arbitrary: m w acts)
  case (Suc n)
  obtain k where k: "m = Suc k" "n \<le> k" using Suc.prems(2) by (cases m) auto
  obtain acts1 e w1 where body: "body w = (acts1, e, w1)" by (cases "body w") auto
  show ?case
  proof (cases e)
    case Continue
    with Suc.prems(1) body obtain acts2 where "for_loop n body w1 = (acts2, Some r, w')" "acts = acts1 @ acts2"
      by (auto split: prod.splits)
    with Suc.IH [OF this(1) k(2)] k body Continue show ?thesis by simp
  next
    case Stop
    with Suc.prems(1) body k show ?thesis by simp
  qed
qed simp

lemma for_loop_stopped:
  assumes "for_loop n body w = (acts, Some r, w')"
  shows "\<exists>w0 acts0. body w0 = (acts0, Stop r, w')"
proof -
  have "Some r = Some r \<longrightarrow> (\<exists>w0 acts0. body w0 = (acts0, Stop r, w'))"
    by (rule for_loop_induct [where P = "\<lambda>acts ro w w'. ro = Some r \<longrightarrow> (\<exists>w0 acts0. body w0 = (acts0, Stop r, w'))", OF assms]) auto
  then show ?thesis by simp
qed

section \<open>What every acknowledging consumer keeps\<close>

text \<open>
  One iteration of a loop that settles its messages one by one: it stops or goes on before a
  message is there, or it reads one message, has it handled, and then either leaves it, or settles
  it the way its disposition asks for.
\<close>

definition one_message :: "('m, 'w) act list \<Rightarrow> bool" where
  "one_message acts \<longleftrightarrow> acts = [] \<or>
     (\<exists>m w d. acts = [Fetched m, Handled m w d]) \<or>
     (\<exists>m w e. acts = [Fetched m, Handled m w ackDisposition, Acked m e]) \<or>
     (\<exists>m w rq e. acts = [Fetched m, Handled m w retryDisposition, Nacked m rq e])"

text \<open>
  A message is acknowledged only right after the handler accepted it, or when its payload is no
  event; a message is given back only right after the handler rejected it.
\<close>

definition rightly :: "('m \<Rightarrow> string) \<Rightarrow> 'w ctx \<Rightarrow> 'w handler \<Rightarrow>
    ('m, 'w) act list \<Rightarrow> ('m, 'w) act \<Rightarrow> bool" where
  "rightly payload ctx handler xs a \<longleftrightarrow>
     (case a of
        Acked m e \<Rightarrow>
          (\<exists>v. suffix [Fetched m, Handled m v ackDisposition] xs \<and>
             ((\<exists>err. unmarshal_event (payload m) = Inl err) \<or>
              (\<exists>event. unmarshal_event (payload m) = Inr event \<and> fst (handler ctx event v) = None)))
      | Nacked m rq e \<Rightarrow>
          (\<exists>v event err. suffix [Fetched m, Handled m v retryDisposition] xs \<and>
             unmarshal_event (payload m) = Inr event \<and> fst (handler ctx event v) = Some err)
      | _ \<Rightarrow> True)"

lemma rightly_extend: "rightly payload ctx handler zs a \<Longrightarrow>
   rightly payload ctx handler (xs @ zs) a"
  by (fastforce simp: rightly_def intro: suffix_appendI split: act.splits)

locale settling =
  fixes body :: "'w \<Rightarrow> ('m, 'w) act list \<times> loop_end \<times> 'w"
    and payload :: "'m \<Rightarrow> string"
    and ctx :: "'w ctx"
    and handler :: "'w handler"
  assumes iteration: "body w = (acts, e, w') \<Longrightarrow> one_message acts"
    and handled: "body w = (acts, e, w') \<Longrightarrow> Handled m v d \<in> set acts \<Longrightarrow>
      fst (processMessage ctx handler (payload m) v) = d"
begin

lemma accepted:
  assumes "fst (processMessage ctx handler p v) = ackDisposition"
  shows "(\<exists>err. unmarshal_event p = Inl err) \<or> (\<exists>event. unmarshal_event p = Inr event \<and> fst (handler ctx event v) = None)"
  using assms processMessage_ack [of ctx handler p v] by (metis fst_conv prod.collapse)

lemma rejected:
  assumes "fst (processMessage ctx handler p v) = retryDisposition"
  shows "\<exists>event err. unmarshal_event p = Inr event \<and> fst (handler ctx event v) = Some err"
  using assms processMessage_retry [of ctx handler p v] by (metis fst_conv prod.collapse)

lemma iteration_settles:
  assumes "body w = (acts, e, w')"
  shows "before (rightly payload ctx handler) acts"
proof -
  have "fst (processMessage ctx handler (payload m) v) = d" if "Handled m v d \<in> set acts" for m v d
    using handled [OF assms that] .
  with iteration [OF assms] show ?thesis
    unfolding one_message_def
    by (elim disjE exE) (fastforce simp: rightly_def dest: accepted rejected)+
qed

lemma loop_settles:
  assumes "for_loop n body w = (acts, r, w')"
  shows "before (rightly payload ctx handler) acts"
  using assms
  by (rule for_loop_induct)
    (auto intro: iteration_settles before_append_local rightly_extend)

text \<open>A message the handler rejected is not acknowledged before it is read again.\<close>

lemma rejected_not_acked:
  assumes "for_loop n body w = (xs @ Handled m v retryDisposition # Acked m' e # ys, r, w')"
  shows False
proof -
  have "before (rightly payload ctx handler) ((xs @ [Handled m v retryDisposition]) @ Acked m' e # ys)"
    using loop_settles [OF assms] by simp
  from beforeD [OF this] show False by (auto simp: rightly_def suffix_def)
qed

end

end
