(* ===== verification/Task_Runner.thy ===== *)
theory Task_Runner
  imports Task_Watchers Consumer_Core "HOL-Library.Multiset"
begin

text \<open>
  \<open>task/runner.go\<close>, the concurrent part of \<open>task/watchers.go\<close> and \<open>task/log_task.go\<close>: a change
  is routed to every task watching its table, one goroutine per task.

  The goroutines of one run are modelled by the order they take effect in, a \<^emph>\<open>schedule\<close>: a
  list of the indexes of the watchers. \<open>wg.Wait\<close> makes every schedule a complete one. A run of
  one task is one step of the world.
\<close>

section \<open>Running the watchers of one change\<close>

fun goroutines :: "'w watcher list \<Rightarrow> ('w watcher \<Rightarrow> 'w \<Rightarrow> go_error option \<times> 'w) \<Rightarrow>
    nat list \<Rightarrow> go_error option list \<Rightarrow> 'w \<Rightarrow> go_error option list \<times> 'w" where
  "goroutines ws fn [] errs w = (errs, w)"
| "goroutines ws fn (i # is) errs w =
     (let (e, w') = fn (ws ! i) w in goroutines ws fn is (errs[i := e]) w')"

type_synonym scheduler = "nat \<Rightarrow> nat list"

definition complete_schedule :: "scheduler \<Rightarrow> bool" where
  "complete_schedule sched \<longleftrightarrow> (\<forall>n. mset (sched n) = mset [0..<n])"

definition runEach :: "scheduler \<Rightarrow> 'w ctx \<Rightarrow> 'w watcher list \<Rightarrow>
    ('w watcher \<Rightarrow> 'w \<Rightarrow> go_error option \<times> 'w) \<Rightarrow> 'w \<Rightarrow> go_error option \<times> 'w" where
  "runEach sched ctx ws fn w =
     (case ctx w of
        Some err \<Rightarrow> (Some err, w)
      | None \<Rightarrow>
          (let (errs, w') = goroutines ws fn (sched (length ws)) (replicate (length ws) None) w
           in (errors_Join errs, w')))"

definition runTask :: "'w ctx \<Rightarrow> 'w watcher \<Rightarrow> string \<Rightarrow> go_val \<Rightarrow> 'w \<Rightarrow> go_error option \<times> 'w" where
  "runTask ctx w key pk s =
     (let (err, s') = RunByPrimaryKey (wTask w) ctx (wTable w) pk s in
      (map_option (Wrap ''%T failed for the row %v of %s: %w''
         [FStr (taskType (wTask w)), FVal pk, FStr key]) err, s'))"

definition runTaskRange :: "'w ctx \<Rightarrow> 'w watcher \<Rightarrow> string \<Rightarrow> go_time \<Rightarrow> go_time \<Rightarrow> 'w \<Rightarrow>
    go_error option \<times> 'w" where
  "runTaskRange ctx w key start end' s =
     (let (err, s') = RunByTimeRange (wTask w) ctx (wTable w) start end' s in
      (map_option (Wrap ''%T failed for %s to %s of %s: %w''
         [FStr (taskType (wTask w)), FVal (VTime start), FVal (VTime end'), FStr key]) err, s'))"

section \<open>The runner\<close>

record 'w Runner =
  rConsumer :: "'w IConsumer option"
  rWatched :: "'w watchers"
  rConsuming :: bool

definition NewRunner :: "'w IConsumer option \<Rightarrow> 'w ITask list \<Rightarrow> go_error + 'w Runner" where
  "NewRunner c tasks =
     (case indexTasks tasks of
        Inl err \<Rightarrow> Inl err
      | Inr watched \<Rightarrow> Inr \<lparr>rConsumer = c, rWatched = watched, rConsuming = False\<rparr>)"

definition mainPkVal :: "'w watcher \<Rightarrow> EventData \<Rightarrow> go_val \<times> bool" where
  "mainPkVal w event =
     (let (value, found) = map_index (rData (eRow event)) (keyColumn w)
      in (value, found \<and> value \<noteq> VNil \<and> value \<noteq> VString ''''))"

definition handle :: "scheduler \<Rightarrow> 'w Runner \<Rightarrow> 'w handler" where
  "handle sched r ctx event s =
     (let key = tableKeyOf (rDatabase (eRow event)) (rTable (eRow event));
          ws = watchers_of (rWatched r) key in
      if length ws = 0 then (None, s)
      else runEach sched ctx ws
        (\<lambda>w s. let (pk, found) = mainPkVal w event in
               if \<not> found then (None, s) else runTask ctx w key pk s) s)"

definition Runner_RunByPrimaryKey :: "scheduler \<Rightarrow> 'w Runner \<Rightarrow> 'w ctx \<Rightarrow> string \<Rightarrow> go_val \<Rightarrow> 'w \<Rightarrow>
    go_error option \<times> 'w" where
  "Runner_RunByPrimaryKey sched r ctx table pk s =
     (if pk = VNil \<or> pk = VString '''' then
        (Some (ErrNew ''the run of %s needs the value of the main table's primary key'' [FStr table]), s)
      else case watchers_named (rWatched r) table of
        Inl err \<Rightarrow> (Some err, s)
      | Inr ws \<Rightarrow> runEach sched ctx ws (\<lambda>w. runTask ctx w table pk) s)"

definition Runner_RunByTimeRange :: "scheduler \<Rightarrow> 'w Runner \<Rightarrow> 'w ctx \<Rightarrow> string \<Rightarrow> go_time \<Rightarrow>
    go_time \<Rightarrow> 'w \<Rightarrow> go_error option \<times> 'w" where
  "Runner_RunByTimeRange sched r ctx table start end' s =
     (if \<not> start < end' then
        (Some (ErrNew ''the range %s to %s of %s is empty: it ends before it starts''
           [FVal (VTime start), FVal (VTime end'), FStr table]), s)
      else case watchers_named (rWatched r) table of
        Inl err \<Rightarrow> (Some err, s)
      | Inr ws \<Rightarrow> runEach sched ctx ws (\<lambda>w. runTaskRange ctx w table start end') s)"

text \<open>
  \<open>Run\<close> in its two critical sections, and as a whole: the guard that takes the consumer, the
  consumption, and the deferred reset of the flag.
\<close>

definition Run_enter :: "'w Runner \<Rightarrow> go_error + 'w IConsumer \<times> 'w Runner" where
  "Run_enter r =
     (if rConsuming r then Inl (ErrNew ''the runner is already consuming'' [])
      else case rConsumer r of
        None \<Rightarrow> Inl (ErrNew ''the runner has no consumer to read the events from'' [])
      | Some c \<Rightarrow> Inr (c, r\<lparr>rConsuming := True\<rparr>))"

definition Run_leave :: "'w Runner \<Rightarrow> 'w Runner" where
  "Run_leave r = r\<lparr>rConsuming := False\<rparr>"

definition Runner_Run :: "scheduler \<Rightarrow> 'w ctx \<Rightarrow> 'w Runner \<Rightarrow> 'w \<Rightarrow> go_error option \<times> 'w Runner \<times> 'w" where
  "Runner_Run sched ctx r s =
     (case Run_enter r of
        Inl err \<Rightarrow> (Some err, r, s)
      | Inr (c, r') \<Rightarrow>
          (let (err, s') = Consume c ctx (handle sched r') s in (err, Run_leave r', s')))"

definition Runner_Close :: "'w Runner \<Rightarrow> 'w \<Rightarrow> go_error option \<times> 'w" where
  "Runner_Close r s = (case rConsumer r of None \<Rightarrow> (None, s) | Some c \<Rightarrow> CloseConsumer c s)"

section \<open>The log task\<close>

text \<open>
  \<open>LogTask\<close> writes a line for every run. Its world is the log.
\<close>

record LogTask =
  ltMain :: Table
  ltSub :: "Table list"

datatype log_line =
    RowLine string go_val string
  | RangeLine string string go_time go_time

definition LogTask_RunByPrimaryKey :: "Table \<Rightarrow> go_val \<Rightarrow> log_line list \<Rightarrow> go_error option \<times> log_line list" where
  "LogTask_RunByPrimaryKey table pk log =
     (None, log @ [RowLine ''*task.LogTask'' pk (tableKeyOf (tDatabase table) (tName table))])"

definition LogTask_RunByTimeRange :: "Table \<Rightarrow> go_time \<Rightarrow> go_time \<Rightarrow> log_line list \<Rightarrow>
    go_error option \<times> log_line list" where
  "LogTask_RunByTimeRange table start end' log =
     (None, log @ [RangeLine ''*task.LogTask'' (tableKeyOf (tDatabase table) (tName table)) start end'])"

definition LogTask_ITask :: "LogTask \<Rightarrow> log_line list ITask" where
  "LogTask_ITask t =
     \<lparr>taskType = ''*task.LogTask'', MainTable = ltMain t, SubTables = ltSub t,
      RunByPrimaryKey = (\<lambda>_. LogTask_RunByPrimaryKey), RunByTimeRange = (\<lambda>_. LogTask_RunByTimeRange)\<rparr>"

section \<open>The goroutines of one run\<close>

lemma goroutines_world:
  "snd (goroutines ws fn is errs w) = fold (\<lambda>x s. snd (fn x s)) (map ((!) ws) is) w"
  by (induction "is" arbitrary: errs w) (auto split: prod.split)

lemma goroutines_errs:
  assumes "\<And>x s. x \<in> set ws \<Longrightarrow> fst (fn x s) = r x" and "set is \<subseteq> {..<length ws}" and "length errs = length ws"
  shows "fst (goroutines ws fn is errs w) =
    map (\<lambda>i. if i \<in> set is then r (ws ! i) else errs ! i) [0..<length ws]"
  using assms(2,3)
proof (induction "is" arbitrary: errs w)
  case Nil
  then show ?case using map_nth [of errs] by simp
next
  case (Cons i "is")
  have "fst (fn (ws ! i) w) = r (ws ! i)" using Cons.prems by (intro assms(1)) simp
  then obtain w' where step: "fn (ws ! i) w = (r (ws ! i), w')" by (cases "fn (ws ! i) w") auto
  show ?case
    using Cons.prems by (auto simp: step Cons.IH nth_list_update intro!: map_cong)
qed

lemma complete_scheduleD:
  assumes "complete_schedule sched"
  shows "set (sched n) = {..<n}" and "distinct (sched n)" and "length (sched n) = n"
proof -
  have m: "mset (sched n) = mset [0..<n]" using assms by (simp add: complete_schedule_def)
  show "set (sched n) = {..<n}" using mset_eq_setD [OF m] by (simp add: lessThan_atLeast0)
  show "distinct (sched n)" by (rule mset_eq_imp_distinct_iff [OF m, THEN iffD2]) simp
  show "length (sched n) = n" using mset_eq_length [OF m] by simp
qed

lemma complete_schedule_each_once:
  assumes "complete_schedule sched"
  shows "mset (map ((!) ws) (sched (length ws))) = mset ws"
proof -
  have "mset (map ((!) ws) (sched (length ws))) = image_mset ((!) ws) (mset [0..<length ws])"
    using assms by (simp add: complete_schedule_def)
  also have "\<dots> = mset (map ((!) ws) [0..<length ws])" by simp
  finally show ?thesis by (simp only: map_nth)
qed

text \<open>
  What a run reports does not depend on the schedule: the errors stand in the order of the
  watchers. What it does to the world is every watcher's effect, once.
\<close>

lemma runEach_result:
  assumes "complete_schedule sched" and "ctx w = None"
    and "\<And>x s. x \<in> set ws \<Longrightarrow> fst (fn x s) = r x"
  shows "fst (runEach sched ctx ws fn w) = errors_Join (map r ws)"
proof -
  have "fst (goroutines ws fn (sched (length ws)) (replicate (length ws) None) w) =
      map (\<lambda>i. r (ws ! i)) [0..<length ws]"
    by (subst goroutines_errs [where r = r, OF assms(3)])
      (auto simp: complete_scheduleD [OF assms(1)] intro!: map_cong)
  also have "\<dots> = map r ws" by (metis map_map map_nth comp_apply map_cong)
  finally show ?thesis by (simp add: runEach_def assms(2) split_beta)
qed

lemma runEach_world:
  assumes "complete_schedule sched" and "ctx w = None"
  shows "\<exists>xs. mset xs = mset ws \<and> snd (runEach sched ctx ws fn w) = fold (\<lambda>x s. snd (fn x s)) xs w"
proof (intro exI conjI)
  show "mset (map ((!) ws) (sched (length ws))) = mset ws"
    by (rule complete_schedule_each_once [OF assms(1)])
  show "snd (runEach sched ctx ws fn w) = fold (\<lambda>x s. snd (fn x s)) (map ((!) ws) (sched (length ws))) w"
    by (simp only: runEach_def assms(2) split_beta Let_def snd_conv option.case goroutines_world)
qed

lemma runEach_canceled [simp]: "ctx w = Some e \<Longrightarrow> runEach sched ctx ws fn w = (Some e, w)"
  by (simp add: runEach_def)

section \<open>Routing a change\<close>

text \<open>What a task reports for one change, when its answer depends on the row alone.\<close>

definition change_outcome :: "('w ITask \<Rightarrow> Table \<Rightarrow> go_val \<Rightarrow> go_error option) \<Rightarrow> EventData \<Rightarrow> 'w watcher \<Rightarrow>
    go_error option" where
  "change_outcome answer event w =
     (let (pk, found) = mainPkVal w event in
      if found then map_option (Wrap ''%T failed for the row %v of %s: %w''
         [FStr (taskType (wTask w)), FVal pk, FStr (tableKeyOf (rDatabase (eRow event)) (rTable (eRow event)))])
         (answer (wTask w) (wTable w) pk)
      else None)"

lemma runTask_fst:
  "(\<And>s. fst (RunByPrimaryKey (wTask w) ctx (wTable w) pk s) = a) \<Longrightarrow>
   fst (runTask ctx w key pk s) = map_option (Wrap ''%T failed for the row %v of %s: %w''
     [FStr (taskType (wTask w)), FVal pk, FStr key]) a"
  by (simp add: runTask_def split: prod.split) (metis fst_conv)

lemma handle_no_watchers:
  "watchers_of (rWatched r) (tableKeyOf (rDatabase (eRow event)) (rTable (eRow event))) = [] \<Longrightarrow>
   handle sched r ctx event s = (None, s)"
  by (simp add: handle_def)

text \<open>The work \<open>handle\<close> starts for one watcher.\<close>

definition change_run :: "'w ctx \<Rightarrow> EventData \<Rightarrow> 'w watcher \<Rightarrow> 'w \<Rightarrow> go_error option \<times> 'w" where
  "change_run ctx event w s =
     (let (pk, found) = mainPkVal w event in
      if \<not> found then (None, s)
      else runTask ctx w (tableKeyOf (rDatabase (eRow event)) (rTable (eRow event))) pk s)"

lemma handle_runs:
  "handle sched r ctx event s =
     (let ws = watchers_of (rWatched r) (tableKeyOf (rDatabase (eRow event)) (rTable (eRow event))) in
      if ws = [] then (None, s) else runEach sched ctx ws (change_run ctx event) s)"
  by (simp add: handle_def change_run_def [abs_def] Let_def)

lemma change_run_fst:
  "(\<And>s. fst (RunByPrimaryKey (wTask w) ctx (wTable w) (fst (mainPkVal w event)) s) =
         answer (wTask w) (wTable w) (fst (mainPkVal w event))) \<Longrightarrow>
   fst (change_run ctx event w s) = change_outcome answer event w"
  by (simp add: change_run_def change_outcome_def runTask_fst split_beta)

lemma handle_result:
  assumes "complete_schedule sched" and "ctx s = None"
    and "\<And>w pk s. w \<in> set (watchers_of (rWatched r)
             (tableKeyOf (rDatabase (eRow event)) (rTable (eRow event)))) \<Longrightarrow>
           fst (RunByPrimaryKey (wTask w) ctx (wTable w) pk s) = answer (wTask w) (wTable w) pk"
  shows "fst (handle sched r ctx event s) =
    errors_Join (map (change_outcome answer event)
      (watchers_of (rWatched r) (tableKeyOf (rDatabase (eRow event)) (rTable (eRow event)))))"
proof -
  let ?ws = "watchers_of (rWatched r) (tableKeyOf (rDatabase (eRow event)) (rTable (eRow event)))"
  have "fst (runEach sched ctx ?ws (change_run ctx event) s) =
      errors_Join (map (change_outcome answer event) ?ws)"
    by (rule runEach_result [where ctx = ctx and w = s, OF assms(1,2)]) (rule change_run_fst, rule assms(3))
  then show ?thesis by (simp add: handle_runs Let_def errors_Join_def)
qed

section \<open>One consumption at a time\<close>

text \<open>
  Any number of callers of \<open>Run\<close>: each is idle, consuming, or back with what \<open>Run\<close> reported.
  The two critical sections of \<open>Run\<close> are the steps.
\<close>

datatype run_pc = RunIdle | RunConsuming | RunReturned "go_error option"

inductive run_step :: "'w Runner \<times> (nat \<Rightarrow> run_pc) \<Rightarrow> 'w Runner \<times> (nat \<Rightarrow> run_pc) \<Rightarrow> bool" where
  run_refused: "pcs i = RunIdle \<Longrightarrow> Run_enter r = Inl err \<Longrightarrow>
    run_step (r, pcs) (r, pcs(i := RunReturned (Some err)))"
| run_begin: "pcs i = RunIdle \<Longrightarrow> Run_enter r = Inr (c, r') \<Longrightarrow>
    run_step (r, pcs) (r', pcs(i := RunConsuming))"
| run_end: "pcs i = RunConsuming \<Longrightarrow>
    run_step (r, pcs) (Run_leave r, pcs(i := RunReturned err))"

inductive_cases run_stepE: "run_step (r, pcs) s'"

definition run_inv :: "'w Runner \<times> (nat \<Rightarrow> run_pc) \<Rightarrow> bool" where
  "run_inv = (\<lambda>(r, pcs). (\<forall>i j. pcs i = RunConsuming \<longrightarrow> pcs j = RunConsuming \<longrightarrow> i = j) \<and>
     (\<forall>i. pcs i = RunConsuming \<longrightarrow> rConsuming r))"

lemma Run_enter_Inr:
  "Run_enter r = Inr (c, r') \<longleftrightarrow>
     \<not> rConsuming r \<and> rConsumer r = Some c \<and> r' = r\<lparr>rConsuming := True\<rparr>"
  by (auto simp: Run_enter_def split: option.splits)

lemma run_step_inv: "run_step s s' \<Longrightarrow> run_inv s \<Longrightarrow> run_inv s'"
proof (induction rule: run_step.induct)
  case (run_refused pcs i r err)
  then show ?case by (auto simp: run_inv_def split: if_splits)
next
  case (run_begin pcs i r c r')
  then show ?case by (auto simp: run_inv_def Run_enter_Inr split: if_splits)
next
  case (run_end pcs i r err)
  then have "pcs j \<noteq> RunConsuming" if "j \<noteq> i" for j using that by (auto simp: run_inv_def)
  then show ?case by (auto simp: run_inv_def split: if_splits)
qed

definition run_start :: "'w Runner \<Rightarrow> 'w Runner \<times> (nat \<Rightarrow> run_pc)" where
  "run_start r = (r, \<lambda>_. RunIdle)"

lemma run_reachable_inv: "run_step\<^sup>*\<^sup>* (run_start r) s \<Longrightarrow> run_inv s"
  by (erule rtranclp_invariant, simp add: run_inv_def run_start_def, rule run_step_inv)

section \<open>Properties\<close>

lemma NewRunner_Inr:
  "NewRunner c tasks = Inr r \<longleftrightarrow>
     (\<exists>m. indexTasks tasks = Inr m \<and> r = \<lparr>rConsumer = c, rWatched = m, rConsuming = False\<rparr>)"
  by (auto simp: NewRunner_def split: sum.splits)

definition watching :: "'w ITask list \<Rightarrow> string \<Rightarrow> string \<Rightarrow> 'w watcher list" where
  "watching tasks db tbl =
     filter (\<lambda>w. tDatabase (wTable w) = db \<and> tName (wTable w) = tbl) (concat (map declarations tasks))"

lemma NewRunner_routes:
  "NewRunner c tasks = Inr r \<Longrightarrow> watchers_of (rWatched r) (tableKeyOf db tbl) = watching tasks db tbl"
  by (auto simp: NewRunner_Inr watching_def indexTasks_routes)

lemma watching_task: "w \<in> set (watching tasks db tbl) \<Longrightarrow> wTask w \<in> set tasks"
  by (auto simp: watching_def declarations_def)

text \<open>
  C7. Routing end to end. Once \<open>NewRunner\<close> accepted the tasks, the handler of a change reports
  exactly the joined outcomes of the declarations of that very table, main or sub, in the order
  of the tasks, whatever the goroutines' schedule: a declaration whose key column the change
  does not carry (or carries as nil or an empty string) is skipped, every other one runs its
  task with that column's value and contributes the task's error, wrapped. A change of a table
  nobody declared reports nil, whatever the dots in its name.
\<close>

theorem handle_routes_every_change:
  assumes "NewRunner c tasks = Inr r" and "complete_schedule sched" and "ctx s = None"
    and "\<And>t tbl pk s. t \<in> set tasks \<Longrightarrow> fst (RunByPrimaryKey t ctx tbl pk s) = answer t tbl pk"
  shows "fst (handle sched r ctx event s) =
    errors_Join (map (change_outcome answer event)
      (watching tasks (rDatabase (eRow event)) (rTable (eRow event))))"
proof -
  note routes = NewRunner_routes [OF assms(1)]
  show ?thesis
    using handle_result [where answer = answer and r = r and event = event and ctx = ctx and s = s,
      OF assms(2,3)]
    by (simp add: routes assms(4) watching_task)
qed

definition sampleUser :: Table where
  "sampleUser = \<lparr>tDatabase = ''app'', tName = ''user'', tPrimaryKey = ''id'', tRefColumn = ''''\<rparr>"

definition sampleUserLog :: Table where
  "sampleUserLog = \<lparr>tDatabase = ''app'', tName = ''user_log'', tPrimaryKey = ''id'', tRefColumn = ''user_id''\<rparr>"

definition sampleTask :: "log_line list ITask" where
  "sampleTask = LogTask_ITask \<lparr>ltMain = sampleUser, ltSub = [sampleUserLog]\<rparr>"

definition sampleChange :: EventData where
  "sampleChange = zeroEvent\<lparr>eRow := zeroRow\<lparr>rDatabase := ''app'', rTable := ''user_log'',
     rData := fmupd ''user_id'' (VInt KInt64 7) fmempty\<rparr>\<rparr>"

lemmas sample_defs = sampleUser_def sampleUserLog_def sampleTask_def LogTask_ITask_def

lemma sample_runner: "\<exists>r. NewRunner c [sampleTask, sampleTask] = Inr r"
  using indexLoop_Inr_iff [of "[sampleTask, sampleTask]" Map.empty]
  by (auto simp: NewRunner_Inr indexTasks_def routable_iff well_declared_def declared_tables_def
      plain_name_def sample_defs)

lemma sample_schedule: "complete_schedule (\<lambda>n. rev [0..<n])"
  by (simp add: complete_schedule_def)

lemma sample_watching:
  "watching [sampleTask, sampleTask] ''app'' ''user_log'' =
     replicate 2 \<lparr>wTask = sampleTask, wTable = sampleUserLog, wMain = False\<rparr>"
  by (simp add: watching_def declarations_def sample_defs numeral_2_eq_2)

theorem handle_routes_every_change_witness:
  "\<exists>r. NewRunner None [sampleTask, sampleTask] = Inr r \<and>
     fst (handle (\<lambda>n. rev [0..<n]) r (\<lambda>_. None) sampleChange []) = None"
proof -
  obtain r where r: "NewRunner None [sampleTask, sampleTask] = Inr r" using sample_runner by blast
  have "fst (handle (\<lambda>n. rev [0..<n]) r (\<lambda>_. None) sampleChange []) =
      errors_Join (map (change_outcome (\<lambda>_ _ _. None) sampleChange)
        (watching [sampleTask, sampleTask] (rDatabase (eRow sampleChange)) (rTable (eRow sampleChange))))"
    by (rule handle_routes_every_change [OF r sample_schedule])
      (auto simp: sample_defs LogTask_RunByPrimaryKey_def)
  with r show ?thesis by (auto simp: change_outcome_def split_beta)
qed

text \<open>
  C21. The runner is built exactly when every task can be routed: its main table has a primary
  key, every sub table a reference column, no name of a database or a table is empty or holds a
  dot, and the task declares no table twice. Otherwise \<open>NewRunner\<close> is an error.
\<close>

theorem NewRunner_accepts_iff:
  "(\<exists>r. NewRunner c tasks = Inr r) \<longleftrightarrow> list_all well_declared tasks"
  using indexLoop_Inr_iff [of tasks Map.empty]
  by (auto simp: NewRunner_Inr indexTasks_def routable_iff list_all_iff)

text \<open>
  C22. A change runs the work of every declaration of its table exactly once, in some order that
  the schedule chooses, and does nothing else to the world.
\<close>

theorem handle_runs_each_watcher_once:
  assumes "NewRunner c tasks = Inr r" and "complete_schedule sched" and "ctx s = None"
  shows "\<exists>ws. mset ws = mset (watching tasks (rDatabase (eRow event)) (rTable (eRow event))) \<and>
    snd (handle sched r ctx event s) = fold (\<lambda>w s. snd (change_run ctx event w s)) ws s"
  using runEach_world [where ctx = ctx and w = s, OF assms(2,3)]
  by (auto simp: handle_runs NewRunner_routes [OF assms(1)] Let_def)

theorem handle_runs_each_watcher_once_witness:
  "\<exists>r. NewRunner None [sampleTask, sampleTask] = Inr r \<and>
     snd (handle (\<lambda>n. rev [0..<n]) r (\<lambda>_. None) sampleChange []) =
       replicate 2 (RowLine ''*task.LogTask'' (VInt KInt64 7) ''app.user_log'')"
proof -
  obtain r where r: "NewRunner None [sampleTask, sampleTask] = Inr r" using sample_runner by blast
  obtain ws where ws: "mset ws = mset (watching [sampleTask, sampleTask] ''app'' ''user_log'')"
    and eff: "snd (handle (\<lambda>n. rev [0..<n]) r (\<lambda>_. None) sampleChange []) =
      fold (\<lambda>w s. snd (change_run (\<lambda>_. None) sampleChange w s)) ws []"
    using handle_runs_each_watcher_once [where event = sampleChange and s = "[]" and ctx = "\<lambda>_. None",
      OF r sample_schedule refl]
    by (auto simp: sampleChange_def)
  let ?w = "\<lparr>wTask = sampleTask, wTable = sampleUserLog, wMain = False\<rparr>"
  have len: "length ws = 2" using mset_eq_length [OF ws] by (simp add: sample_watching)
  have "\<forall>w \<in> set ws. w = ?w" using mset_eq_setD [OF ws] by (simp add: sample_watching)
  then have "ws = replicate 2 ?w" using replicate_length_same [of ws ?w] len by simp
  with r eff show ?thesis
    by (auto simp: numeral_2_eq_2 change_run_def mainPkVal_def map_index_def keyColumn_def
        runTask_def sample_defs sampleChange_def LogTask_RunByPrimaryKey_def tableKeyOf_def)
qed

lemma goroutines_cong:
  assumes "\<And>x s. x \<in> set ws \<Longrightarrow> fn x s = fn' x s" and "set is \<subseteq> {..<length ws}"
  shows "goroutines ws fn is errs w = goroutines ws fn' is errs w"
  using assms(2) by (induction "is" arbitrary: errs w) (auto simp: assms(1) split_beta)

lemma runEach_cong:
  assumes "complete_schedule sched" and "\<And>x s. x \<in> set ws \<Longrightarrow> fn x s = fn' x s"
  shows "runEach sched ctx ws fn s = runEach sched ctx ws fn' s"
proof -
  have "goroutines ws fn (sched (length ws)) errs s = goroutines ws fn' (sched (length ws)) errs s" for errs s
    by (rule goroutines_cong [OF assms(2)]) (auto simp: complete_scheduleD [OF assms(1)])
  then show ?thesis by (simp add: runEach_def split: option.split)
qed

lemma tableKeyOf_dotted [simp]: "CHR ''.'' \<in> set (tableKeyOf db tbl)"
  by (simp add: tableKeyOf_def)

lemma mainPkVal_found:
  "mainPkVal w event = (v, True) \<Longrightarrow> v \<noteq> VNil \<and> v \<noteq> VString ''''"
  by (auto simp: mainPkVal_def split_beta)

text \<open>
  C23. The two ways of naming one row agree: when a change carries the same key value \<open>v\<close> for
  every declaration of its table, handling the change does and reports exactly what
  \<open>RunByPrimaryKey\<close> does for the table written \<open>db.table\<close> and \<open>v\<close>, in every world.
\<close>

theorem handle_eq_RunByPrimaryKey:
  assumes "NewRunner c tasks = Inr r" and "complete_schedule sched"
    and "watching tasks (rDatabase (eRow event)) (rTable (eRow event)) \<noteq> []"
    and "\<And>w. w \<in> set (watching tasks (rDatabase (eRow event)) (rTable (eRow event))) \<Longrightarrow>
           mainPkVal w event = (v, True)"
  shows "handle sched r ctx event s =
    Runner_RunByPrimaryKey sched r ctx (tableKeyOf (rDatabase (eRow event)) (rTable (eRow event))) v s"
proof -
  let ?ws = "watching tasks (rDatabase (eRow event)) (rTable (eRow event))"
  let ?key = "tableKeyOf (rDatabase (eRow event)) (rTable (eRow event))"
  have v: "v \<noteq> VNil" "v \<noteq> VString ''''"
    using mainPkVal_found [OF assms(4) [of "hd ?ws"]] assms(3) by auto
  have "handle sched r ctx event s = runEach sched ctx ?ws (change_run ctx event) s"
    using assms(3) by (simp add: handle_runs NewRunner_routes [OF assms(1)])
  also have "\<dots> = runEach sched ctx ?ws (\<lambda>w. runTask ctx w ?key v) s"
    by (rule runEach_cong [OF assms(2)]) (simp add: change_run_def assms(4))
  finally show ?thesis
    using v assms(3) by (simp add: Runner_RunByPrimaryKey_def watchers_named_def NewRunner_routes [OF assms(1)])
qed

theorem handle_eq_RunByPrimaryKey_witness:
  "\<exists>r. NewRunner None [sampleTask, sampleTask] = Inr r \<and>
     handle (\<lambda>n. rev [0..<n]) r (\<lambda>_. None) sampleChange [] =
     Runner_RunByPrimaryKey (\<lambda>n. rev [0..<n]) r (\<lambda>_. None) ''app.user_log'' (VInt KInt64 7) []"
proof -
  obtain r where r: "NewRunner None [sampleTask, sampleTask] = Inr r" using sample_runner by blast
  have row: "rDatabase (eRow sampleChange) = ''app''" "rTable (eRow sampleChange) = ''user_log''"
    by (simp_all add: sampleChange_def)
  have "handle (\<lambda>n. rev [0..<n]) r (\<lambda>_. None) sampleChange [] =
      Runner_RunByPrimaryKey (\<lambda>n. rev [0..<n]) r (\<lambda>_. None)
        (tableKeyOf (rDatabase (eRow sampleChange)) (rTable (eRow sampleChange))) (VInt KInt64 7) []"
    by (rule handle_eq_RunByPrimaryKey [OF r sample_schedule])
      (auto simp: row sample_watching mainPkVal_def map_index_def keyColumn_def sampleUserLog_def
        sampleChange_def split: if_splits)
  with r show ?thesis by (auto simp: row tableKeyOf_def)
qed

text \<open>
  A run a caller asks for by name touches the world only for a table some task declared,
  addressed as \<open>db.table\<close>, with a key value that is neither nil nor empty, or over a range that
  ends after it starts; every refused request is an error and leaves the world alone.
\<close>

lemma named_runs_only_declared:
  assumes "NewRunner c tasks = Inr r"
  shows "(Runner_RunByPrimaryKey sched r ctx table v s = (err, s') \<longrightarrow> err = None \<or> s' \<noteq> s \<longrightarrow>
           (\<exists>db tbl. table = tableKeyOf db tbl \<and> watching tasks db tbl \<noteq> []) \<and> v \<noteq> VNil \<and> v \<noteq> VString '''') \<and>
         (Runner_RunByTimeRange sched r ctx table start end' s = (err, s') \<longrightarrow> err = None \<or> s' \<noteq> s \<longrightarrow>
           (\<exists>db tbl. table = tableKeyOf db tbl \<and> watching tasks db tbl \<noteq> []) \<and> start < end')"
proof -
  have "\<exists>db tbl. table = tableKeyOf db tbl \<and> watching tasks db tbl \<noteq> []"
    if found: "watchers_named (rWatched r) table = Inr ws" for ws
  proof -
    have "CHR ''.'' \<in> set table" and ne: "watchers_of (rWatched r) table \<noteq> []"
      using found by (auto simp: watchers_named_def Let_def split: if_splits)
    then obtain db tbl where "table = tableKeyOf db tbl"
      by (auto simp: in_set_conv_decomp tableKeyOf_def)
    with ne show ?thesis by (auto simp: NewRunner_routes [OF assms(1)])
  qed
  then show ?thesis
    by (auto simp: Runner_RunByPrimaryKey_def Runner_RunByTimeRange_def split: if_splits sum.splits)
qed

lemma named_runs_only_declared_witness:
  "\<exists>r. NewRunner None [sampleTask, sampleTask] = Inr r \<and>
     (\<exists>db tbl. ''app.user'' = tableKeyOf db tbl \<and> watching [sampleTask, sampleTask] db tbl \<noteq> [])"
proof -
  obtain r where r: "NewRunner None [sampleTask, sampleTask] = Inr r" using sample_runner by blast
  have "watchers_of (rWatched r) ''app.user'' = watching [sampleTask, sampleTask] ''app'' ''user''"
    using NewRunner_routes [OF r, of "''app''" "''user''"] by (simp add: tableKeyOf_def)
  then have "fst (Runner_RunByPrimaryKey (\<lambda>n. rev [0..<n]) r (\<lambda>_. None) ''app.user'' (VInt KInt64 7) []) = None"
    by (simp add: Runner_RunByPrimaryKey_def watchers_named_def Let_def watching_def declarations_def sample_defs
        runEach_def numeral_2_eq_2 runTask_def LogTask_RunByPrimaryKey_def split: prod.split)
  then have "(\<exists>db tbl. ''app.user'' = tableKeyOf db tbl \<and> watching [sampleTask, sampleTask] db tbl \<noteq> [])"
    using named_runs_only_declared [OF r, of "\<lambda>n. rev [0..<n]" "\<lambda>_. None" "''app.user''" "VInt KInt64 7" "[]" None]
    by (metis prod.collapse)
  with r show ?thesis by blast
qed

text \<open>
  C24. However many callers call \<open>Run\<close> at once, at most one of them is consuming: a second one is
  refused while the flag is up, and the flag comes down only when the consumption returns.
\<close>

theorem at_most_one_consumption:
  assumes "run_step\<^sup>*\<^sup>* (run_start r) (r', pcs)" and "pcs i = RunConsuming" and "pcs j = RunConsuming"
  shows "i = j"
  using run_reachable_inv [OF assms(1)] assms(2,3) by (auto simp: run_inv_def)

theorem at_most_one_consumption_witness:
  "\<exists>r' pcs. run_step\<^sup>*\<^sup>*
     (run_start \<lparr>rConsumer = Some \<lparr>Consume = (\<lambda>ctx h w. (ctx w, w)), CloseConsumer = (\<lambda>w. (None, w))\<rparr>,
        rWatched = Map.empty, rConsuming = False\<rparr>) (r' :: nat Runner, pcs) \<and>
     pcs 1 = RunConsuming \<and> (\<forall>j. pcs j = RunConsuming \<longrightarrow> 1 = j)"
proof -
  let ?c = "\<lparr>Consume = (\<lambda>ctx h w. (ctx w, w)), CloseConsumer = (\<lambda>w. (None, w))\<rparr> :: nat IConsumer"
  let ?r = "\<lparr>rConsumer = Some ?c, rWatched = Map.empty, rConsuming = False\<rparr> :: nat Runner"
  let ?pcs = "(\<lambda>_. RunIdle)(1 := RunConsuming) :: nat \<Rightarrow> run_pc"
  have "run_step (run_start ?r) (?r\<lparr>rConsuming := True\<rparr>, ?pcs)"
    unfolding run_start_def by (rule run_begin [where c = ?c]) (simp_all add: Run_enter_Inr)
  then have reach: "run_step\<^sup>*\<^sup>* (run_start ?r) (?r\<lparr>rConsuming := True\<rparr>, ?pcs)" by blast
  have "\<forall>j. ?pcs j = RunConsuming \<longrightarrow> 1 = j"
    using at_most_one_consumption [OF reach, of 1] by simp
  with reach show ?thesis by (intro exI [of _ "?r\<lparr>rConsuming := True\<rparr>"] exI [of _ ?pcs]) simp
qed

end
