(* ===== verification/Task_Commands.thy ===== *)
theory Task_Commands
  imports Task_Runner Go_Time Cli
begin

text \<open>
  \<open>cmd/taskrun.go\<close>: the commands of the task program, over the runner and a consumer. The reader of
  configuration files, the parser of the command line and the signals of the process are
  parameters. The log is a part of the world, read and written through a \<open>guarded\<close>.
\<close>

section \<open>The configuration and the tasks\<close>

record TaskConfig =
  tcConsumer :: ConsumerConfig
  tcTasks :: "LogTask list"

definition on_part :: "('s, 'w) guarded \<Rightarrow> ('s \<Rightarrow> 'a \<times> 's) \<Rightarrow> 'w \<Rightarrow> 'a \<times> 'w" where
  "on_part g f w = (case f (peek g w) of (a, s) \<Rightarrow> (a, poke g s w))"

definition log_task :: "(log_line list, 'w) guarded \<Rightarrow> LogTask \<Rightarrow> 'w ITask" where
  "log_task g t =
     (let it = LogTask_ITask t in
      \<lparr>taskType = taskType it, MainTable = MainTable it, SubTables = SubTables it,
       RunByPrimaryKey = (\<lambda>ctx table pk. on_part g (LogTask_RunByPrimaryKey table pk)),
       RunByTimeRange = (\<lambda>ctx table start end'. on_part g (LogTask_RunByTimeRange table start end'))\<rparr>)"

definition BuildTasks :: "(log_line list, 'w) guarded \<Rightarrow> TaskConfig \<Rightarrow> 'w ITask list" where
  "BuildTasks g c = map (log_task g) (tcTasks c)"

definition flagTaskConfig :: string where
  "flagTaskConfig = ''task-config''"

definition TaskFlags :: "cli_flag list" where
  "TaskFlags =
     [\<lparr>flName = flagTaskConfig, flAliases = [''c''], flUsage = ''Load task configuration from `FILE`'',
       flValue = ''config.task.yml''\<rparr>]"

definition loadTaskConfig :: "(string \<Rightarrow> go_error + TaskConfig) \<Rightarrow> cli_input \<Rightarrow> go_error + TaskConfig" where
  "loadTaskConfig load inp =
     (let path = inString inp flagTaskConfig in
      case load path of
        Inl err \<Rightarrow> Inl (Wrap ''failed to load task configuration from %s: %w'' [FStr path] err)
      | Inr cfg \<Rightarrow> Inr cfg)"

text \<open>The values a command's context carries.\<close>

definition TaskBefore :: "(string \<Rightarrow> go_error + TaskConfig) \<Rightarrow> cli_input \<Rightarrow> (string \<rightharpoonup> TaskConfig) \<Rightarrow>
    (string \<rightharpoonup> TaskConfig) \<times> go_error option" where
  "TaskBefore load inp vals =
     (case loadTaskConfig load inp of
        Inl err \<Rightarrow> (vals, Some err)
      | Inr cfg \<Rightarrow> (vals(''task-config'' \<mapsto> cfg), None))"

section \<open>The commands\<close>

definition TaskRun :: "('w IConsumer, 'w) consumer_registry \<Rightarrow> (log_line list, 'w) guarded \<Rightarrow> ('w \<Rightarrow> bool) \<Rightarrow>
    scheduler \<Rightarrow> 'w ctx \<Rightarrow> TaskConfig \<Rightarrow> 'w \<Rightarrow> go_error option \<times> 'w" where
  "TaskRun reg g signalled sched ctx cfg w =
     (case NewConsumer reg (tcConsumer cfg) w of
        (Inl err, w1) \<Rightarrow> (Some (Wrap ''failed to create consumer: %w'' [] err), w1)
      | (Inr c, w1) \<Rightarrow>
          (case NewRunner (Some c) (BuildTasks g cfg) of
             Inl err \<Rightarrow>
               (case CloseConsumer c w1 of
                  (cerr, w2) \<Rightarrow> (Some (Wrap ''failed to create runner: %w'' [] err), w2))
           | Inr runner \<Rightarrow>
               (case Runner_Run sched (NotifyContext signalled ctx) runner w1 of
                  (err, runner', w2) \<Rightarrow>
                    (case Runner_Close runner' w2 of (cerr, w3) \<Rightarrow> (err, w3)))))"

definition TaskRunByPrimaryKey :: "(log_line list, 'w) guarded \<Rightarrow> scheduler \<Rightarrow> 'w ctx \<Rightarrow> TaskConfig \<Rightarrow>
    string \<Rightarrow> string \<Rightarrow> 'w \<Rightarrow> go_error option \<times> 'w" where
  "TaskRunByPrimaryKey g sched ctx cfg table pk w =
     (case NewRunner None (BuildTasks g cfg) of
        Inl err \<Rightarrow> (Some (Wrap ''failed to create runner: %w'' [] err), w)
      | Inr runner \<Rightarrow> Runner_RunByPrimaryKey sched runner ctx table (VString pk) w)"

definition TaskRunByTimeRange :: "(log_line list, 'w) guarded \<Rightarrow> scheduler \<Rightarrow> 'w ctx \<Rightarrow> TaskConfig \<Rightarrow>
    string \<Rightarrow> string \<Rightarrow> string \<Rightarrow> 'w \<Rightarrow> go_error option \<times> 'w" where
  "TaskRunByTimeRange g sched ctx cfg table startStr endStr w =
     (case time_Parse startStr of
        None \<Rightarrow> (Some (ErrNew ''invalid start time %q: %w (expected format: %s)'' [FStr startStr]), w)
      | Some start \<Rightarrow>
          (case time_Parse endStr of
             None \<Rightarrow> (Some (ErrNew ''invalid end time %q: %w (expected format: %s)'' [FStr endStr]), w)
           | Some end' \<Rightarrow>
               (case NewRunner None (BuildTasks g cfg) of
                  Inl err \<Rightarrow> (Some (Wrap ''failed to create runner: %w'' [] err), w)
                | Inr runner \<Rightarrow> Runner_RunByTimeRange sched runner ctx table start end' w)))"

text \<open>The three commands. Each reads the configuration its own flag names.\<close>

definition TaskRunCommand :: "(string \<Rightarrow> go_error + TaskConfig) \<Rightarrow>
    ('w ctx \<Rightarrow> TaskConfig \<Rightarrow> 'w \<Rightarrow> go_error option \<times> 'w) \<Rightarrow> (TaskConfig, 'w) cli_command" where
  "TaskRunCommand load run =
     \<lparr>cmdName = ''run'', cmdUsage = ''Consume CDC events from the middleware and execute the tasks watching each change'',
      cmdArgsUsage = [], cmdFlags = TaskFlags,
      cmdAction = (\<lambda>vals ctx inp w.
        case loadTaskConfig load inp of Inl err \<Rightarrow> (Some err, w) | Inr cfg \<Rightarrow> run ctx cfg w)\<rparr>"

definition TaskRunByPrimaryKeyCommand :: "(string \<Rightarrow> go_error + TaskConfig) \<Rightarrow> (log_line list, 'w) guarded \<Rightarrow>
    scheduler \<Rightarrow> (TaskConfig, 'w) cli_command" where
  "TaskRunByPrimaryKeyCommand load g sched =
     \<lparr>cmdName = ''run-by-pk'', cmdUsage = ''Execute the tasks watching a table for one row of their main table'',
      cmdArgsUsage = ''<db.table> <primary-key-value>'', cmdFlags = TaskFlags,
      cmdAction = (\<lambda>vals ctx inp w.
        case loadTaskConfig load inp of
          Inl err \<Rightarrow> (Some err, w)
        | Inr cfg \<Rightarrow>
            (let args = inArgs inp in
             if length args < 2 then (Some (ErrNew ''usage: run-by-pk <db.table> <primary-key-value>'' []), w)
             else TaskRunByPrimaryKey g sched ctx cfg (args ! 0) (args ! 1) w))\<rparr>"

definition TaskRunByTimeRangeCommand :: "(string \<Rightarrow> go_error + TaskConfig) \<Rightarrow> (log_line list, 'w) guarded \<Rightarrow>
    scheduler \<Rightarrow> (TaskConfig, 'w) cli_command" where
  "TaskRunByTimeRangeCommand load g sched =
     \<lparr>cmdName = ''run-by-range'',
      cmdUsage = ''Execute the tasks watching a table for the rows whose time falls in a range'',
      cmdArgsUsage = ''<db.table> <start> <end>'', cmdFlags = TaskFlags,
      cmdAction = (\<lambda>vals ctx inp w.
        case loadTaskConfig load inp of
          Inl err \<Rightarrow> (Some err, w)
        | Inr cfg \<Rightarrow>
            (let args = inArgs inp in
             if length args < 3 then
               (Some (ErrNew ''usage: run-by-range <db.table> <start> <end>  (time format: 2006-01-02 15:04:05)'' []), w)
             else TaskRunByTimeRange g sched ctx cfg (args ! 0) (args ! 1) (args ! 2) w))\<rparr>"

section \<open>What the log shows\<close>

text \<open>A part of the world that reads back what was written to it.\<close>

definition lawful :: "('s, 'w) guarded \<Rightarrow> bool" where
  "lawful g \<longleftrightarrow> (\<forall>s w. peek g (poke g s w) = s)"

text \<open>The tables a configuration declares.\<close>

definition configured :: "TaskConfig \<Rightarrow> Table list" where
  "configured cfg = concat (map (\<lambda>t. ltMain t # ltSub t) (tcTasks cfg))"

lemma BuildTasks_watchers:
  assumes "NewRunner c (BuildTasks g cfg) = Inr r"
  shows "map wTable (watchers_of (rWatched r) table) = filter (\<lambda>t. tableKey t = table) (configured cfg)"
    and "x \<in> set (watchers_of (rWatched r) table) \<Longrightarrow> (\<exists>t. wTask x = log_task g t) \<and> tableKey (wTable x) = table"
proof -
  have ws: "watchers_of (rWatched r) table =
      filter (\<lambda>w. tableKey (wTable w) = table) (concat (map declarations (BuildTasks g cfg)))"
    using assms indexLoop_of [of _ Map.empty _ table] by (auto simp: NewRunner_Inr indexTasks_def)
  have comm: "map wTable (filter (\<lambda>w. P (wTable w)) xs) = filter P (map wTable xs)" for P and xs :: "'a watcher list"
    by (simp add: filter_map comp_def)
  have tables: "map wTable (concat (map declarations (map (log_task g) ts))) = concat (map (\<lambda>t. ltMain t # ltSub t) ts)" for ts
    by (induction ts) (simp_all add: declarations_def log_task_def LogTask_ITask_def Let_def comp_def)
  show "map wTable (watchers_of (rWatched r) table) = filter (\<lambda>t. tableKey t = table) (configured cfg)"
    by (simp only: ws comm [of "\<lambda>t. tableKey t = table"] tables BuildTasks_def configured_def)
  show "(\<exists>t. wTask x = log_task g t) \<and> tableKey (wTable x) = table"
    if "x \<in> set (watchers_of (rWatched r) table)"
    using that unfolding ws by (auto simp: declarations_def BuildTasks_def)
qed

lemma BuildTasks_accepted:
  "(\<exists>r. NewRunner c (BuildTasks g cfg) = Inr r) \<longleftrightarrow> list_all well_declared (BuildTasks g cfg)"
  using indexLoop_Inr_iff [of "BuildTasks g cfg" Map.empty]
  by (auto simp: NewRunner_Inr indexTasks_def routable_iff list_all_iff)

lemma runTaskRange_log:
  assumes "wTask x = log_task g t" and "tableKey (wTable x) = table"
  shows "runTaskRange ctx x key start end' w =
    (None, poke g (peek g w @ [RangeLine ''*task.LogTask'' table start end']) w)"
  using assms by (simp add: runTaskRange_def log_task_def Let_def on_part_def LogTask_RunByTimeRange_def tableKey_def)

lemma fold_log:
  assumes "\<And>x w. x \<in> set xs \<Longrightarrow> peek g (step x w) = peek g w @ [line]"
  shows "peek g (fold step xs w) = peek g w @ replicate (length xs) line"
  using assms
proof (induction xs arbitrary: w)
  case (Cons x xs)
  then have "peek g (fold step xs (step x w)) = peek g (step x w) @ replicate (length xs) line" by auto
  with Cons.prems [of x w] show ?case by simp
qed simp

text \<open>A manual run over a range, for the tables of the configuration.\<close>

lemma Runner_RunByTimeRange_log:
  assumes "NewRunner c (BuildTasks g cfg) = Inr r" and "complete_schedule sched" and "ctx w = None" and "lawful g"
    and "Runner_RunByTimeRange sched r ctx table start end' w = (err, w')"
  shows "(err = None \<longleftrightarrow> start < end' \<and> filter (\<lambda>t. tableKey t = table) (configured cfg) \<noteq> []) \<and>
    (if err = None
     then peek g w' = peek g w @ replicate (length (filter (\<lambda>t. tableKey t = table) (configured cfg)))
       (RangeLine ''*task.LogTask'' table start end')
     else w' = w)"
proof -
  let ?ws = "watchers_of (rWatched r) table" and ?line = "RangeLine ''*task.LogTask'' table start end'"
  let ?fn = "\<lambda>x. runTaskRange ctx x table start end'"
  have len: "length ?ws = length (filter (\<lambda>t. tableKey t = table) (configured cfg))"
    using arg_cong [OF BuildTasks_watchers(1) [OF assms(1), of table], of length] by (simp only: length_map)
  have run: "?fn x v = (None, poke g (peek g v @ [?line]) v)" if x: "x \<in> set ?ws" for x v
  proof -
    obtain t where "wTask x = log_task g t" "tableKey (wTable x) = table"
      using BuildTasks_watchers(2) [OF assms(1) x] by blast
    then show ?thesis by (rule runTaskRange_log)
  qed
  show ?thesis
  proof (cases "start < end' \<and> ?ws \<noteq> []")
    case True
    then obtain x where x: "x \<in> set ?ws" by (cases ?ws) auto
    have "CHR ''.'' \<in> set table"
      using BuildTasks_watchers(2) [OF assms(1) x] by (auto simp: tableKey_def)
    with True have each: "runEach sched ctx ?ws ?fn w = (err, w')"
      using assms(5) by (simp add: Runner_RunByTimeRange_def watchers_named_def Let_def)
    have "fst (runEach sched ctx ?ws ?fn w) = errors_Join (map (\<lambda>_. None) ?ws)"
      by (rule runEach_result [OF assms(2)]) (simp_all add: assms(3) run)
    then have err: "err = None" using each by (simp add: errors_Join_def)
    obtain xs where xs: "mset xs = mset ?ws" "w' = fold (\<lambda>x s. snd (?fn x s)) xs w"
      using runEach_world [where ctx = ctx and w = w and ws = ?ws and fn = ?fn, OF assms(2,3)] each by auto
    have "peek g w' = peek g w @ replicate (length xs) ?line"
      unfolding xs(2)
    proof (rule fold_log)
      fix x v assume "x \<in> set xs"
      then have "x \<in> set ?ws" using mset_eq_setD [OF xs(1)] by blast
      then show "peek g (snd (?fn x v)) = peek g v @ [?line]"
        using run [of x v] assms(4) by (simp add: lawful_def)
    qed
    with True err len mset_eq_length [OF xs(1)] show ?thesis by auto
  next
    case False
    with assms(5) len show ?thesis
      by (auto simp: Runner_RunByTimeRange_def watchers_named_def Let_def split: if_splits)
  qed
qed

section \<open>Properties\<close>

text \<open>
  C40. A run over a range under a live context, from the command line to the log. The command succeeds exactly when both
  times are of the layout, the first is before the second, the configured tasks are well declared
  and some task declares the table; then every declaration of the table is run over the range, once.
  A refused command leaves the world alone.
\<close>

theorem run_by_range_logs:
  assumes "complete_schedule sched" and "ctx w = None" and "lawful g"
    and "TaskRunByTimeRange g sched ctx cfg table startStr endStr w = (err, w')"
  shows "(err = None \<longleftrightarrow> (\<exists>start end'. time_Parse startStr = Some start \<and> time_Parse endStr = Some end' \<and> start < end') \<and>
      list_all well_declared (BuildTasks g cfg) \<and> filter (\<lambda>t. tableKey t = table) (configured cfg) \<noteq> []) \<and>
    (if err = None
     then peek g w' = peek g w @ replicate (length (filter (\<lambda>t. tableKey t = table) (configured cfg)))
       (RangeLine ''*task.LogTask'' table (the (time_Parse startStr)) (the (time_Parse endStr)))
     else w' = w)"
proof (cases "time_Parse startStr = None \<or> time_Parse endStr = None \<or> (\<exists>e. NewRunner None (BuildTasks g cfg) = Inl e)")
  case True
  then show ?thesis
    using assms(4) BuildTasks_accepted [of None g cfg]
    by (auto simp: TaskRunByTimeRange_def split: option.splits sum.splits)
next
  case False
  then obtain start end' r where ok: "time_Parse startStr = Some start" "time_Parse endStr = Some end'"
      "NewRunner None (BuildTasks g cfg) = Inr r"
    by (cases "NewRunner None (BuildTasks g cfg)") auto
  then have "Runner_RunByTimeRange sched r ctx table start end' w = (err, w')"
    using assms(4) by (simp add: TaskRunByTimeRange_def)
  from Runner_RunByTimeRange_log [where ctx = ctx and w = w, OF ok(3) assms(1-3) this] show ?thesis
    using ok BuildTasks_accepted [of None g cfg] by auto
qed

definition whole_log :: "(log_line list, log_line list) guarded" where
  "whole_log = \<lparr>peek = (\<lambda>w. w), poke = (\<lambda>s w. s)\<rparr>"

definition sample_tasks :: TaskConfig where
  "sample_tasks = \<lparr>tcConsumer = undefined, tcTasks = [\<lparr>ltMain = sampleUser, ltSub = [sampleUserLog]\<rparr>]\<rparr>"

theorem run_by_range_logs_witness:
  "TaskRunByTimeRange whole_log (\<lambda>n. rev [0..<n]) (\<lambda>_. None) sample_tasks
      ''app.user_log'' ''2024-01-01 00:00:00'' ''2024-01-02 00:00:00'' [] =
    (None, [RangeLine ''*task.LogTask'' ''app.user_log'' 1704067200000000000 1704153600000000000])"
proof -
  let ?start = "''2024-01-01 00:00:00''" and ?stop = "''2024-01-02 00:00:00''"
  obtain err w' where run: "TaskRunByTimeRange whole_log (\<lambda>n. rev [0..<n]) (\<lambda>_. None) sample_tasks
      ''app.user_log'' ?start ?stop [] = (err, w')" by fastforce
  have times: "time_Parse ?start = Some 1704067200000000000" "time_Parse ?stop = Some 1704153600000000000"
    by code_simp+
  have tables: "filter (\<lambda>t. tableKey t = ''app.user_log'') (configured sample_tasks) = [sampleUserLog]"
    by (simp add: configured_def sample_tasks_def tableKey_def tableKeyOf_def sample_defs)
  have declared: "list_all well_declared (BuildTasks whole_log sample_tasks)"
    by (simp add: BuildTasks_def sample_tasks_def well_declared_def declared_tables_def plain_name_def log_task_def
        Let_def sample_defs)
  have "lawful whole_log" by (simp add: lawful_def whole_log_def)
  from run_by_range_logs [where ctx = "\<lambda>_. None" and w = "[]", OF sample_schedule refl this run]
  have "err = None" and "peek whole_log w' = peek whole_log [] @
      [RangeLine ''*task.LogTask'' ''app.user_log'' 1704067200000000000 1704153600000000000]"
    by (simp_all add: times tables declared)
  with run show ?thesis by (simp add: whole_log_def)
qed

end
