(* ===== verification/Producer_Simple.thy ===== *)
theory Producer_Simple
  imports Producer_Core
begin

text \<open>
  \<open>queue/producer/stdout.go\<close>, \<open>redis.go\<close> and \<open>kafka.go\<close>: the producers that hand an encoded event
  to one call of a client. The clients are parameters: records of the functions the code calls on
  them. The location of the process, which the text of an event depends on, is passed to each send.
\<close>

section \<open>Stdout\<close>

text \<open>\<open>fmt.Println\<close> appends a line to the standard output, which is the world here.\<close>

definition StdoutProducer_Send :: "location \<Rightarrow> EventData \<Rightarrow> string list \<Rightarrow> go_error option \<times> string list" where
  "StdoutProducer_Send loc event out =
     (case marshalIndent loc event of
        Inl err \<Rightarrow> (Some (Wrap ''failed to marshal event: %w'' [] err), out)
      | Inr data \<Rightarrow> (None, out @ [data]))"

definition NewStdoutProducer :: "location \<Rightarrow> string list \<Rightarrow> (go_error + string list IProducer) \<times> string list" where
  "NewStdoutProducer loc out =
     (Inr \<lparr>Send = (\<lambda>_. StdoutProducer_Send loc), CloseProducer = (\<lambda>out. (None, out))\<rparr>, out)"

section \<open>Redis\<close>

text \<open>The part of the Redis client used here: \<open>Ping\<close>, \<open>LPush\<close> and \<open>Close\<close>.\<close>

record 'w redis_client =
  Ping :: "'w \<Rightarrow> go_error option \<times> 'w"
  LPush :: "'w ctx \<Rightarrow> string \<Rightarrow> string \<Rightarrow> 'w \<Rightarrow> go_error option \<times> 'w"
  CloseRedis :: "'w \<Rightarrow> go_error option \<times> 'w"

record 'w RedisProducer =
  rpCfg :: RedisConfig
  rpRdb :: "'w redis_client"
  rpKey :: string

definition NewRedisProducer :: "(RedisConfig \<Rightarrow> 'w redis_client) \<Rightarrow> RedisConfig \<Rightarrow> 'w \<Rightarrow>
    (go_error + 'w RedisProducer) \<times> 'w" where
  "NewRedisProducer NewClient cfg w =
     (let rdb = NewClient cfg in
      case Ping rdb w of
        (Some err, w1) \<Rightarrow> (Inl (Wrap ''failed to connect Redis: %w'' [] err), w1)
      | (None, w1) \<Rightarrow> (Inr \<lparr>rpCfg = cfg, rpRdb = rdb, rpKey = rcKey cfg\<rparr>, w1))"

definition RedisProducer_Send :: "location \<Rightarrow> 'w RedisProducer \<Rightarrow> 'w ctx \<Rightarrow> EventData \<Rightarrow> 'w \<Rightarrow>
    go_error option \<times> 'w" where
  "RedisProducer_Send loc r ctx event w =
     (case marshal loc event of
        Inl err \<Rightarrow> (Some err, w)
      | Inr data \<Rightarrow>
          (case LPush (rpRdb r) ctx (rpKey r) data w of
             (Some err, w1) \<Rightarrow> (Some (Wrap ''failed to push event to Redis: %w'' [] err), w1)
           | (None, w1) \<Rightarrow> (None, w1)))"

definition RedisProducer_Close :: "'w RedisProducer \<Rightarrow> 'w \<Rightarrow> go_error option \<times> 'w" where
  "RedisProducer_Close r w = CloseRedis (rpRdb r) w"

definition RedisProducer_IProducer :: "location \<Rightarrow> 'w RedisProducer \<Rightarrow> 'w IProducer" where
  "RedisProducer_IProducer loc r =
     \<lparr>Send = RedisProducer_Send loc r, CloseProducer = RedisProducer_Close r\<rparr>"

section \<open>Kafka\<close>

text \<open>
  The settings of the \<open>kafka.Writer\<close> that the code chooses, and the writer itself.
  \<open>context.WithTimeout\<close> derives a context that also ends after the given seconds: which one it
  is depends on the clock of the world, so it is a parameter.
\<close>

datatype kafka_acks = RequireNone | RequireOne | RequireAll

record kafka_writer_settings =
  kwAddr :: "string list"
  kwTopic :: string
  kwLeastBytes :: bool
  kwRequiredAcks :: kafka_acks
  kwAsync :: bool
  kwAllowAutoTopicCreation :: bool
  kwBatchSize :: int

record 'w kafka_writer =
  WriteMessages :: "'w ctx \<Rightarrow> string \<Rightarrow> 'w \<Rightarrow> go_error option \<times> 'w"
  CloseWriter :: "'w \<Rightarrow> go_error option \<times> 'w"

record 'w KafkaProducer =
  kpWriter :: "'w kafka_writer"
  kpConfig :: KafkaConfig

definition kafka_settings :: "KafkaConfig \<Rightarrow> kafka_writer_settings" where
  "kafka_settings cfg =
     \<lparr>kwAddr = kcBrokers cfg, kwTopic = kcTopic cfg, kwLeastBytes = True,
      kwRequiredAcks = RequireAll, kwAsync = False, kwAllowAutoTopicCreation = True, kwBatchSize = 1\<rparr>"

definition NewKafkaProducer :: "(kafka_writer_settings \<Rightarrow> 'w kafka_writer) \<Rightarrow> KafkaConfig \<Rightarrow> 'w \<Rightarrow>
    (go_error + 'w KafkaProducer) \<times> 'w" where
  "NewKafkaProducer newWriter cfg w =
     (Inr \<lparr>kpWriter = newWriter (kafka_settings cfg), kpConfig = cfg\<rparr>, w)"

definition KafkaProducer_Send :: "location \<Rightarrow> (int \<Rightarrow> 'w ctx \<Rightarrow> 'w \<Rightarrow> 'w ctx) \<Rightarrow> 'w KafkaProducer \<Rightarrow>
    'w ctx \<Rightarrow> EventData \<Rightarrow> 'w \<Rightarrow> go_error option \<times> 'w" where
  "KafkaProducer_Send loc withTimeout k ctx event w =
     (case marshal loc event of
        Inl err \<Rightarrow> (Some err, w)
      | Inr eventValue \<Rightarrow> WriteMessages (kpWriter k) (withTimeout 30 ctx w) eventValue w)"

definition KafkaProducer_Close :: "'w KafkaProducer \<Rightarrow> 'w \<Rightarrow> go_error option \<times> 'w" where
  "KafkaProducer_Close k w = CloseWriter (kpWriter k) w"

section \<open>Properties\<close>

lemma marshal_not_retriable: "marshal loc event = Inl err \<Longrightarrow> \<not> isRetriable (Some err)"
  using marshal_error [of loc event err] unfolding encoding_error_def isRetriable_def by fastforce

text \<open>
  C27. An event that cannot be encoded is given up at once: with the stdout, the Redis and the
  Kafka producer, \<open>SendWithRetry\<close> reports the encoder's error after a single attempt that never
  reached the client, wrapped or not, since the error is classified through its wrapping.
\<close>

theorem unencodable_event_not_retried:
  assumes "marshal loc event = Inl err" and "0 \<le> maxRetries"
  shows "SendWithRetry env ctx (RedisProducer_IProducer loc r) event maxRetries w = (Some err, w) \<and>
    SendWithRetry env ctx \<lparr>Send = KafkaProducer_Send loc withTimeout k, CloseProducer = KafkaProducer_Close k\<rparr>
      event maxRetries w = (Some err, w) \<and>
    SendWithRetry env' ctx' \<lparr>Send = (\<lambda>_. StdoutProducer_Send loc), CloseProducer = (\<lambda>out. (None, out))\<rparr>
      event maxRetries out = (Some (Wrap ''failed to marshal event: %w'' [] err), out)"
proof -
  have "marshalIndent loc event = Inl err" using assms(1) by (simp add: marshalIndent_error)
  moreover have "\<not> isRetriable (Some err)" using assms(1) by (rule marshal_not_retriable)
  ultimately show ?thesis
    using assms
    by (simp add: SendWithRetry_def RedisProducer_IProducer_def RedisProducer_Send_def
        KafkaProducer_Send_def StdoutProducer_Send_def)
qed

text \<open>The witness: a row with a NaN.\<close>

definition nan_event :: EventData where
  "nan_event = zeroEvent\<lparr>eRow := zeroRow\<lparr>rData := fmupd ''x'' (VFloat64 0x7FF8000000000000) fmempty\<rparr>\<rparr>"

definition redis_down :: "nat RedisProducer" where
  "redis_down =
     \<lparr>rpCfg = \<lparr>rcAddr = ''127.0.0.1:6379'', rcPassword = [], rcDB = 0, rcKey = ''events''\<rparr>,
      rpRdb = \<lparr>Ping = (\<lambda>n. (Some IoEOF, n)), LPush = (\<lambda>_ _ _ n. (Some IoEOF, Suc n)),
        CloseRedis = (\<lambda>n. (None, n))\<rparr>,
      rpKey = ''events''\<rparr>"

lemma marshal_nan: "marshal utc nan_event = Inl (JsonErr JsonUnsupportedValueError)"
proof -
  have "rfc3339_text 0 zero_time = Some ''0001-01-01T00:00:00Z''" by code_simp
  moreover have "float64_text 0x7FF8000000000000 = None" by (simp add: float64_text_def)
  ultimately show ?thesis
    by (simp add: marshal_def event_json_def nan_event_def zeroEvent_def zeroRow_def utc_def or_error_def Let_def
        row_json_def sorted_list_of_fmap_def sorted_list_of_fset.rep_eq)
qed

theorem unencodable_event_not_retried_witness:
  "SendWithRetry patient (\<lambda>_. None) (RedisProducer_IProducer utc redis_down) nan_event 3 0 =
   (Some (JsonErr JsonUnsupportedValueError), 0)"
  using marshal_nan by (rule unencodable_event_not_retried [THEN conjunct1]) simp

end
