(* ===== verification/Producer_Reconnect.thy ===== *)
theory Producer_Reconnect
  imports Producer_Simple
begin

text \<open>
  \<open>queue/producer/pulsar.go\<close> and \<open>rocket.go\<close>: the producers that keep one connection and rebuild
  it when a send fails. The client libraries are records of the functions the code calls; a
  connection handle is whatever they return. A call of \<open>Send\<close> runs alone here, as it does in
  \<open>Listen\<close>, which has a single consumer; the mutex then never blocks.

  Both are instances of one discipline, \<open>resend\<close>, whose laws are the locale \<open>reconnecting\<close>.
\<close>

section \<open>The discipline\<close>

text \<open>
  One send with one repair: without a handle connect first; send; when that fails connect
  again and send once more. \<open>first\<close> is how the first error is reported, and the two \<open>Wrap\<close>s are
  how it is reported together with the failure of the repair.
\<close>

definition resend_on :: "('s \<Rightarrow> 'h option) \<Rightarrow> ('s \<Rightarrow> 'w \<Rightarrow> go_error option \<times> 's \<times> 'w) \<Rightarrow>
    ('h \<Rightarrow> 'w \<Rightarrow> go_error option \<times> 'w) \<Rightarrow> (go_error \<Rightarrow> go_error) \<Rightarrow> 's \<Rightarrow> 'w \<Rightarrow>
    go_error option outcome \<times> 's \<times> 'w" where
  "resend_on handle_of reconnect send1 first s w =
     (case handle_of s of
        None \<Rightarrow> (Panics ''nil producer'', s, w)
      | Some h \<Rightarrow>
          (case send1 h w of
             (None, w1) \<Rightarrow> (Returns None, s, w1)
           | (Some err, w1) \<Rightarrow>
               (case reconnect s w1 of
                  (Some rerr, s1, w2) \<Rightarrow>
                    (Returns (Some (Wrap ''%w (reconnect failed: %v)'' [FErr rerr] (first err))), s1, w2)
                | (None, s1, w2) \<Rightarrow>
                    (case handle_of s1 of
                       None \<Rightarrow> (Panics ''nil producer'', s1, w2)
                     | Some h1 \<Rightarrow>
                         (case send1 h1 w2 of
                            (Some perr, w3) \<Rightarrow>
                              (Returns (Some (Wrap ''%w (the retry on the new connection failed: %v)''
                                 [FErr perr] (first err))), s1, w3)
                          | (None, w3) \<Rightarrow> (Returns None, s1, w3))))))"

definition resend :: "('s \<Rightarrow> 'h option) \<Rightarrow> ('s \<Rightarrow> bool) \<Rightarrow> ('s \<Rightarrow> 'w \<Rightarrow> go_error option \<times> 's \<times> 'w) \<Rightarrow>
    go_error \<Rightarrow> ('h \<Rightarrow> 'w \<Rightarrow> go_error option \<times> 'w) \<Rightarrow> (go_error \<Rightarrow> go_error) \<Rightarrow> 's \<Rightarrow> 'w \<Rightarrow>
    go_error option outcome \<times> 's \<times> 'w" where
  "resend handle_of closed reconnect closedErr send1 first s w =
     (if closed s then (Returns (Some closedErr), s, w)
      else if handle_of s = None then
        (case reconnect s w of
           (Some err, s1, w1) \<Rightarrow> (Returns (Some err), s1, w1)
         | (None, s1, w1) \<Rightarrow> resend_on handle_of reconnect send1 first s1 w1)
      else resend_on handle_of reconnect send1 first s w)"

text \<open>
  What the report \<open>r\<close> of one such send has to be, given the sends it made, each with its handle and
  its answer: none, and then an error; one, on the handle held before if there was one; or, after
  an error, a second one on the handle held afterwards. It is nil exactly when the last send
  was accepted, and an error wraps the answer of the first.
\<close>

definition send_report :: "'h option \<Rightarrow> 'h option \<Rightarrow> go_error option \<Rightarrow> ('h \<times> go_error option) list \<Rightarrow> bool" where
  "send_report held held' r sends \<longleftrightarrow>
     length sends \<le> 2 \<and>
     (r = None \<longleftrightarrow> sends \<noteq> [] \<and> snd (last sends) = None) \<and>
     (sends \<noteq> [] \<longrightarrow>
        (held \<noteq> None \<longrightarrow> held = Some (fst (hd sends))) \<and>
        (r = None \<or> length sends = 2 \<longrightarrow> held' = Some (fst (last sends))) \<and>
        (r \<noteq> None \<or> length sends = 2 \<longrightarrow>
           (\<exists>err. snd (hd sends) = Some err \<and> (r \<noteq> None \<longrightarrow> errors_Is (the r) err))))"

text \<open>
  What a provider owes: a reconnection that succeeds leaves an open producer with a handle,
  one that fails on an open producer leaves it open.
\<close>

locale reconnecting =
  fixes handle_of :: "'s \<Rightarrow> 'h option"
    and closed :: "'s \<Rightarrow> bool"
    and reconnect :: "'s \<Rightarrow> 'w \<Rightarrow> go_error option \<times> 's \<times> 'w"
    and wf :: "'s \<Rightarrow> bool"
  assumes reconnect_ok: "reconnect s w = (None, s', w') \<Longrightarrow> handle_of s' \<noteq> None"
    and reconnect_closed: "reconnect s w = (e, s', w') \<Longrightarrow> closed s' = closed s"
    and reconnect_wf: "wf s \<Longrightarrow> reconnect s w = (e, s', w') \<Longrightarrow> wf s'"
begin

lemma resend_on_returns:
  "handle_of s \<noteq> None \<Longrightarrow> \<exists>r s' w'. resend_on handle_of reconnect send1 first s w = (Returns r, s', w')"
  by (auto simp: resend_on_def split: option.splits prod.splits) (metis option.distinct(1) reconnect_ok)+

lemma resend_returns: "\<exists>r s' w'. resend handle_of closed reconnect closedErr send1 first s w = (Returns r, s', w')"
  by (auto simp: resend_def split: option.splits prod.splits dest!: reconnect_ok intro: resend_on_returns)

lemma resend_on_nil_sent:
  "resend_on handle_of reconnect send1 first s w = (Returns None, s', w') \<Longrightarrow>
   \<exists>h w0. handle_of s' = Some h \<and> send1 h w0 = (None, w')"
  by (auto simp: resend_on_def split: option.splits prod.splits)

lemma resend_nil_sent:
  "resend handle_of closed reconnect closedErr send1 first s w = (Returns None, s', w') \<Longrightarrow>
   \<exists>h w0. handle_of s' = Some h \<and> send1 h w0 = (None, w')"
  by (auto simp: resend_def split: if_splits option.splits prod.splits dest!: resend_on_nil_sent)

lemma resend_on_keeps:
  "resend_on handle_of reconnect send1 first s w = (r, s', w') \<Longrightarrow> wf s \<Longrightarrow> wf s' \<and> closed s' = closed s"
  by (auto simp: resend_on_def split: option.splits prod.splits dest: reconnect_wf reconnect_closed)

lemma resend_keeps:
  "resend handle_of closed reconnect closedErr send1 first s w = (r, s', w') \<Longrightarrow> wf s \<Longrightarrow>
   wf s' \<and> closed s' = closed s"
  by (auto simp: resend_def split: if_splits option.splits prod.splits
      dest: reconnect_wf reconnect_closed dest!: resend_on_keeps)

lemma resend_closed:
  "resend handle_of closed reconnect closedErr send1 first s w = (r, s', w') \<Longrightarrow> closed s' = closed s"
  by (auto simp: resend_def resend_on_def split: if_splits option.splits prod.splits dest: reconnect_closed)

text \<open>A log of the world that only a send extends, by its handle and its answer, tells what was reported.\<close>

lemma resend_on_log:
  assumes send: "\<And>h w. log (snd (send1 h w)) = log w @ [entry (h, fst (send1 h w))]"
    and quiet: "\<And>s w. wf s \<Longrightarrow> log (snd (snd (reconnect s w))) = log w"
    and first: "\<And>err. errors_Is (first err) err" and wf: "wf s" and h: "handle_of s = Some h"
    and run: "resend_on handle_of reconnect send1 first s w = (Returns r, s', w')"
  shows "\<exists>sends. sends \<noteq> [] \<and> log w' = log w @ map entry sends \<and> send_report (Some h) (handle_of s') r sends"
proof -
  have s: "send1 h w = (e, w1) \<Longrightarrow> log w1 = log w @ [entry (h, e)]" for h w e w1 using send [of h w] by simp
  have q: "wf s \<Longrightarrow> reconnect s w = (e, s1, w1) \<Longrightarrow> log w1 = log w" for s w e s1 w1 using quiet [of s w] by simp
  obtain e1 w1 where s1: "send1 h w = (e1, w1)" by fastforce
  obtain re s2 w2 where rc: "reconnect s w1 = (re, s2, w2)" by (metis surj_pair)
  show ?thesis
  proof (cases "\<exists>err. e1 = Some err \<and> re = None")
    case False
    with run h s1 rc s [OF s1] q [OF wf rc] first show ?thesis
      by (intro exI [of _ "[(h, e1)]"]) (auto simp: resend_on_def send_report_def split: option.splits)
  next
    case True
    then obtain h2 where h2: "handle_of s2 = Some h2" using reconnect_ok rc by blast
    obtain e2 w3 where s2: "send1 h2 w2 = (e2, w3)" by fastforce
    from True run h s1 rc h2 s2 s [OF s1] s [OF s2] q [OF wf rc] first show ?thesis
      by (intro exI [of _ "[(h, e1), (h2, e2)]"]) (auto simp: resend_on_def send_report_def split: option.splits)
  qed
qed

lemma resend_log:
  assumes send: "\<And>h w. log (snd (send1 h w)) = log w @ [entry (h, fst (send1 h w))]"
    and quiet: "\<And>s w. wf s \<Longrightarrow> log (snd (snd (reconnect s w))) = log w"
    and first: "\<And>err. errors_Is (first err) err" and wf: "wf s"
    and run: "resend handle_of closed reconnect closedErr send1 first s w = (Returns r, s', w')"
  shows "\<exists>sends. log w' = log w @ map entry sends \<and> send_report (handle_of s) (handle_of s') r sends \<and>
    (sends = [] \<longrightarrow> closed s \<and> r = Some closedErr \<and> s' = s \<and> w' = w \<or>
       \<not> closed s \<and> handle_of s = None \<and> reconnect s w = (r, s', w'))"
proof -
  have none: "send_report held held' (Some e) []" for held held' :: "'h option" and e by (simp add: send_report_def)
  have any: "send_report held held' r sends \<Longrightarrow> send_report None held' r sends" for held held' :: "'h option" and r sends
    by (auto simp: send_report_def)
  have quiet': "reconnect s w = (e, s1, w1) \<Longrightarrow> log w1 = log w" for e s1 w1 using quiet [OF wf, of w] by simp
  have on: "\<exists>sends. sends \<noteq> [] \<and> log w' = log w @ map entry sends \<and> send_report (Some h) (handle_of s') r sends"
    if "wf s" "handle_of s = Some h" "resend_on handle_of reconnect send1 first s w = (Returns r, s', w')" for s w h
    by (rule resend_on_log [OF _ _ _ that]) (simp_all add: send quiet first)
  show ?thesis
  proof (cases "handle_of s")
    case (Some h)
    show ?thesis
    proof (cases "closed s")
      case True
      with run none show ?thesis by (intro exI [of _ "[]"]) (auto simp: resend_def)
    next
      case False
      with run Some have "resend_on handle_of reconnect send1 first s w = (Returns r, s', w')" by (simp add: resend_def)
      from on [OF wf Some this] Some show ?thesis by auto
    qed
  next
    case None
    obtain re s1 w1 where rc: "reconnect s w = (re, s1, w1)" by (metis surj_pair)
    show ?thesis
    proof (cases "closed s \<or> re \<noteq> None")
      case True
      with run None rc none quiet' [OF rc] show ?thesis
        by (intro exI [of _ "[]"]) (auto simp: resend_def split: if_splits)
    next
      case False
      then obtain h where h: "handle_of s1 = Some h" using reconnect_ok [of s w s1 w1] rc by auto
      from False run None rc have "resend_on handle_of reconnect send1 first s1 w1 = (Returns r, s', w')"
        by (simp add: resend_def)
      from on [OF reconnect_wf [OF wf rc] h this] None any quiet' [OF rc] show ?thesis by auto
    qed
  qed
qed

text \<open>Counting the sends: a measure of the world that only a send raises.\<close>

lemma resend_at_most_twice:
  assumes "\<And>h w. sends (snd (send1 h w)) = sends w + (1 :: nat)"
    and "\<And>s w. sends (snd (snd (reconnect s w))) = sends w"
    and "resend handle_of closed reconnect closedErr send1 first s w = (r, s', w')"
  shows "sends w' \<le> sends w + 2"
proof -
  have s1: "send1 h w = (e, w1) \<Longrightarrow> sends w1 = sends w + 1" for h w e w1
    using assms(1) [of h w] by simp
  have rc: "reconnect s w = (e, s1, w1) \<Longrightarrow> sends w1 = sends w" for s w e s1 w1
    using assms(2) [of s w] by simp
  have on: "resend_on handle_of reconnect send1 first s w = (r, s', w') \<Longrightarrow> sends w' \<le> sends w + 2"
    for s w by (auto simp: resend_on_def split: option.splits prod.splits dest!: s1 rc)
  from assms(3) show ?thesis
    by (auto simp: resend_def split: if_splits option.splits prod.splits dest!: on rc)
qed

text \<open>A producer that is open recovers as soon as connecting works and the new handle accepts.\<close>

lemma resend_on_recovers:
  assumes "\<not> closed s" and "wf s" and "handle_of s \<noteq> None"
    and "\<And>s w. \<not> closed s \<Longrightarrow> wf s \<Longrightarrow> fst (reconnect s w) = None"
    and "\<And>s w s1 w1 w2. \<not> closed s \<Longrightarrow> wf s \<Longrightarrow> reconnect s w = (None, s1, w1) \<Longrightarrow>
      fst (send1 (the (handle_of s1)) w2) = None"
  shows "fst (resend_on handle_of reconnect send1 first s w) = Returns None"
proof -
  obtain h where h: "handle_of s = Some h" using assms(3) by blast
  obtain e w1 where s1: "send1 h w = (e, w1)" by fastforce
  obtain s2 w2 where rc: "reconnect s w1 = (None, s2, w2)"
    using assms(4) [OF assms(1,2), of w1] by (metis prod.collapse)
  obtain h2 where h2: "handle_of s2 = Some h2" using reconnect_ok [OF rc] by blast
  obtain w3 where s2: "send1 h2 w2 = (None, w3)"
    using assms(5) [OF assms(1,2) rc, of w2] h2 by (metis option.sel prod.collapse)
  show ?thesis by (cases e) (simp_all add: resend_on_def h s1 rc h2 s2)
qed

lemma resend_recovers:
  assumes "\<not> closed s" and "wf s" and "\<And>s w. \<not> closed s \<Longrightarrow> wf s \<Longrightarrow> fst (reconnect s w) = None"
    and "\<And>s w s1 w1 w2. \<not> closed s \<Longrightarrow> wf s \<Longrightarrow> reconnect s w = (None, s1, w1) \<Longrightarrow>
      fst (send1 (the (handle_of s1)) w2) = None"
  shows "fst (resend handle_of closed reconnect closedErr send1 first s w) = Returns None"
proof -
  obtain s1 w1 where rc: "reconnect s w = (None, s1, w1)"
    using assms(3) [OF assms(1,2), of w] by (metis prod.collapse)
  have "fst (resend_on handle_of reconnect send1 first s1 w1) = Returns None"
    using reconnect_ok [OF rc] reconnect_closed [OF rc] reconnect_wf [OF assms(2) rc] assms by (intro resend_on_recovers) auto
  moreover have "handle_of s \<noteq> None \<Longrightarrow> fst (resend_on handle_of reconnect send1 first s w) = Returns None"
    using assms by (intro resend_on_recovers) auto
  ultimately show ?thesis using assms(1) rc by (auto simp: resend_def)
qed

end

section \<open>Pulsar\<close>

record pulsar_client_options =
  pcoURL :: string
  pcoOperationTimeout :: duration
  pcoConnectionTimeout :: duration
  pcoAuthentication :: "string option"

record ('c, 'h, 'w) pulsar_lib =
  NewPulsarClient :: "pulsar_client_options \<Rightarrow> 'w \<Rightarrow> (go_error + 'c) \<times> 'w"
  CreatePulsarProducer :: "'c \<Rightarrow> string \<Rightarrow> 'w \<Rightarrow> (go_error + 'h) \<times> 'w"
  ClosePulsarClient :: "'c \<Rightarrow> 'w \<Rightarrow> 'w"
  SendPulsar :: "'h \<Rightarrow> 'w ctx \<Rightarrow> string \<Rightarrow> 'w \<Rightarrow> go_error option \<times> 'w"
  ClosePulsarHandle :: "'h \<Rightarrow> 'w \<Rightarrow> 'w"

record ('c, 'h, 'w) PulsarProducer =
  ppCfg :: PulsarConfig
  ppClient :: "'c option"
  ppProducer :: "'h option"
  ppClosed :: bool
  ppDialFn :: "('w \<Rightarrow> (go_error + 'c \<times> 'h) \<times> 'w) option"

definition pulsar_dial :: "('c, 'h, 'w) pulsar_lib \<Rightarrow> ('c, 'h, 'w) PulsarProducer \<Rightarrow> 'w \<Rightarrow>
    (go_error + 'c \<times> 'h) \<times> 'w" where
  "pulsar_dial lib p w =
     (case ppDialFn p of
        Some dialFn \<Rightarrow> dialFn w
      | None \<Rightarrow>
          (let cfg = ppCfg p;
               opts = \<lparr>pcoURL = plURL cfg,
                 pcoOperationTimeout = word_of_int (plOperationTimeout cfg) * Second,
                 pcoConnectionTimeout = word_of_int (plConnectionTimeout cfg) * Second,
                 pcoAuthentication = (if plToken cfg \<noteq> '''' then Some (plToken cfg) else None)\<rparr> in
           case NewPulsarClient lib opts w of
             (Inl err, w1) \<Rightarrow> (Inl err, w1)
           | (Inr client, w1) \<Rightarrow>
               (case CreatePulsarProducer lib client (plTopic cfg) w1 of
                  (Inl err, w2) \<Rightarrow> (Inl err, ClosePulsarClient lib client w2)
                | (Inr h, w2) \<Rightarrow> (Inr (client, h), w2))))"

definition NewPulsarProducer :: "('c, 'h, 'w) pulsar_lib \<Rightarrow> PulsarConfig \<Rightarrow> 'w \<Rightarrow>
    (go_error + ('c, 'h, 'w) PulsarProducer) \<times> 'w" where
  "NewPulsarProducer lib cfg w =
     (let p = \<lparr>ppCfg = cfg, ppClient = None, ppProducer = None, ppClosed = False, ppDialFn = None\<rparr> in
      case pulsar_dial lib p w of
        (Inl err, w1) \<Rightarrow> (Inl err, w1)
      | (Inr (client, h), w1) \<Rightarrow> (Inr (p\<lparr>ppClient := Some client, ppProducer := Some h\<rparr>), w1))"

definition pulsar_closed_err :: go_error where
  "pulsar_closed_err = ErrNew ''the Pulsar producer is closed'' []"

definition pulsar_reconnect :: "('c, 'h, 'w) pulsar_lib \<Rightarrow> ('c, 'h, 'w) PulsarProducer \<Rightarrow> 'w \<Rightarrow>
    go_error option \<times> ('c, 'h, 'w) PulsarProducer \<times> 'w" where
  "pulsar_reconnect lib p w =
     (if ppClosed p then (Some pulsar_closed_err, p, w)
      else
        (let (p1, w1) = (case ppProducer p of
               Some h \<Rightarrow> (p\<lparr>ppProducer := None\<rparr>, ClosePulsarHandle lib h w) | None \<Rightarrow> (p, w));
             (p2, w2) = (case ppClient p1 of
               Some c \<Rightarrow> (p1\<lparr>ppClient := None\<rparr>, ClosePulsarClient lib c w1) | None \<Rightarrow> (p1, w1)) in
         case pulsar_dial lib p2 w2 of
           (Inl err, w3) \<Rightarrow> (Some (Wrap ''failed to reconnect to Pulsar: %w'' [] err), p2, w3)
         | (Inr (client, h), w3) \<Rightarrow> (None, p2\<lparr>ppClient := Some client, ppProducer := Some h\<rparr>, w3)))"

definition PulsarProducer_Send :: "location \<Rightarrow> ('c, 'h, 'w) pulsar_lib \<Rightarrow> ('c, 'h, 'w) PulsarProducer \<Rightarrow>
    'w ctx \<Rightarrow> EventData \<Rightarrow> 'w \<Rightarrow> go_error option outcome \<times> ('c, 'h, 'w) PulsarProducer \<times> 'w" where
  "PulsarProducer_Send loc lib p ctx event w =
     (case marshal loc event of
        Inl err \<Rightarrow> (Returns (Some err), p, w)
      | Inr payload \<Rightarrow>
        (if ppClosed p then (Returns (Some pulsar_closed_err), p, w)
         else
          (case (if ppProducer p = None then pulsar_reconnect lib p w else (None, p, w)) of
             (Some err, p1, w1) \<Rightarrow> (Returns (Some err), p1, w1)
           | (None, p1, w1) \<Rightarrow>
             (case ppProducer p1 of
                None \<Rightarrow> (Panics ''nil producer'', p1, w1)
              | Some h \<Rightarrow>
                (case SendPulsar lib h ctx payload w1 of
                   (None, w2) \<Rightarrow> (Returns None, p1, w2)
                 | (Some err, w2) \<Rightarrow>
                   (case pulsar_reconnect lib p1 w2 of
                      (Some rerr, p2, w3) \<Rightarrow>
                        (Returns (Some (Wrap ''%w (reconnect failed: %v)'' [FErr rerr] err)), p2, w3)
                    | (None, p2, w3) \<Rightarrow>
                      (case ppProducer p2 of
                         None \<Rightarrow> (Panics ''nil producer'', p2, w3)
                       | Some h2 \<Rightarrow>
                         (case SendPulsar lib h2 ctx payload w3 of
                            (Some perr, w4) \<Rightarrow>
                              (Returns (Some (Wrap ''%w (the retry on the new connection failed: %v)''
                                 [FErr perr] err)), p2, w4)
                          | (None, w4) \<Rightarrow> (Returns None, p2, w4)))))))))"

definition PulsarProducer_Close :: "('c, 'h, 'w) pulsar_lib \<Rightarrow> ('c, 'h, 'w) PulsarProducer \<Rightarrow> 'w \<Rightarrow>
    go_error option \<times> ('c, 'h, 'w) PulsarProducer \<times> 'w" where
  "PulsarProducer_Close lib p w =
     (if ppClosed p then (None, p, w)
      else
        (let p1 = p\<lparr>ppClosed := True\<rparr>;
             w1 = (case ppProducer p1 of Some h \<Rightarrow> ClosePulsarHandle lib h w | None \<Rightarrow> w);
             w2 = (case ppClient p1 of Some c \<Rightarrow> ClosePulsarClient lib c w1 | None \<Rightarrow> w1)
         in (None, p1, w2)))"

section \<open>RocketMQ\<close>

datatype rocket_option =
    WithNsResolver "string list"
  | WithRetry int
  | WithGroupName string
  | WithNamespace string
  | WithCredentials string string

record ('h, 'w) rocket_lib =
  NewRocketProducer :: "rocket_option list \<Rightarrow> 'w \<Rightarrow> (go_error + 'h) \<times> 'w"
  StartRocket :: "'h \<Rightarrow> 'w \<Rightarrow> go_error option \<times> 'w"
  ShutdownRocket :: "'h \<Rightarrow> 'w \<Rightarrow> go_error option \<times> 'w"
  SendSync :: "'h \<Rightarrow> 'w ctx \<Rightarrow> string \<Rightarrow> string \<Rightarrow> 'w \<Rightarrow> go_error option \<times> 'w"

record 'h RocketMQProducer =
  rqCfg :: RocketMQConfig
  rqOptions :: "rocket_option list"
  rqProducer :: "'h option"
  rqClosed :: bool

definition buildOptions :: "RocketMQConfig \<Rightarrow> rocket_option list" where
  "buildOptions cfg =
     [WithNsResolver (rkServers cfg), WithRetry (rkRetry cfg)]
     @ (if rkGroup cfg \<noteq> '''' then [WithGroupName (rkGroup cfg)] else [])
     @ (if rkNamespace cfg \<noteq> '''' then [WithNamespace (rkNamespace cfg)] else [])
     @ (if rkAccessKey cfg \<noteq> '''' \<and> rkSecretKey cfg \<noteq> ''''
        then [WithCredentials (rkAccessKey cfg) (rkSecretKey cfg)] else [])"

definition createAndStartProducer :: "('h, 'w) rocket_lib \<Rightarrow> rocket_option list \<Rightarrow> 'w \<Rightarrow>
    (go_error + 'h) \<times> 'w" where
  "createAndStartProducer lib opts w =
     (case NewRocketProducer lib opts w of
        (Inl err, w1) \<Rightarrow> (Inl (Wrap ''failed to create RocketMQ producer: %w'' [] err), w1)
      | (Inr h, w1) \<Rightarrow>
          (case StartRocket lib h w1 of
             (Some err, w2) \<Rightarrow>
               (Inl (Wrap ''failed to start RocketMQ producer: %w'' [] err), snd (ShutdownRocket lib h w2))
           | (None, w2) \<Rightarrow> (Inr h, w2)))"

definition NewRocketMQProducer :: "('h, 'w) rocket_lib \<Rightarrow> RocketMQConfig \<Rightarrow> 'w \<Rightarrow>
    (go_error + 'h RocketMQProducer) \<times> 'w" where
  "NewRocketMQProducer lib cfg w =
     (let options = buildOptions cfg in
      case createAndStartProducer lib options w of
        (Inl err, w1) \<Rightarrow> (Inl err, w1)
      | (Inr h, w1) \<Rightarrow>
          (Inr \<lparr>rqCfg = cfg, rqOptions = options, rqProducer = Some h, rqClosed = False\<rparr>, w1))"

definition rocket_closed_err :: go_error where
  "rocket_closed_err = ErrNew ''the RocketMQ producer is closed'' []"

definition rocket_reconnect :: "('h, 'w) rocket_lib \<Rightarrow> 'h RocketMQProducer \<Rightarrow> 'w \<Rightarrow>
    go_error option \<times> 'h RocketMQProducer \<times> 'w" where
  "rocket_reconnect lib r w =
     (if rqClosed r then (Some rocket_closed_err, r, w)
      else
        (let (r1, w1) = (case rqProducer r of
               Some h \<Rightarrow> (r\<lparr>rqProducer := None\<rparr>, snd (ShutdownRocket lib h w)) | None \<Rightarrow> (r, w)) in
         case createAndStartProducer lib (rqOptions r1) w1 of
           (Inl err, w2) \<Rightarrow> (Some (Wrap ''failed to reconnect to RocketMQ: %w'' [] err), r1, w2)
         | (Inr h, w2) \<Rightarrow> (None, r1\<lparr>rqProducer := Some h\<rparr>, w2)))"

definition RocketMQProducer_Send :: "location \<Rightarrow> ('h, 'w) rocket_lib \<Rightarrow> 'h RocketMQProducer \<Rightarrow>
    'w ctx \<Rightarrow> EventData \<Rightarrow> 'w \<Rightarrow> go_error option outcome \<times> 'h RocketMQProducer \<times> 'w" where
  "RocketMQProducer_Send loc lib r ctx event w =
     (case marshal loc event of
        Inl err \<Rightarrow> (Returns (Some err), r, w)
      | Inr data \<Rightarrow>
        (if rqClosed r then (Returns (Some rocket_closed_err), r, w)
         else
          (case (if rqProducer r = None then rocket_reconnect lib r w else (None, r, w)) of
             (Some err, r1, w1) \<Rightarrow> (Returns (Some err), r1, w1)
           | (None, r1, w1) \<Rightarrow>
             (case rqProducer r1 of
                None \<Rightarrow> (Panics ''nil producer'', r1, w1)
              | Some h \<Rightarrow>
                (case SendSync lib h ctx (rkTopic (rqCfg r)) data w1 of
                   (None, w2) \<Rightarrow> (Returns None, r1, w2)
                 | (Some err, w2) \<Rightarrow>
                   (let sendErr = Wrap ''failed to send message to RocketMQ topic %s: %w''
                          [FStr (rkTopic (rqCfg r))] err in
                    case rocket_reconnect lib r1 w2 of
                      (Some rerr, r2, w3) \<Rightarrow>
                        (Returns (Some (Wrap ''%w (reconnect failed: %v)'' [FErr rerr] sendErr)), r2, w3)
                    | (None, r2, w3) \<Rightarrow>
                      (case rqProducer r2 of
                         None \<Rightarrow> (Panics ''nil producer'', r2, w3)
                       | Some h2 \<Rightarrow>
                         (case SendSync lib h2 ctx (rkTopic (rqCfg r)) data w3 of
                            (Some perr, w4) \<Rightarrow>
                              (Returns (Some (Wrap ''%w (the retry on the new connection failed: %v)''
                                 [FErr perr] sendErr)), r2, w4)
                          | (None, w4) \<Rightarrow> (Returns None, r2, w4)))))))))"

definition RocketMQProducer_Close :: "('h, 'w) rocket_lib \<Rightarrow> 'h RocketMQProducer \<Rightarrow> 'w \<Rightarrow>
    go_error option \<times> 'h RocketMQProducer \<times> 'w" where
  "RocketMQProducer_Close lib r w =
     (if rqClosed r then (None, r, w)
      else
        (let r1 = r\<lparr>rqClosed := True\<rparr> in
         case rqProducer r1 of
           Some h \<Rightarrow> (let (e, w1) = ShutdownRocket lib h w in (e, r1, w1))
         | None \<Rightarrow> (None, r1, w)))"

section \<open>Both follow the discipline\<close>

definition pulsar_wf :: "('c, 'h, 'w) PulsarProducer \<Rightarrow> bool" where
  "pulsar_wf p \<longleftrightarrow> (ppProducer p = None \<longleftrightarrow> ppClient p = None) \<and> ppDialFn p = None"

lemma PulsarProducer_Send_eq:
  "PulsarProducer_Send loc lib p ctx event w =
     (case marshal loc event of
        Inl err \<Rightarrow> (Returns (Some err), p, w)
      | Inr payload \<Rightarrow> resend ppProducer ppClosed (pulsar_reconnect lib) pulsar_closed_err
          (\<lambda>h. SendPulsar lib h ctx payload) (\<lambda>err. err) p w)"
  by (auto simp: PulsarProducer_Send_def resend_def resend_on_def split: sum.split option.split prod.split)

lemma RocketMQProducer_Send_eq:
  "RocketMQProducer_Send loc lib r ctx event w =
     (case marshal loc event of
        Inl err \<Rightarrow> (Returns (Some err), r, w)
      | Inr data \<Rightarrow> resend rqProducer rqClosed (rocket_reconnect lib) rocket_closed_err
          (\<lambda>h. SendSync lib h ctx (rkTopic (rqCfg r)) data)
          (Wrap ''failed to send message to RocketMQ topic %s: %w'' [FStr (rkTopic (rqCfg r))]) r w)"
  by (auto simp: RocketMQProducer_Send_def resend_def resend_on_def Let_def
      split: sum.split option.split prod.split)

interpretation pulsar: reconnecting ppProducer ppClosed "pulsar_reconnect lib" pulsar_wf for lib
  by unfold_locales
    (auto simp: pulsar_reconnect_def pulsar_wf_def split: if_splits option.splits prod.splits sum.splits)

interpretation rocket: reconnecting rqProducer rqClosed "rocket_reconnect lib" "\<lambda>_. True" for lib
  by unfold_locales
    (auto simp: rocket_reconnect_def Let_def split: if_splits option.splits prod.splits sum.splits)

section \<open>Properties\<close>

text \<open>
  The sends of a client library: a log of the world that a send extends by the handle, the text and
  the broker's answer (and the topic, which is the configured one in RocketMQ), and that nothing
  else the library offers changes.
\<close>

definition pulsar_logs :: "('c, 'h, 'w) pulsar_lib \<Rightarrow> ('w \<Rightarrow> (string \<times> 'h \<times> go_error option) list) \<Rightarrow> bool" where
  "pulsar_logs lib sent \<longleftrightarrow>
     (\<forall>h ctx x w. sent (snd (SendPulsar lib h ctx x w)) = sent w @ [(x, h, fst (SendPulsar lib h ctx x w))]) \<and>
     (\<forall>opts w. sent (snd (NewPulsarClient lib opts w)) = sent w) \<and>
     (\<forall>c topic w. sent (snd (CreatePulsarProducer lib c topic w)) = sent w) \<and>
     (\<forall>c w. sent (ClosePulsarClient lib c w) = sent w) \<and> (\<forall>h w. sent (ClosePulsarHandle lib h w) = sent w)"

definition rocket_logs :: "('h, 'w) rocket_lib \<Rightarrow> ('w \<Rightarrow> ((string \<times> string) \<times> 'h \<times> go_error option) list) \<Rightarrow> bool" where
  "rocket_logs lib sent \<longleftrightarrow>
     (\<forall>h ctx t x w. sent (snd (SendSync lib h ctx t x w)) = sent w @ [((t, x), h, fst (SendSync lib h ctx t x w))]) \<and>
     (\<forall>opts w. sent (snd (NewRocketProducer lib opts w)) = sent w) \<and>
     (\<forall>h w. sent (snd (StartRocket lib h w)) = sent w) \<and> (\<forall>h w. sent (snd (ShutdownRocket lib h w)) = sent w)"

lemma pulsar_reconnect_quiet:
  assumes "pulsar_logs lib sent" and "pulsar_wf p"
  shows "sent (snd (snd (pulsar_reconnect lib p w))) = sent w"
proof -
  have new: "NewPulsarClient lib opts w = (x, w') \<Longrightarrow> sent w' = sent w" for opts w x w'
    using assms(1) unfolding pulsar_logs_def by (metis snd_conv)
  have create: "CreatePulsarProducer lib c t w = (x, w') \<Longrightarrow> sent w' = sent w" for c t w x w'
    using assms(1) unfolding pulsar_logs_def by (metis snd_conv)
  have close: "sent (ClosePulsarClient lib c w) = sent w" "sent (ClosePulsarHandle lib h w) = sent w" for c h w
    using assms(1) by (simp_all add: pulsar_logs_def)
  have dial: "pulsar_dial lib p w = (x, w') \<Longrightarrow> ppDialFn p = None \<Longrightarrow> sent w' = sent w" for p w x w'
    by (auto simp: pulsar_dial_def Let_def close split: prod.splits sum.splits dest!: new create)
  show ?thesis
    using assms(2)
    by (auto simp: pulsar_reconnect_def pulsar_wf_def close split: prod.splits sum.splits option.splits dest!: dial)
qed

lemma rocket_reconnect_quiet:
  assumes "rocket_logs lib sent" shows "sent (snd (snd (rocket_reconnect lib r w))) = sent w"
proof -
  have new: "NewRocketProducer lib opts w = (x, w') \<Longrightarrow> sent w' = sent w" for opts w x w'
    using assms unfolding rocket_logs_def by (metis snd_conv)
  have start: "StartRocket lib h w = (x, w') \<Longrightarrow> sent w' = sent w" for h w x w'
    using assms unfolding rocket_logs_def by (metis snd_conv)
  have stop: "sent (snd (ShutdownRocket lib h w)) = sent w" for h w using assms by (simp add: rocket_logs_def)
  have dial: "createAndStartProducer lib opts w = (x, w') \<Longrightarrow> sent w' = sent w" for opts w x w'
    by (auto simp: createAndStartProducer_def stop split: prod.splits sum.splits option.splits dest!: new start)
  show ?thesis
    by (auto simp: rocket_reconnect_def Let_def stop split: prod.splits sum.splits option.splits dest!: dial)
qed

text \<open>
  C28. A \<open>Send\<close> of the Pulsar or the RocketMQ producer never dereferences a nil handle, however
  the dials and the sends go. It leaves the producer open or closed as it was, and the Pulsar client
  and producer both set or both nil (the dial hook of the tests is unset). Its report is the
  answer of the broker to the last publish: of the encoded event it makes at most two, the first on
  the handle the producer had, the second only after an error and on the handle it has
  afterwards; it reports nil exactly when the last one was accepted, and an error that
  wraps the first one's answer otherwise. Without a publish it reports why there was none: the encoding
  error, the closed producer, or the connection that could not be made.
\<close>

theorem reconnecting_send_reports:
  "(\<exists>r p' w'. PulsarProducer_Send loc plib p ctx event w = (Returns r, p', w') \<and>
      ppClosed p' = ppClosed p \<and> (pulsar_wf p \<longrightarrow> pulsar_wf p') \<and>
      (r = None \<longrightarrow> (\<exists>h payload w0. ppProducer p' = Some h \<and> marshal loc event = Inr payload \<and>
         SendPulsar plib h ctx payload w0 = (None, w'))) \<and>
      (case marshal loc event of
         Inl err \<Rightarrow> r = Some err \<and> p' = p \<and> w' = w
       | Inr payload \<Rightarrow> pulsar_logs plib sent \<and> pulsar_wf p \<longrightarrow>
           (\<exists>sends. sent w' = sent w @ map (Pair payload) sends \<and>
              send_report (ppProducer p) (ppProducer p') r sends \<and>
              (sends = [] \<longrightarrow> ppClosed p \<and> r = Some pulsar_closed_err \<and> p' = p \<and> w' = w \<or>
                 \<not> ppClosed p \<and> ppProducer p = None \<and> pulsar_reconnect plib p w = (r, p', w'))))) \<and>
   (\<exists>r q' v'. RocketMQProducer_Send loc rlib q ctx' event v = (Returns r, q', v') \<and>
      rqClosed q' = rqClosed q \<and>
      (r = None \<longrightarrow> (\<exists>h payload v0. rqProducer q' = Some h \<and> marshal loc event = Inr payload \<and>
         SendSync rlib h ctx' (rkTopic (rqCfg q)) payload v0 = (None, v'))) \<and>
      (case marshal loc event of
         Inl err \<Rightarrow> r = Some err \<and> q' = q \<and> v' = v
       | Inr payload \<Rightarrow> rocket_logs rlib sent' \<longrightarrow>
           (\<exists>sends. sent' v' = sent' v @ map (Pair (rkTopic (rqCfg q), payload)) sends \<and>
              send_report (rqProducer q) (rqProducer q') r sends \<and>
              (sends = [] \<longrightarrow> rqClosed q \<and> r = Some rocket_closed_err \<and> q' = q \<and> v' = v \<or>
                 \<not> rqClosed q \<and> rqProducer q = None \<and> rocket_reconnect rlib q v = (r, q', v')))))"
proof (cases "marshal loc event")
  case (Inl err)
  then show ?thesis by (simp add: PulsarProducer_Send_eq RocketMQProducer_Send_eq)
next
  case (Inr payload)
  obtain r p' w' where p: "PulsarProducer_Send loc plib p ctx event w = (Returns r, p', w')"
    unfolding PulsarProducer_Send_eq Inr using pulsar.resend_returns by fastforce
  obtain r2 q' v' where q: "RocketMQProducer_Send loc rlib q ctx' event v = (Returns r2, q', v')"
    unfolding RocketMQProducer_Send_eq Inr using rocket.resend_returns by fastforce
  note runs = p [unfolded PulsarProducer_Send_eq Inr sum.case] q [unfolded RocketMQProducer_Send_eq Inr sum.case]
  have closed: "ppClosed p' = ppClosed p" "rqClosed q' = rqClosed q" "pulsar_wf p \<longrightarrow> pulsar_wf p'"
    using pulsar.resend_closed [OF runs(1)] rocket.resend_closed [OF runs(2)] pulsar.resend_keeps [OF runs(1)]
    by simp_all
  have plog: "\<exists>sends. sent w' = sent w @ map (Pair payload) sends \<and> send_report (ppProducer p) (ppProducer p') r sends \<and>
      (sends = [] \<longrightarrow> ppClosed p \<and> r = Some pulsar_closed_err \<and> p' = p \<and> w' = w \<or>
         \<not> ppClosed p \<and> ppProducer p = None \<and> pulsar_reconnect plib p w = (r, p', w'))"
    if "pulsar_logs plib sent" "pulsar_wf p"
    by (rule pulsar.resend_log [where log = sent and entry = "Pair payload", OF _ pulsar_reconnect_quiet [OF that(1)] errors_Is_refl that(2) runs(1)])
      (use that(1) in \<open>simp_all add: pulsar_logs_def\<close>)
  have rlog: "\<exists>sends. sent' v' = sent' v @ map (Pair (rkTopic (rqCfg q), payload)) sends \<and>
      send_report (rqProducer q) (rqProducer q') r2 sends \<and>
      (sends = [] \<longrightarrow> rqClosed q \<and> r2 = Some rocket_closed_err \<and> q' = q \<and> v' = v \<or>
         \<not> rqClosed q \<and> rqProducer q = None \<and> rocket_reconnect rlib q v = (r2, q', v'))"
    if "rocket_logs rlib sent'"
    by (rule rocket.resend_log [where log = sent' and entry = "Pair (rkTopic (rqCfg q), payload)", OF _ rocket_reconnect_quiet [OF that] _ TrueI runs(2)])
      (use that in \<open>simp_all add: rocket_logs_def errors_Is_refl\<close>)
  have nil: "r = None \<longrightarrow> (\<exists>h x w0. ppProducer p' = Some h \<and> Inr payload = (Inr x :: go_error + string) \<and> SendPulsar plib h ctx x w0 = (None, w'))"
    "r2 = None \<longrightarrow> (\<exists>h x v0. rqProducer q' = Some h \<and> Inr payload = (Inr x :: go_error + string) \<and>
        SendSync rlib h ctx' (rkTopic (rqCfg q)) x v0 = (None, v'))"
    using runs by (fastforce dest: pulsar.resend_nil_sent, fastforce dest: rocket.resend_nil_sent)
  show ?thesis
    unfolding Inr sum.case
    by (rule conjI, rule exI [of _ r], rule exI [of _ p'], rule exI [of _ w'], use p closed nil plog in blast,
        rule exI [of _ r2], rule exI [of _ q'], rule exI [of _ v'], use q closed nil rlog in blast)
qed

definition pulsar_broker :: "(nat \<Rightarrow> bool) \<Rightarrow> (unit, nat, nat) pulsar_lib" where
  "pulsar_broker alive =
     \<lparr>NewPulsarClient = (\<lambda>_ n. (Inr (), n)), CreatePulsarProducer = (\<lambda>_ _ n. (Inr (Suc n), Suc n)),
      ClosePulsarClient = (\<lambda>_ n. n),
      SendPulsar = (\<lambda>h _ _ n. (if alive h then None else Some (LibErr ''gone''), Suc n)),
      ClosePulsarHandle = (\<lambda>_ n. n)\<rparr>"

definition rocket_broker :: "(nat \<Rightarrow> bool) \<Rightarrow> (nat, nat) rocket_lib" where
  "rocket_broker alive =
     \<lparr>NewRocketProducer = (\<lambda>_ n. (Inr (Suc n), Suc n)), StartRocket = (\<lambda>_ n. (None, n)),
      ShutdownRocket = (\<lambda>_ n. (None, n)),
      SendSync = (\<lambda>h _ _ _ n. (if alive h then None else Some (LibErr ''gone''), Suc n))\<rparr>"

definition pulsar_start :: "(unit, nat, 'w) PulsarProducer" where
  "pulsar_start = \<lparr>ppCfg = \<lparr>plURL = '''', plTopic = ''t'', plToken = '''', plOperationTimeout = 30,
     plConnectionTimeout = 30\<rparr>, ppClient = Some (), ppProducer = Some 0, ppClosed = False, ppDialFn = None\<rparr>"

definition rocket_start :: "nat RocketMQProducer" where
  "rocket_start = \<lparr>rqCfg = \<lparr>rkServers = [], rkTopic = ''t'', rkGroup = '''', rkRetry = 3,
     rkNamespace = '''', rkAccessKey = '''', rkSecretKey = ''''\<rparr>, rqOptions = [], rqProducer = Some 0,
     rqClosed = False\<rparr>"

lemmas broker_defs = pulsar_broker_def rocket_broker_def pulsar_start_def rocket_start_def

text \<open>A broker that keeps the log in its world: it refuses the sends on the handles that are not alive.\<close>

definition pulsar_journal :: "(nat \<Rightarrow> bool) \<Rightarrow> (unit, nat, nat \<times> (string \<times> nat \<times> go_error option) list) pulsar_lib" where
  "pulsar_journal alive =
     \<lparr>NewPulsarClient = (\<lambda>_ w. (Inr (), w)), CreatePulsarProducer = (\<lambda>_ _ (n, l). (Inr n, Suc n, l)),
      ClosePulsarClient = (\<lambda>_ w. w),
      SendPulsar = (\<lambda>h _ x (n, l). let e = (if alive h then None else Some (LibErr ''gone'')) in (e, n, l @ [(x, h, e)])),
      ClosePulsarHandle = (\<lambda>_ w. w)\<rparr>"

theorem reconnecting_send_reports_witness:
  "\<exists>p' w'. PulsarProducer_Send utc (pulsar_journal (\<lambda>h. h > 0)) pulsar_start (\<lambda>_. None) zeroEvent (1, []) =
       (Returns None, p', w') \<and>
     snd w' = [(zero_text, 0, Some (LibErr ''gone'')), (zero_text, 1, None)] \<and>
     pulsar_wf p' \<and> send_report (Some 0) (ppProducer p') None [(0, Some (LibErr ''gone'')), (1, None)]"
proof -
  let ?lib = "pulsar_journal (\<lambda>h. h > 0)" and ?sends = "[(0, Some (LibErr ''gone'')), (1, None)] :: (nat \<times> go_error option) list"
  let ?p = "pulsar_start :: (unit, nat, nat \<times> (string \<times> nat \<times> go_error option) list) PulsarProducer"
  let ?s = "PulsarProducer_Send utc ?lib ?p (\<lambda>_. None) zeroEvent (1, [])"
  have run: "fst ?s = Returns None \<and> snd (snd (snd ?s)) = map (Pair zero_text) ?sends"
    by (simp add: PulsarProducer_Send_def pulsar_reconnect_def pulsar_dial_def pulsar_journal_def pulsar_start_def Let_def)
  have wf: "pulsar_wf ?p" "ppProducer ?p = Some 0" by (simp_all add: pulsar_wf_def pulsar_start_def)
  have logs: "pulsar_logs ?lib snd" by (auto simp: pulsar_logs_def pulsar_journal_def Let_def)
  obtain r p' w' where s: "?s = (Returns r, p', w')" and "pulsar_wf ?p \<longrightarrow> pulsar_wf p'"
    and "pulsar_logs ?lib snd \<and> pulsar_wf ?p \<longrightarrow>
      (\<exists>sends. snd w' = snd (1 :: nat, []) @ map (Pair zero_text) sends \<and>
        send_report (ppProducer ?p) (ppProducer p') r sends)"
    using conjunct1 [OF reconnecting_send_reports [of utc ?lib ?p "\<lambda>_. None" zeroEvent "(1, [])" snd],
      unfolded marshal_zero sum.case]
    by - (elim exE conjE, rule that, assumption, assumption, fast)
  then obtain sends where "pulsar_wf p'" "snd w' = map (Pair zero_text) sends" "send_report (Some 0) (ppProducer p') r sends"
    using wf logs by auto
  note s = s this
  with run have "r = None" "map (Pair zero_text) sends = map (Pair zero_text) ?sends" by simp_all
  moreover from this(2) have "sends = ?sends" by (rule map_injective) (simp add: inj_def)
  ultimately show ?thesis using s by auto
qed

text \<open>
  C29. An open producer recovers by itself: when a new connection can be made and it accepts the
  event, \<open>Send\<close> reports nil, whether the producer held a dead handle or none at all.
\<close>

theorem reconnecting_send_recovers:
  assumes "marshal loc event = Inr payload"
    and "\<not> ppClosed p" and "pulsar_wf p" and "\<And>p w. \<not> ppClosed p \<Longrightarrow> pulsar_wf p \<Longrightarrow> fst (pulsar_reconnect plib p w) = None"
    and "\<And>p w p1 w1 w2. \<not> ppClosed p \<Longrightarrow> pulsar_wf p \<Longrightarrow> pulsar_reconnect plib p w = (None, p1, w1) \<Longrightarrow>
           fst (SendPulsar plib (the (ppProducer p1)) ctx payload w2) = None"
    and "\<not> rqClosed q" and "\<And>q v. \<not> rqClosed q \<Longrightarrow> fst (rocket_reconnect rlib q v) = None"
    and "\<And>q v q1 v1 v2. \<not> rqClosed q \<Longrightarrow> rocket_reconnect rlib q v = (None, q1, v1) \<Longrightarrow>
           fst (SendSync rlib (the (rqProducer q1)) ctx' topic payload v2) = None"
    and "topic = rkTopic (rqCfg q)"
  shows "fst (PulsarProducer_Send loc plib p ctx event w) = Returns None \<and>
    fst (RocketMQProducer_Send loc rlib q ctx' event v) = Returns None"
proof -
  have "fst (resend ppProducer ppClosed (pulsar_reconnect plib) pulsar_closed_err (\<lambda>h. SendPulsar plib h ctx payload) (\<lambda>err. err) p w)
      = Returns None"
    by (rule pulsar.resend_recovers [OF assms(2,3)]) (use assms(4,5) in blast)+
  moreover have "fst (resend rqProducer rqClosed (rocket_reconnect rlib) rocket_closed_err
      (\<lambda>h. SendSync rlib h ctx' topic payload) (Wrap ''failed to send message to RocketMQ topic %s: %w'' [FStr topic]) q v) = Returns None"
    by (rule rocket.resend_recovers [OF assms(6) TrueI]) (use assms(7,8) in simp_all)
  ultimately show ?thesis by (simp add: PulsarProducer_Send_eq RocketMQProducer_Send_eq assms(1) assms(9))
qed

text \<open>The witness: a Pulsar producer with a dead handle, and a RocketMQ producer that lost its own.\<close>

theorem reconnecting_send_recovers_witness:
  "fst (PulsarProducer_Send utc (pulsar_broker (\<lambda>h. h > 0)) pulsar_start (\<lambda>_. None) zeroEvent 1) = Returns None \<and>
   fst (RocketMQProducer_Send utc (rocket_broker (\<lambda>h. h > 0)) (rocket_start\<lparr>rqProducer := None\<rparr>) (\<lambda>_. None) zeroEvent 1) =
     Returns None"
  by (rule reconnecting_send_recovers [where payload = zero_text and topic = "''t''"])
    (auto simp: broker_defs pulsar_wf_def pulsar_reconnect_def pulsar_dial_def rocket_reconnect_def
      createAndStartProducer_def Let_def split: option.splits prod.splits if_splits)

text \<open>
  \<open>Close\<close> is final: whatever the producer's state, after it every \<open>Send\<close> of an encodable
  event is refused and leaves the producer and the world alone, a reconnection is refused
  too, and a second \<open>Close\<close> does nothing.
\<close>

lemma closed_producer_refuses:
  assumes "PulsarProducer_Close plib p w = (e, p', w')" and "RocketMQProducer_Close rlib q v = (f, q', v')"
    and "marshal loc event = Inr payload"
  shows "PulsarProducer_Send loc plib p' ctx event w2 = (Returns (Some pulsar_closed_err), p', w2) \<and>
    pulsar_reconnect plib p' w2 = (Some pulsar_closed_err, p', w2) \<and>
    PulsarProducer_Close plib p' w2 = (None, p', w2) \<and>
    RocketMQProducer_Send loc rlib q' ctx' event v2 = (Returns (Some rocket_closed_err), q', v2) \<and>
    rocket_reconnect rlib q' v2 = (Some rocket_closed_err, q', v2) \<and>
    RocketMQProducer_Close rlib q' v2 = (None, q', v2)"
proof -
  have "ppClosed p'" using assms(1) by (auto simp: PulsarProducer_Close_def Let_def split: if_splits)
  moreover have "rqClosed q'"
    using assms(2) by (auto simp: RocketMQProducer_Close_def Let_def split: if_splits option.splits prod.splits)
  ultimately show ?thesis
    by (simp add: PulsarProducer_Send_def RocketMQProducer_Send_def PulsarProducer_Close_def
        RocketMQProducer_Close_def pulsar_reconnect_def rocket_reconnect_def assms(3))
qed

lemma closed_producer_refuses_witness:
  "PulsarProducer_Send utc (pulsar_broker (\<lambda>_. True)) (pulsar_start\<lparr>ppClosed := True\<rparr>) (\<lambda>_. None) zeroEvent 5 =
     (Returns (Some pulsar_closed_err), pulsar_start\<lparr>ppClosed := True\<rparr>, 5)"
  by (rule closed_producer_refuses [where plib = "pulsar_broker (\<lambda>_. True)" and p = pulsar_start
        and w = 1 and e = None and w' = 1 and rlib = "rocket_broker (\<lambda>_. True)" and q = rocket_start
        and v = 1 and f = None and q' = "rocket_start\<lparr>rqClosed := True\<rparr>" and v' = 1 and payload = zero_text,
        THEN conjunct1])
    (simp_all add: PulsarProducer_Close_def RocketMQProducer_Close_def broker_defs)

end
