(* ===== verification/Rabbit_Client.thy ===== *)
theory Rabbit_Client
  imports Producer_Core Decimal
begin

text \<open>
  The client of \<open>queue/producer/rabbit.go\<close>: one connection, its numbered publishes, and the
  dispatcher that ties the broker's answers back to the publishes waiting for them.

  The operations are functions on the client's state; each is one critical section of \<open>c.mu\<close>.
  The system around them, in the second part, is a step relation: any number of publishers, the
  dispatcher goroutine, the reader goroutine of the AMQP library that feeds the three channels,
  and the broker. Of the broker and the library it uses what AMQP documents: messages get the
  delivery tags 1, 2, ... in the order they reach the wire, a tag is confirmed once, and a
  message that is returned is returned before it is confirmed. The number of messages
  published on one connection stays below \<open>2 ^ 64\<close>, so the tags are natural numbers.
\<close>

section \<open>The client\<close>

record amqp_return =
  retMessageId :: string
  retReplyCode :: int
  retReplyText :: string
  retExchange :: string
  retRoutingKey :: string

record amqp_confirmation =
  cfDeliveryTag :: nat
  cfAck :: bool

record amqp_error =
  aeCode :: int
  aeReason :: string

text \<open>
  A waiter is the channel of capacity one a publish waits on; it is named by its publisher.
  The three fed channels are queues with a flag that says the library closed them.
\<close>

record rabbitClient =
  bcHasCh :: bool
  bcChClosed :: bool
  bcCloses :: "amqp_error option list"
  bcReturns :: "amqp_return list"
  bcConfirms :: "amqp_confirmation list"
  bcNotifyClosed :: bool
  bcDone :: bool
  bcSeq :: nat
  bcWaiters :: "nat \<rightharpoonup> nat"
  bcReturned :: "nat \<rightharpoonup> go_error"
  bcDead :: "go_error option"

definition newRabbitClient :: rabbitClient where
  "newRabbitClient =
     \<lparr>bcHasCh = False, bcChClosed = False, bcCloses = [], bcReturns = [], bcConfirms = [],
      bcNotifyClosed = False, bcDone = False, bcSeq = 0, bcWaiters = Map.empty,
      bcReturned = Map.empty, bcDead = None\<rparr>"

definition rabbit_err :: "rabbitClient \<Rightarrow> go_error option" where
  "rabbit_err c =
     (if bcDone c then
        Some (case bcDead c of Some e \<Rightarrow> e | None \<Rightarrow> ErrNew ''the channel is closed'' [])
      else if \<not> bcHasCh c then Some (ErrNew ''the client has no channel'' [])
      else if bcChClosed c then Some (ErrNew ''the channel is closed'' [])
      else None)"

definition unroutable_error :: "amqp_return \<Rightarrow> go_error" where
  "unroutable_error r =
     Wrap ''%w: the broker replied %d %s for the exchange %q and the routing key %q (%s)''
       [FInt (retReplyCode r), FStr (retReplyText r), FStr (retExchange r), FStr (retRoutingKey r),
        FStr ''no queue is bound to that exchange with that key''] ErrUnroutable"

definition markReturned :: "amqp_return \<Rightarrow> rabbitClient \<Rightarrow> rabbitClient" where
  "markReturned r c =
     (case ParseUint (retMessageId r) 64 of
        None \<Rightarrow> c
      | Some tag \<Rightarrow>
          if bcWaiters c tag = None then c
          else c\<lparr>bcReturned := (bcReturned c)(tag \<mapsto> unroutable_error r)\<rparr>)"

text \<open>\<open>drainReturns\<close> as one run, when nothing else touches the channel meanwhile.\<close>

definition drainReturns :: "rabbitClient \<Rightarrow> rabbitClient" where
  "drainReturns c = fold markReturned (bcReturns c) c\<lparr>bcReturns := []\<rparr>"

text \<open>The answer of \<open>settle\<close>, and the waiter it goes to if one is still registered.\<close>

definition settle :: "amqp_confirmation \<Rightarrow> rabbitClient \<Rightarrow> (nat \<times> go_error option) option \<times> rabbitClient" where
  "settle conf c =
     (let tag = cfDeliveryTag conf;
          returned = bcReturned c tag;
          c' = c\<lparr>bcWaiters := (bcWaiters c)(tag := None), bcReturned := (bcReturned c)(tag := None)\<rparr> in
      case bcWaiters c tag of
        None \<Rightarrow> (None, c')
      | Some waiter \<Rightarrow>
          (if returned \<noteq> None then (Some (waiter, returned), c')
           else if \<not> cfAck conf then (Some (waiter, Some (ErrNew ''RabbitMQ rejected the message'' [])), c')
           else (Some (waiter, None), c')))"

text \<open>The critical section of \<open>stop\<close>; the waiters it takes are then told the error one by one.\<close>

definition stop_section :: "go_error \<Rightarrow> rabbitClient \<Rightarrow> (nat \<rightharpoonup> nat) \<times> rabbitClient" where
  "stop_section err c =
     (bcWaiters c, c\<lparr>bcDead := Some err, bcWaiters := Map.empty, bcReturned := Map.empty\<rparr>)"

text \<open>
  The critical section of \<open>publish\<close>: \<open>sent\<close> is what \<open>PublishWithContext\<close> answered, and the result
  is the number the message was given.
\<close>

definition publish_section :: "nat \<Rightarrow> go_error option \<Rightarrow> rabbitClient \<Rightarrow> (go_error + nat) \<times> rabbitClient" where
  "publish_section waiter sent c =
     (case bcDead c of
        Some err \<Rightarrow> (Inl err, c)
      | None \<Rightarrow>
          (let tag = bcSeq c + 1;
               c1 = c\<lparr>bcSeq := tag, bcWaiters := (bcWaiters c)(tag \<mapsto> waiter)\<rparr> in
           case sent of
             Some err \<Rightarrow>
               (Inl (Wrap ''failed to publish to RabbitMQ: %w'' [] err),
                c1\<lparr>bcWaiters := (bcWaiters c1)(tag := None), bcSeq := bcSeq c1 - 1\<rparr>)
           | None \<Rightarrow> (Inr tag, c1)))"

definition publish_MessageId :: "nat \<Rightarrow> string" where
  "publish_MessageId tag = FormatUint tag"

text \<open>
  What the \<open>select\<close> of \<open>dispatch\<close> can take next, and the error it stops with when a channel is
  closed or the broker reports the closure.
\<close>

definition closed_error :: "amqp_error option \<Rightarrow> go_error" where
  "closed_error e =
     (case e of
        None \<Rightarrow> ErrNew ''the channel was closed'' []
      | Some e \<Rightarrow> ErrNew ''the channel was closed by the broker: %d %s'' [FInt (aeCode e), FStr (aeReason e)])"

section \<open>The system\<close>

text \<open>
  A publisher is idle, waiting for the answer to its message, or back with the result of
  \<open>publish\<close>. It publishes once: a retry is another publisher. The dispatcher is at its \<open>select\<close>, in
  \<open>drainReturns\<close> or about to settle a confirmation, releasing the waiters it took in \<open>stop\<close>, or
  gone.
\<close>

datatype pub_pc = PubIdle | PubWaiting nat | PubDone "go_error option"

datatype disp_pc =
    DispSelect
  | DispDrain amqp_confirmation
  | DispSettle amqp_confirmation
  | DispRelease "nat list" go_error
  | DispGone

text \<open>
  \<open>sysAnswers\<close> is what the waiters' channels hold. The rest is the broker's side: how many
  messages reached the wire, which tags it returned and how it confirmed them. \<open>sysTag\<close> remembers
  the number a publisher's message was given.
\<close>

record rabbit_sys =
  sysClient :: rabbitClient
  sysPubs :: "nat \<Rightarrow> pub_pc"
  sysDisp :: disp_pc
  sysAnswers :: "nat \<rightharpoonup> go_error option"
  sysTag :: "nat \<rightharpoonup> nat"
  sysWire :: nat
  sysReturned :: "nat \<Rightarrow> bool"
  sysConfirmed :: "nat \<rightharpoonup> bool"

definition rabbit_start :: rabbit_sys where
  "rabbit_start =
     \<lparr>sysClient = newRabbitClient\<lparr>bcHasCh := True\<rparr>, sysPubs = (\<lambda>_. PubIdle), sysDisp = DispSelect,
      sysAnswers = Map.empty, sysTag = Map.empty, sysWire = 0, sysReturned = (\<lambda>_. False),
      sysConfirmed = Map.empty\<rparr>"

inductive rabbit_step :: "rabbit_sys \<Rightarrow> rabbit_sys \<Rightarrow> bool" where
  pub_refused: "sysPubs s i = PubIdle \<Longrightarrow> rabbit_err (sysClient s) = Some e \<Longrightarrow>
    rabbit_step s (s\<lparr>sysPubs := (sysPubs s)(i := PubDone (Some e))\<rparr>)"
| pub_failed: "sysPubs s i = PubIdle \<Longrightarrow> publish_section i sent (sysClient s) = (Inl e, c') \<Longrightarrow>
    rabbit_step s (s\<lparr>sysPubs := (sysPubs s)(i := PubDone (Some e)), sysClient := c'\<rparr>)"
| pub_sent: "sysPubs s i = PubIdle \<Longrightarrow> sysWire s + 1 < 2 ^ 64 \<Longrightarrow> publish_section i None (sysClient s) = (Inr tag, c') \<Longrightarrow>
    rabbit_step s (s\<lparr>sysPubs := (sysPubs s)(i := PubWaiting tag), sysClient := c',
      sysTag := (sysTag s)(i \<mapsto> tag), sysWire := sysWire s + 1\<rparr>)"
| pub_answer: "sysPubs s i = PubWaiting tag \<Longrightarrow> sysAnswers s i = Some a \<Longrightarrow>
    rabbit_step s (s\<lparr>sysPubs := (sysPubs s)(i := PubDone a), sysAnswers := (sysAnswers s)(i := None)\<rparr>)"
| pub_done: "sysPubs s i = PubWaiting tag \<Longrightarrow> bcDone (sysClient s) \<Longrightarrow>
    rabbit_step s (s\<lparr>sysPubs := (sysPubs s)(i := PubDone (rabbit_err (sysClient s)))\<rparr>)"
| pub_canceled: "sysPubs s i = PubWaiting tag \<Longrightarrow>
    rabbit_step s (s\<lparr>sysPubs := (sysPubs s)(i :=
      PubDone (Some (Wrap ''waiting for the publisher confirmation: %w'' [] e)))\<rparr>)"
| broker_return: "1 \<le> t \<Longrightarrow> t \<le> sysWire s \<Longrightarrow> \<not> sysReturned s t \<Longrightarrow> sysConfirmed s t = None \<Longrightarrow>
    retMessageId r = publish_MessageId t \<Longrightarrow>
    rabbit_step s (s\<lparr>sysClient := (sysClient s)\<lparr>bcReturns := bcReturns (sysClient s) @ [r]\<rparr>,
      sysReturned := (sysReturned s)(t := True)\<rparr>)"
| broker_confirm: "1 \<le> t \<Longrightarrow> t \<le> sysWire s \<Longrightarrow> sysConfirmed s t = None \<Longrightarrow>
    rabbit_step s (s\<lparr>sysClient := (sysClient s)\<lparr>bcConfirms := bcConfirms (sysClient s)
        @ [\<lparr>cfDeliveryTag = t, cfAck = ack\<rparr>]\<rparr>,
      sysConfirmed := (sysConfirmed s)(t \<mapsto> ack)\<rparr>)"
| foreign_return: "ParseUint (retMessageId r) 64 = None \<Longrightarrow>
    rabbit_step s (s\<lparr>sysClient := (sysClient s)\<lparr>bcReturns := bcReturns (sysClient s) @ [r]\<rparr>\<rparr>)"
| broker_close: "rabbit_step s (s\<lparr>sysClient := (sysClient s)\<lparr>bcChClosed := True,
      bcCloses := bcCloses (sysClient s) @ [e]\<rparr>\<rparr>)"
| notify_closed: "rabbit_step s (s\<lparr>sysClient := (sysClient s)\<lparr>bcChClosed := True, bcNotifyClosed := True\<rparr>\<rparr>)"
| disp_return: "sysDisp s = DispSelect \<Longrightarrow> bcReturns (sysClient s) = r # rs \<Longrightarrow>
    rabbit_step s (s\<lparr>sysClient := markReturned r ((sysClient s)\<lparr>bcReturns := rs\<rparr>)\<rparr>)"
| disp_confirm: "sysDisp s = DispSelect \<Longrightarrow> bcConfirms (sysClient s) = conf # confs \<Longrightarrow>
    rabbit_step s (s\<lparr>sysClient := (sysClient s)\<lparr>bcConfirms := confs\<rparr>, sysDisp := DispDrain conf\<rparr>)"
| disp_drain: "sysDisp s = DispDrain conf \<Longrightarrow> bcReturns (sysClient s) = r # rs \<Longrightarrow>
    rabbit_step s (s\<lparr>sysClient := markReturned r ((sysClient s)\<lparr>bcReturns := rs\<rparr>)\<rparr>)"
| disp_drained: "sysDisp s = DispDrain conf \<Longrightarrow> bcReturns (sysClient s) = [] \<Longrightarrow>
    rabbit_step s (s\<lparr>sysDisp := DispSettle conf\<rparr>)"
| disp_settle: "sysDisp s = DispSettle conf \<Longrightarrow> settle conf (sysClient s) = (answer, c') \<Longrightarrow>
    rabbit_step s (s\<lparr>sysClient := c', sysDisp := DispSelect,
      sysAnswers := (case answer of None \<Rightarrow> sysAnswers s | Some (i, a) \<Rightarrow> (sysAnswers s)(i \<mapsto> a))\<rparr>)"
| disp_stop: "sysDisp s = DispSelect \<Longrightarrow> bcCloses (sysClient s) = e # es \<or>
      bcNotifyClosed (sysClient s) \<and> e = None \<and>
        (bcReturns (sysClient s) = [] \<or> bcConfirms (sysClient s) = [] \<or> bcCloses (sysClient s) = []) \<Longrightarrow>
    stop_section (closed_error e) (sysClient s) = (taken, c') \<Longrightarrow> distinct ws \<Longrightarrow> set ws = ran taken \<Longrightarrow>
    rabbit_step s (s\<lparr>sysClient := c', sysDisp := DispRelease ws (closed_error e)\<rparr>)"
| disp_release: "sysDisp s = DispRelease (i # ws) e \<Longrightarrow>
    rabbit_step s (s\<lparr>sysDisp := DispRelease ws e, sysAnswers := (sysAnswers s)(i \<mapsto> Some e)\<rparr>)"
| disp_gone: "sysDisp s = DispRelease [] e \<Longrightarrow>
    rabbit_step s (s\<lparr>sysDisp := DispGone, sysClient := (sysClient s)\<lparr>bcDone := True\<rparr>\<rparr>)"

section \<open>The operations on the client's state\<close>

lemma markReturned_fields [simp]:
  "bcWaiters (markReturned r c) = bcWaiters c" "bcReturns (markReturned r c) = bcReturns c"
  "bcConfirms (markReturned r c) = bcConfirms c" "bcCloses (markReturned r c) = bcCloses c"
  "bcDone (markReturned r c) = bcDone c" "bcDead (markReturned r c) = bcDead c"
  "bcSeq (markReturned r c) = bcSeq c" "bcNotifyClosed (markReturned r c) = bcNotifyClosed c"
  by (simp_all add: markReturned_def split: option.split)

lemma markReturned_returned [simp]:
  "bcReturned (markReturned r c) t =
     (if ParseUint (retMessageId r) 64 = Some t \<and> bcWaiters c t \<noteq> None then Some (unroutable_error r)
      else bcReturned c t)"
  by (auto simp: markReturned_def split: option.split)

lemma unroutable_error_Is [simp]: "errors_Is (unroutable_error r) ErrUnroutable"
  by (simp add: unroutable_error_def)

lemma publish_section_Inr:
  "publish_section i sent c = (Inr tag, c') \<longleftrightarrow>
     bcDead c = None \<and> sent = None \<and> tag = bcSeq c + 1 \<and>
     c' = c\<lparr>bcSeq := bcSeq c + 1, bcWaiters := (bcWaiters c)(bcSeq c + 1 \<mapsto> i)\<rparr>"
  by (auto simp: publish_section_def Let_def split: option.splits)

lemma publish_section_Inl:
  assumes "publish_section i sent c = (Inl e, c')" and "bcWaiters c (bcSeq c + 1) = None"
  shows "c' = c"
proof -
  have "(bcWaiters c)(Suc (bcSeq c) := None) = bcWaiters c" using assms(2) by (simp add: fun_upd_idem)
  then show ?thesis using assms(1) by (auto simp: publish_section_def Let_def split: option.splits)
qed

lemma settle_client [simp]:
  "snd (settle conf c) = c\<lparr>bcWaiters := (bcWaiters c)(cfDeliveryTag conf := None),
     bcReturned := (bcReturned c)(cfDeliveryTag conf := None)\<rparr>"
  by (simp add: settle_def Let_def split: option.split)

lemma settle_answer:
  "fst (settle conf c) =
     map_option (\<lambda>i. (i,
       case bcReturned c (cfDeliveryTag conf) of
         Some e \<Rightarrow> Some e
       | None \<Rightarrow> if cfAck conf then None else Some (ErrNew ''RabbitMQ rejected the message'' [])))
     (bcWaiters c (cfDeliveryTag conf))"
  by (auto simp: settle_def Let_def split: option.split)

section \<open>The invariant\<close>

text \<open>What the broker decided about the message \<open>t\<close>, and the answer that tells it.\<close>

definition verdict :: "rabbit_sys \<Rightarrow> nat \<Rightarrow> go_error option \<Rightarrow> bool" where
  "verdict s t a \<longleftrightarrow>
     (\<exists>ack. sysConfirmed s t = Some ack \<and>
        (if sysReturned s t then \<exists>e. a = Some e \<and> errors_Is e ErrUnroutable
         else a = (if ack then None else Some (ErrNew ''RabbitMQ rejected the message'' []))))"

fun in_hand :: "disp_pc \<Rightarrow> amqp_confirmation option" where
  "in_hand (DispDrain conf) = Some conf"
| "in_hand (DispSettle conf) = Some conf"
| "in_hand _ = None"

fun releasing :: "disp_pc \<Rightarrow> nat list" where
  "releasing (DispRelease ws e) = ws"
| "releasing _ = []"

fun stopping :: "disp_pc \<Rightarrow> bool" where
  "stopping (DispRelease ws e) = True"
| "stopping DispGone = True"
| "stopping _ = False"

text \<open>The numbers: the client's stays in step with the broker's, and no two messages share one.\<close>

definition inv_tags :: "rabbit_sys \<Rightarrow> bool" where
  "inv_tags s \<longleftrightarrow>
     bcSeq (sysClient s) = sysWire s \<and> sysWire s < 2 ^ 64 \<and>
     (\<forall>i t. sysTag s i = Some t \<longrightarrow> 1 \<le> t \<and> t \<le> sysWire s) \<and>
     (\<forall>i j t. sysTag s i = Some t \<longrightarrow> sysTag s j = Some t \<longrightarrow> i = j) \<and>
     (\<forall>i. sysPubs s i = PubIdle \<longrightarrow> sysTag s i = None) \<and>
     (\<forall>i t. sysPubs s i = PubWaiting t \<longrightarrow> sysTag s i = Some t)"

text \<open>
  The waiters: a registered one has its own number and an empty channel, those being released
  are unregistered with empty channels, and none is registered once the client is dead.
\<close>

definition inv_waiters :: "rabbit_sys \<Rightarrow> bool" where
  "inv_waiters s \<longleftrightarrow>
     (\<forall>t i. bcWaiters (sysClient s) t = Some i \<longrightarrow> sysTag s i = Some t \<and> sysAnswers s i = None) \<and>
     (\<forall>i. sysAnswers s i \<noteq> None \<longrightarrow> sysTag s i \<noteq> None) \<and>
     distinct (releasing (sysDisp s)) \<and>
     (\<forall>i \<in> set (releasing (sysDisp s)). sysTag s i \<noteq> None \<and> sysAnswers s i = None) \<and>
     (stopping (sysDisp s) \<longleftrightarrow> bcDead (sysClient s) \<noteq> None) \<and>
     (\<forall>ws e. sysDisp s = DispRelease ws e \<longrightarrow> bcDead (sysClient s) = Some e) \<and>
     (stopping (sysDisp s) \<longrightarrow> bcWaiters (sysClient s) = Map.empty)"

text \<open>The returns: one that concerns a registered waiter is recorded or still in the queue.\<close>

definition inv_returns :: "rabbit_sys \<Rightarrow> bool" where
  "inv_returns s \<longleftrightarrow>
     (\<forall>t. sysReturned s t \<longrightarrow> t \<le> sysWire s) \<and>
     (\<forall>t. sysReturned s t \<longrightarrow> bcWaiters (sysClient s) t \<noteq> None \<longrightarrow>
        bcReturned (sysClient s) t \<noteq> None \<or>
        (\<exists>r \<in> set (bcReturns (sysClient s)). ParseUint (retMessageId r) 64 = Some t)) \<and>
     (\<forall>t e. bcReturned (sysClient s) t = Some e \<longrightarrow> errors_Is e ErrUnroutable \<and> sysReturned s t) \<and>
     (\<forall>r \<in> set (bcReturns (sysClient s)). \<forall>t. ParseUint (retMessageId r) 64 = Some t \<longrightarrow> sysReturned s t) \<and>
     (\<forall>conf. conf \<in> set (bcConfirms (sysClient s)) \<or> in_hand (sysDisp s) = Some conf \<longrightarrow>
        sysConfirmed s (cfDeliveryTag conf) = Some (cfAck conf)) \<and>
     (\<forall>conf. sysDisp s = DispSettle conf \<longrightarrow>
        (\<forall>r \<in> set (bcReturns (sysClient s)). ParseUint (retMessageId r) 64 \<noteq> Some (cfDeliveryTag conf)))"

text \<open>
  The answers: each is the broker's verdict or the reason the client died, a nil result is the
  verdict, and a publisher that still waits is registered, answered or about to be released.
\<close>

definition inv_answers :: "rabbit_sys \<Rightarrow> bool" where
  "inv_answers s \<longleftrightarrow>
     (\<forall>i a t. sysAnswers s i = Some a \<longrightarrow> sysTag s i = Some t \<longrightarrow>
        verdict s t a \<or> a \<noteq> None \<and> bcDead (sysClient s) = a) \<and>
     (\<forall>i. sysPubs s i = PubDone None \<longrightarrow> (\<exists>t. sysTag s i = Some t \<and> verdict s t None)) \<and>
     (\<forall>i t. sysPubs s i = PubWaiting t \<longrightarrow>
        bcWaiters (sysClient s) t = Some i \<or> sysAnswers s i \<noteq> None \<or> i \<in> set (releasing (sysDisp s)))"

definition rabbit_inv :: "rabbit_sys \<Rightarrow> bool" where
  "rabbit_inv s \<longleftrightarrow> inv_tags s \<and> inv_waiters s \<and> inv_returns s \<and> inv_answers s"

lemma rabbit_inv_start: "rabbit_inv rabbit_start"
  by (simp add: rabbit_inv_def inv_tags_def inv_waiters_def inv_returns_def inv_answers_def
      rabbit_start_def newRabbitClient_def)

lemma inv_no_next_waiter:
  "inv_tags s \<Longrightarrow> inv_waiters s \<Longrightarrow> bcWaiters (sysClient s) (bcSeq (sysClient s) + 1) = None"
  unfolding inv_tags_def inv_waiters_def by (metis Suc_eq_plus1 not_less_eq_eq not_None_eq le_refl)

lemma pub_failed_client:
  "inv_tags s \<Longrightarrow> inv_waiters s \<Longrightarrow> publish_section i sent (sysClient s) = (Inl e, c') \<Longrightarrow> c' = sysClient s"
  by (rule publish_section_Inl) (simp_all add: inv_no_next_waiter [simplified])

lemma step_inv_tags: "rabbit_step s s' \<Longrightarrow> inv_tags s \<Longrightarrow> inv_waiters s \<Longrightarrow> inv_tags s'"
proof (induction rule: rabbit_step.induct)
  case (pub_failed s i sent e c')
  then have "c' = sysClient s" by (intro pub_failed_client)
  with pub_failed show ?case by (auto simp: inv_tags_def split: if_splits)
next
  case (pub_sent s i tag c')
  then have fresh: "sysTag s j \<noteq> Some (Suc (sysWire s))" for j
    by (auto simp: inv_tags_def) (metis Suc_n_not_le_n)
  from pub_sent show ?case
    by (auto simp: inv_tags_def publish_section_Inr fresh le_Suc_eq split: if_splits)
next
  case (disp_settle s conf answer c')
  then have "c' = snd (settle conf (sysClient s))" by simp
  with disp_settle show ?case by (auto simp: inv_tags_def)
next
  case (disp_stop s e es taken c' ws)
  then show ?case by (auto simp: inv_tags_def stop_section_def)
qed (auto simp: inv_tags_def split: if_splits)

lemma inv_waiters_sent:
  assumes inv: "inv_tags s" "inv_waiters s" "inv_answers s" and idle: "sysPubs s i = PubIdle"
    and sent: "publish_section i None (sysClient s) = (Inr tag, c')"
  shows "sysTag s i = None" and "sysAnswers s i = None" and "\<And>t. bcWaiters (sysClient s) t \<noteq> Some i"
    and "i \<notin> set (releasing (sysDisp s))" and "\<not> stopping (sysDisp s)"
proof -
  show tag: "sysTag s i = None" using inv(1) idle by (simp add: inv_tags_def)
  show "sysAnswers s i = None" using inv(2) tag by (auto simp: inv_waiters_def)
  show "bcWaiters (sysClient s) t \<noteq> Some i" for t using inv(2) tag by (fastforce simp: inv_waiters_def)
  show "i \<notin> set (releasing (sysDisp s))" using inv(2) tag by (auto simp: inv_waiters_def)
  show "\<not> stopping (sysDisp s)" using inv(2) sent by (auto simp: inv_waiters_def publish_section_Inr)
qed

lemma step_inv_waiters:
  "rabbit_step s s' \<Longrightarrow> inv_tags s \<Longrightarrow> inv_waiters s \<Longrightarrow> inv_answers s \<Longrightarrow> inv_waiters s'"
proof (induction rule: rabbit_step.induct)
  case (pub_failed s i sent e c')
  then have "c' = sysClient s" by (intro pub_failed_client)
  with pub_failed show ?case by (auto simp: inv_waiters_def)
next
  case (pub_sent s i tag c')
  note fresh = inv_waiters_sent [OF pub_sent.prems pub_sent.hyps(1,3)]
  have "releasing (sysDisp s) = []" using fresh(5) by (cases "sysDisp s") auto
  with pub_sent fresh show ?case
    by (auto simp: inv_waiters_def publish_section_Inr split: if_splits)
next
  case (disp_settle s conf answer c')
  have c': "c' = snd (settle conf (sysClient s))" and a: "answer = fst (settle conf (sysClient s))"
    using disp_settle.hyps by simp_all
  have other: "bcWaiters (sysClient s) t = Some i \<Longrightarrow> bcWaiters (sysClient s) u = Some i \<Longrightarrow> t = u" for t u i
    using disp_settle.prems(2) unfolding inv_waiters_def by (metis option.inject)
  show ?case
    using disp_settle.prems disp_settle.hyps(1) unfolding c' a settle_answer settle_client
    by (auto simp: inv_waiters_def split: option.splits if_splits dest: other)
next
  case (disp_stop s e es taken c' ws)
  then show ?case by (auto simp: inv_waiters_def stop_section_def ran_def)
qed (auto simp: inv_waiters_def split: if_splits)

lemma step_inv_returns:
  "rabbit_step s s' \<Longrightarrow> inv_tags s \<Longrightarrow> inv_waiters s \<Longrightarrow> inv_returns s \<Longrightarrow> inv_returns s'"
proof (induction rule: rabbit_step.induct)
  case (pub_failed s i sent e c')
  then have "c' = sysClient s" by (intro pub_failed_client)
  with pub_failed show ?case by (simp add: inv_returns_def)
next
  case (pub_sent s i tag c')
  then have "\<not> sysReturned s (Suc (sysWire s))" by (auto simp: inv_returns_def)
  with pub_sent show ?case by (auto simp: inv_returns_def inv_tags_def publish_section_Inr)
next
  case (broker_return t s r)
  then show ?case
    by (auto simp: inv_returns_def inv_tags_def publish_MessageId_def)
next
  case (disp_settle s conf answer c')
  have c': "c' = snd (settle conf (sysClient s))" using disp_settle.hyps by simp
  show ?case
    using disp_settle.prems disp_settle.hyps(1) unfolding c' settle_client
    by (auto simp: inv_returns_def split: option.splits if_splits)
next
  case (disp_stop s e es taken c' ws)
  then show ?case by (auto simp: inv_returns_def stop_section_def)
qed (auto simp: inv_returns_def split: if_splits)

lemma step_verdict: "rabbit_step s s' \<Longrightarrow> verdict s t a \<Longrightarrow> verdict s' t a"
  by (induction rule: rabbit_step.induct) (auto simp: verdict_def split: if_splits)

lemma step_tag: "rabbit_step s s' \<Longrightarrow> inv_tags s \<Longrightarrow> sysTag s i = Some t \<Longrightarrow> sysTag s' i = Some t"
  by (induction rule: rabbit_step.induct) (auto simp: inv_tags_def split: if_splits)

lemma step_dead:
  "rabbit_step s s' \<Longrightarrow> inv_tags s \<Longrightarrow> inv_waiters s \<Longrightarrow> bcDead (sysClient s) = Some d \<Longrightarrow>
   bcDead (sysClient s') = Some d"
proof (induction rule: rabbit_step.induct)
  case (pub_failed s i sent e c')
  then have "c' = sysClient s" by (intro pub_failed_client)
  with pub_failed show ?case by simp
next
  case (disp_settle s conf answer c')
  then have "c' = snd (settle conf (sysClient s))" by simp
  with disp_settle show ?case by simp
next
  case (disp_stop s e es taken c' ws)
  then show ?case by (auto simp: inv_waiters_def)
qed (auto simp: publish_section_Inr)

text \<open>What settling a confirmation tells its waiter is the broker's verdict.\<close>

lemma settle_verdict:
  assumes inv: "inv_tags s" "inv_waiters s" "inv_returns s" and disp: "sysDisp s = DispSettle conf"
    and answer: "fst (settle conf (sysClient s)) = Some (i, a)"
  shows "sysTag s i = Some (cfDeliveryTag conf) \<and> verdict s (cfDeliveryTag conf) a"
proof -
  let ?t = "cfDeliveryTag conf" and ?c = "sysClient s"
  have w: "bcWaiters ?c ?t = Some i"
    and a: "a = (case bcReturned ?c ?t of Some e \<Rightarrow> Some e
       | None \<Rightarrow> if cfAck conf then None else Some (ErrNew ''RabbitMQ rejected the message'' []))"
    using answer by (auto simp: settle_answer)
  have conf: "sysConfirmed s ?t = Some (cfAck conf)" using inv(3) disp by (auto simp: inv_returns_def)
  have marked: "sysReturned s ?t \<longleftrightarrow> bcReturned ?c ?t \<noteq> None" and
    kind: "\<And>e. bcReturned ?c ?t = Some e \<Longrightarrow> errors_Is e ErrUnroutable"
    using inv(3) disp w by (auto simp: inv_returns_def)
  have "sysTag s i = Some ?t" using inv(2) w by (auto simp: inv_waiters_def)
  with a conf marked kind show ?thesis by (auto simp: verdict_def split: option.splits)
qed

lemma verdict_answer_dead:
  "verdict s t a \<or> a \<noteq> None \<and> bcDead (sysClient s) = a \<Longrightarrow> rabbit_step s s' \<Longrightarrow> inv_tags s \<Longrightarrow>
   inv_waiters s \<Longrightarrow> verdict s' t a \<or> a \<noteq> None \<and> bcDead (sysClient s') = a"
  by (auto dest: step_verdict step_dead)

definition answers_true :: "rabbit_sys \<Rightarrow> bool" where
  "answers_true s \<longleftrightarrow>
     (\<forall>i a t. sysAnswers s i = Some a \<longrightarrow> sysTag s i = Some t \<longrightarrow>
        verdict s t a \<or> a \<noteq> None \<and> bcDead (sysClient s) = a)"

definition nil_true :: "rabbit_sys \<Rightarrow> bool" where
  "nil_true s \<longleftrightarrow> (\<forall>i. sysPubs s i = PubDone None \<longrightarrow> (\<exists>t. sysTag s i = Some t \<and> verdict s t None))"

definition no_lost_wakeup :: "rabbit_sys \<Rightarrow> bool" where
  "no_lost_wakeup s \<longleftrightarrow>
     (\<forall>i t. sysPubs s i = PubWaiting t \<longrightarrow>
        bcWaiters (sysClient s) t = Some i \<or> sysAnswers s i \<noteq> None \<or> i \<in> set (releasing (sysDisp s)))"

lemma inv_answers_parts: "inv_answers s \<longleftrightarrow> answers_true s \<and> nil_true s \<and> no_lost_wakeup s"
  by (simp add: inv_answers_def answers_true_def nil_true_def no_lost_wakeup_def)

text \<open>An answer of the next state is an old one, the settled one or the released error.\<close>

lemma step_new_answer:
  assumes "rabbit_step s s'" and "rabbit_inv s" and "sysAnswers s' i = Some a" and "sysAnswers s i \<noteq> Some a"
  shows "(\<exists>conf. sysDisp s = DispSettle conf \<and> fst (settle conf (sysClient s)) = Some (i, a)) \<or>
    a \<noteq> None \<and> bcDead (sysClient s) = a"
  using assms
proof (induction rule: rabbit_step.induct)
  case (disp_settle s conf answer c')
  then show ?case by (auto split: option.splits if_splits)
next
  case (disp_release s j ws e)
  then have "bcDead (sysClient s) = Some e" by (simp add: rabbit_inv_def inv_waiters_def)
  moreover have "a = Some e" using disp_release.prems by (auto split: if_splits)
  ultimately show ?case by simp
qed (auto split: if_splits)

lemma step_answers_true: "rabbit_step s s' \<Longrightarrow> rabbit_inv s \<Longrightarrow> answers_true s'"
  unfolding answers_true_def
proof (intro allI impI)
  fix i a t
  assume step: "rabbit_step s s'" and inv: "rabbit_inv s"
    and a: "sysAnswers s' i = Some a" and t: "sysTag s' i = Some t"
  have parts: "inv_tags s" "inv_waiters s" "inv_returns s" "answers_true s"
    using inv by (simp_all add: rabbit_inv_def inv_answers_parts)
  have tag: "u = t" if "sysTag s i = Some u" for u using step_tag [OF step parts(1) that] t by simp
  show "verdict s' t a \<or> a \<noteq> None \<and> bcDead (sysClient s') = a"
  proof (cases "sysAnswers s i = Some a")
    case True
    then obtain u where "sysTag s i = Some u" using parts(2) by (auto simp: inv_waiters_def)
    with True tag parts(4) have "verdict s t a \<or> a \<noteq> None \<and> bcDead (sysClient s) = a"
      by (auto simp: answers_true_def)
    then show ?thesis by (rule verdict_answer_dead [OF _ step parts(1,2)])
  next
    case False
    from step_new_answer [OF step inv a False] show ?thesis
    proof
      assume "\<exists>conf. sysDisp s = DispSettle conf \<and> fst (settle conf (sysClient s)) = Some (i, a)"
      then have "verdict s t a" using settle_verdict [OF parts(1-3)] tag by blast
      then show ?thesis using step_verdict [OF step] by blast
    next
      assume "a \<noteq> None \<and> bcDead (sysClient s) = a"
      then show ?thesis using step_dead [OF step parts(1,2)] by auto
    qed
  qed
qed

lemma rabbit_err_done [simp]: "bcDone c \<Longrightarrow> rabbit_err c \<noteq> None"
  by (simp add: rabbit_err_def)

lemma step_new_nil:
  "rabbit_step s s' \<Longrightarrow> sysPubs s' i = PubDone None \<Longrightarrow> sysPubs s i \<noteq> PubDone None \<Longrightarrow>
   \<exists>t. sysPubs s i = PubWaiting t \<and> sysAnswers s i = Some None"
  by (induction rule: rabbit_step.induct) (auto split: if_splits)

lemma step_nil_true: "rabbit_step s s' \<Longrightarrow> rabbit_inv s \<Longrightarrow> nil_true s'"
  unfolding nil_true_def
proof (intro allI impI)
  fix i
  assume step: "rabbit_step s s'" and inv: "rabbit_inv s" and nil: "sysPubs s' i = PubDone None"
  have parts: "inv_tags s" "answers_true s" "nil_true s"
    using inv by (simp_all add: rabbit_inv_def inv_answers_parts)
  have "\<exists>t. sysTag s i = Some t \<and> verdict s t None"
  proof (cases "sysPubs s i = PubDone None")
    case True
    with parts(3) show ?thesis by (simp add: nil_true_def)
  next
    case False
    obtain t where "sysPubs s i = PubWaiting t" "sysAnswers s i = Some None"
      using step_new_nil [OF step nil False] by blast
    with parts show ?thesis by (fastforce simp: inv_tags_def answers_true_def)
  qed
  then show "\<exists>t. sysTag s' i = Some t \<and> verdict s' t None"
    using step_tag [OF step parts(1)] step_verdict [OF step] by blast
qed

lemma step_no_lost_wakeup: "rabbit_step s s' \<Longrightarrow> rabbit_inv s \<Longrightarrow> no_lost_wakeup s'"
proof (induction rule: rabbit_step.induct)
  case (pub_failed s i sent e c')
  then have "c' = sysClient s" by (intro pub_failed_client) (simp_all add: rabbit_inv_def)
  with pub_failed show ?case by (auto simp: rabbit_inv_def inv_answers_parts no_lost_wakeup_def split: if_splits)
next
  case (pub_sent s i tag c')
  have "sysPubs s j = PubWaiting (Suc (sysWire s)) \<Longrightarrow> False" for j
    using pub_sent.prems by (fastforce simp: rabbit_inv_def inv_tags_def)
  with pub_sent show ?case
    by (auto simp: rabbit_inv_def inv_tags_def inv_answers_parts no_lost_wakeup_def publish_section_Inr split: if_splits)
next
  case (disp_settle s conf answer c')
  have c': "c' = snd (settle conf (sysClient s))" and a: "answer = fst (settle conf (sysClient s))"
    using disp_settle.hyps by simp_all
  show ?case
    using disp_settle.prems disp_settle.hyps(1) unfolding c' a settle_client settle_answer
    by (fastforce simp: rabbit_inv_def inv_answers_parts no_lost_wakeup_def split: option.splits if_splits)
next
  case (disp_stop s e es taken c' ws)
  then show ?case
    by (fastforce simp: rabbit_inv_def inv_answers_parts no_lost_wakeup_def stop_section_def ran_def)
qed (auto simp: rabbit_inv_def inv_answers_parts no_lost_wakeup_def split: if_splits)

lemma step_rabbit_inv: "rabbit_step s s' \<Longrightarrow> rabbit_inv s \<Longrightarrow> rabbit_inv s'"
  using step_inv_tags step_inv_waiters step_inv_returns step_answers_true step_nil_true step_no_lost_wakeup
  by (simp add: rabbit_inv_def inv_answers_parts)

lemma rabbit_reachable_inv: "rabbit_step\<^sup>*\<^sup>* rabbit_start s \<Longrightarrow> rabbit_inv s"
  by (erule rtranclp_invariant, rule rabbit_inv_start, rule step_rabbit_inv)

text \<open>
  Why the client died: the dispatcher stops for a close the broker reported, which stays in the
  queue since nothing reads it again, or because the library closed the channels.
\<close>

definition dead_cause :: "rabbit_sys \<Rightarrow> bool" where
  "dead_cause s \<longleftrightarrow>
     (\<forall>d. bcDead (sysClient s) = Some d \<longrightarrow>
        (\<exists>e. d = closed_error e \<and>
           (e \<in> set (bcCloses (sysClient s)) \<or> e = None \<and> bcNotifyClosed (sysClient s))))"

lemma step_dead_cause: "rabbit_step s s' \<Longrightarrow> rabbit_inv s \<Longrightarrow> dead_cause s \<Longrightarrow> dead_cause s'"
proof (induction rule: rabbit_step.induct)
  case (pub_failed s i sent e c')
  then have "c' = sysClient s" by (intro pub_failed_client) (simp_all add: rabbit_inv_def)
  with pub_failed show ?case by (simp add: dead_cause_def)
next
  case (disp_settle s conf answer c')
  then have "c' = snd (settle conf (sysClient s))" by simp
  with disp_settle show ?case by (simp add: dead_cause_def)
next
  case (disp_stop s e es taken c' ws)
  have "e \<in> set (bcCloses (sysClient s)) \<or> e = None \<and> bcNotifyClosed (sysClient s)"
    using disp_stop.hyps(2) by auto
  with disp_stop.hyps(3) show ?case by (auto simp: dead_cause_def stop_section_def)
qed (auto simp: dead_cause_def publish_section_Inr)

lemma rabbit_reachable_cause:
  assumes "rabbit_step\<^sup>*\<^sup>* rabbit_start s" shows "dead_cause s"
proof -
  have "rabbit_inv rabbit_start \<and> dead_cause rabbit_start"
    by (simp add: rabbit_inv_start dead_cause_def) (simp add: rabbit_start_def newRabbitClient_def)
  from rtranclp_invariant [where I = "\<lambda>s. rabbit_inv s \<and> dead_cause s", OF assms this] show ?thesis
    by (auto intro: step_rabbit_inv step_dead_cause)
qed

section \<open>A run of the system\<close>

text \<open>
  One publish, confirmed and answered; the states are named so that the witnesses can look into
  the run at the point they need.
\<close>

definition run1 :: rabbit_sys where
  "run1 = rabbit_start\<lparr>sysPubs := (sysPubs rabbit_start)(0 := PubWaiting 1),
     sysClient := (sysClient rabbit_start)\<lparr>bcSeq := 1, bcWaiters := [1 \<mapsto> 0]\<rparr>,
     sysTag := (sysTag rabbit_start)(0 \<mapsto> 1), sysWire := sysWire rabbit_start + 1\<rparr>"

definition run2 :: rabbit_sys where
  "run2 = run1\<lparr>sysClient := (sysClient run1)\<lparr>bcConfirms := bcConfirms (sysClient run1)
        @ [\<lparr>cfDeliveryTag = 1, cfAck = True\<rparr>]\<rparr>,
      sysConfirmed := (sysConfirmed run1)(1 \<mapsto> True)\<rparr>"

definition run3 :: rabbit_sys where
  "run3 = run2\<lparr>sysClient := (sysClient run2)\<lparr>bcConfirms := []\<rparr>,
     sysDisp := DispDrain \<lparr>cfDeliveryTag = 1, cfAck = True\<rparr>\<rparr>"

definition run4 :: rabbit_sys where
  "run4 = run3\<lparr>sysDisp := DispSettle \<lparr>cfDeliveryTag = 1, cfAck = True\<rparr>\<rparr>"

definition run5 :: rabbit_sys where
  "run5 = run4\<lparr>sysClient := snd (settle \<lparr>cfDeliveryTag = 1, cfAck = True\<rparr> (sysClient run4)),
     sysDisp := DispSelect, sysAnswers := (sysAnswers run4)(0 \<mapsto> None)\<rparr>"

definition run6 :: rabbit_sys where
  "run6 = run5\<lparr>sysPubs := (sysPubs run5)(0 := PubDone None), sysAnswers := (sysAnswers run5)(0 := None)\<rparr>"

text \<open>The other end of the same publish: the broker closes the channel before it confirms.\<close>

definition run_closed :: rabbit_sys where
  "run_closed = run1\<lparr>sysClient := (sysClient run1)\<lparr>bcChClosed := True,
     bcCloses := bcCloses (sysClient run1) @ [Some \<lparr>aeCode = 320, aeReason = ''CONNECTION_FORCED''\<rparr>]\<rparr>\<rparr>"

definition run_stopped :: rabbit_sys where
  "run_stopped = run_closed\<lparr>
     sysClient := snd (stop_section (closed_error (Some \<lparr>aeCode = 320, aeReason = ''CONNECTION_FORCED''\<rparr>))
       (sysClient run_closed)),
     sysDisp := DispRelease [0] (closed_error (Some \<lparr>aeCode = 320, aeReason = ''CONNECTION_FORCED''\<rparr>))\<rparr>"

definition run_released :: rabbit_sys where
  "run_released = run_stopped\<lparr>
     sysDisp := DispRelease [] (closed_error (Some \<lparr>aeCode = 320, aeReason = ''CONNECTION_FORCED''\<rparr>)),
     sysAnswers := (sysAnswers run_stopped)(0 \<mapsto>
       Some (closed_error (Some \<lparr>aeCode = 320, aeReason = ''CONNECTION_FORCED''\<rparr>)))\<rparr>"

lemmas run_defs = run1_def run2_def run3_def run4_def run5_def run6_def run_closed_def run_stopped_def
  run_released_def rabbit_start_def newRabbitClient_def

lemma run1: "rabbit_step rabbit_start run1"
  unfolding run1_def by (rule pub_sent) (simp_all add: publish_section_Inr rabbit_start_def newRabbitClient_def)

lemma run2: "rabbit_step run1 run2"
  unfolding run2_def by (rule broker_confirm) (simp_all add: run_defs)

lemma run3: "rabbit_step run2 run3"
  unfolding run3_def by (rule disp_confirm) (simp_all add: run_defs)

lemma run4: "rabbit_step run3 run4"
  unfolding run4_def by (rule disp_drained) (simp_all add: run_defs)

lemma run5: "rabbit_step run4 run5"
proof -
  let ?conf = "\<lparr>cfDeliveryTag = 1, cfAck = True\<rparr> :: amqp_confirmation"
  have "settle ?conf (sysClient run4) = (Some (0, None), snd (settle ?conf (sysClient run4)))"
    by (rule prod_eqI) (simp_all add: settle_answer run_defs)
  then have "rabbit_step run4 (run4\<lparr>sysClient := snd (settle ?conf (sysClient run4)), sysDisp := DispSelect,
      sysAnswers := (case Some (0, None) of None \<Rightarrow> sysAnswers run4 | Some (i, a) \<Rightarrow> (sysAnswers run4)(i \<mapsto> a))\<rparr>)"
    by (rule disp_settle [rotated]) (simp add: run_defs)
  then show ?thesis by (simp add: run5_def)
qed

lemma run6: "rabbit_step run5 run6"
  unfolding run6_def by (rule pub_answer) (simp_all add: run_defs)

lemma run_reach:
  "rabbit_step\<^sup>*\<^sup>* rabbit_start run4" "rabbit_step\<^sup>*\<^sup>* rabbit_start run5" "rabbit_step\<^sup>*\<^sup>* rabbit_start run6"
  using run1 run2 run3 run4 run5 run6 by (meson rtranclp.rtrancl_refl rtranclp.rtrancl_into_rtrancl)+

lemma run_closed: "rabbit_step run1 run_closed"
  unfolding run_closed_def by (rule broker_close)

lemma run_stopped: "rabbit_step run_closed run_stopped"
  unfolding run_stopped_def
proof (rule disp_stop)
  show "stop_section (closed_error (Some \<lparr>aeCode = 320, aeReason = ''CONNECTION_FORCED''\<rparr>)) (sysClient run_closed) =
      ([1 \<mapsto> 0], snd (stop_section (closed_error (Some \<lparr>aeCode = 320, aeReason = ''CONNECTION_FORCED''\<rparr>)) (sysClient run_closed)))"
    by (simp add: stop_section_def run_defs)
qed (simp_all add: run_defs)

lemma run_released: "rabbit_step run_stopped run_released"
  unfolding run_released_def by (rule disp_release) (simp add: run_defs)

lemma run_released_reach: "rabbit_step\<^sup>*\<^sup>* rabbit_start run_released"
  using run1 run_closed run_stopped run_released
  by (meson rtranclp.rtrancl_refl rtranclp.rtrancl_into_rtrancl)

section \<open>Properties\<close>

text \<open>
  C4. No silent loss. Whatever the interleaving of the publishers, the dispatcher, the library's
  reader and the broker, a publish that returns nil was confirmed positively by the broker,
  and the broker never sent that message back as unroutable.
\<close>

theorem publish_nil_means_delivered:
  assumes "rabbit_step\<^sup>*\<^sup>* rabbit_start s" and "sysPubs s i = PubDone None"
  shows "\<exists>t. sysTag s i = Some t \<and> sysConfirmed s t = Some True \<and> \<not> sysReturned s t"
  using rabbit_reachable_inv [OF assms(1)] assms(2)
  by (fastforce simp: rabbit_inv_def inv_answers_def verdict_def split: if_splits)

theorem publish_nil_means_delivered_witness:
  "\<exists>t. sysTag run6 0 = Some t \<and> sysConfirmed run6 t = Some True \<and> \<not> sysReturned run6 t"
  by (rule publish_nil_means_delivered [OF run_reach(3)]) (simp add: run_defs)

text \<open>
  C10. What a waiting publisher is told. Every answer is for the publisher's own message, and it is
  one of two: the broker's verdict (unroutable when the message was returned, even though AMQP
  acknowledges such a message too; rejected when it was refused; nil only when it was
  acknowledged), or, when the client is dead, the very error it died of. That error names the
  close the broker reported, or says that the channel was closed when the library reported none.
\<close>

theorem answer_is_the_verdict:
  assumes "rabbit_step\<^sup>*\<^sup>* rabbit_start s" and "sysAnswers s i = Some a"
  shows "\<exists>t. sysTag s i = Some t \<and>
    ((\<exists>ack. sysConfirmed s t = Some ack \<and>
        (if sysReturned s t then \<exists>e. a = Some e \<and> errors_Is e ErrUnroutable
         else a = (if ack then None else Some (ErrNew ''RabbitMQ rejected the message'' [])))) \<or>
     bcDead (sysClient s) = a \<and>
       (a = Some (ErrNew ''the channel was closed'' []) \<and>
          (bcNotifyClosed (sysClient s) \<or> None \<in> set (bcCloses (sysClient s))) \<or>
        (\<exists>e \<in> set (bcCloses (sysClient s)). \<exists>close. e = Some close \<and>
          a = Some (ErrNew ''the channel was closed by the broker: %d %s'' [FInt (aeCode close), FStr (aeReason close)]))))"
proof -
  have inv: "inv_waiters s" "inv_answers s"
    using rabbit_reachable_inv [OF assms(1)] by (simp_all add: rabbit_inv_def)
  obtain t where t: "sysTag s i = Some t" using inv(1) assms(2) by (fastforce simp: inv_waiters_def)
  then have "verdict s t a \<or> a \<noteq> None \<and> bcDead (sysClient s) = a"
    using inv(2) assms(2) by (fastforce simp: inv_answers_def)
  then show ?thesis
  proof
    assume "verdict s t a"
    with t show ?thesis by (auto simp: verdict_def)
  next
    assume dead: "a \<noteq> None \<and> bcDead (sysClient s) = a"
    then obtain e where "a = Some (closed_error e)"
        "e \<in> set (bcCloses (sysClient s)) \<or> e = None \<and> bcNotifyClosed (sysClient s)"
      using rabbit_reachable_cause [OF assms(1)] by (auto simp: dead_cause_def)
    with t dead show ?thesis by (cases e) (auto simp: closed_error_def)
  qed
qed

text \<open>The witness: a publish that was confirmed, and one whose channel the broker closed first.\<close>

theorem answer_is_the_verdict_witness:
  "(\<exists>t. sysTag run5 0 = Some t \<and> sysConfirmed run5 t = Some True \<and> \<not> sysReturned run5 t) \<and>
   (\<exists>a. sysAnswers run_released 0 = Some a \<and> bcDead (sysClient run_released) = a \<and>
      a = Some (ErrNew ''the channel was closed by the broker: %d %s'' [FInt 320, FStr ''CONNECTION_FORCED'']))"
proof
  have "sysAnswers run5 0 = Some None" "bcDead (sysClient run5) = None" "sysReturned run5 t = False" for t
    by (simp_all add: run_defs)
  with answer_is_the_verdict [OF run_reach(2), of 0 None]
  show "\<exists>t. sysTag run5 0 = Some t \<and> sysConfirmed run5 t = Some True \<and> \<not> sysReturned run5 t"
    by (fastforce split: if_splits)
  let ?a = "Some (closed_error (Some \<lparr>aeCode = 320, aeReason = ''CONNECTION_FORCED''\<rparr>))"
  have "sysAnswers run_released 0 = Some ?a" "sysConfirmed run_released = Map.empty"
    and "bcCloses (sysClient run_released) = [Some \<lparr>aeCode = 320, aeReason = ''CONNECTION_FORCED''\<rparr>]"
    and "\<not> bcNotifyClosed (sysClient run_released)"
    by (simp_all add: run_defs stop_section_def)
  with answer_is_the_verdict [OF run_released_reach, of 0 ?a]
  show "\<exists>a. sysAnswers run_released 0 = Some a \<and> bcDead (sysClient run_released) = a \<and>
      a = Some (ErrNew ''the channel was closed by the broker: %d %s'' [FInt 320, FStr ''CONNECTION_FORCED''])"
    by auto
qed

text \<open>
  C30. No waiter is forgotten: in every reachable state a publisher that waits is still
  registered under its number, or its answer is in its channel, or the dispatcher is about to
  put it there. Once the dispatcher has gone, every waiting publisher has an answer, so none is
  left to wait for its context.
\<close>

theorem no_publish_forgotten:
  assumes "rabbit_step\<^sup>*\<^sup>* rabbit_start s" and "sysPubs s i = PubWaiting t"
  shows "(bcWaiters (sysClient s) t = Some i \<or> sysAnswers s i \<noteq> None \<or> i \<in> set (releasing (sysDisp s))) \<and>
    (sysDisp s = DispGone \<longrightarrow> sysAnswers s i \<noteq> None)"
  using rabbit_reachable_inv [OF assms(1)] assms(2)
  by (fastforce simp: rabbit_inv_def inv_answers_def inv_waiters_def)

theorem no_publish_forgotten_witness:
  "bcWaiters (sysClient run4) 1 = Some 0 \<or> sysAnswers run4 0 \<noteq> None \<or> 0 \<in> set (releasing (sysDisp run4))"
  by (rule no_publish_forgotten [OF run_reach(1), THEN conjunct1]) (simp add: run_defs)

text \<open>
  C31. The dispatcher never blocks on an answer: whenever it settles a confirmation or releases
  a waiter, that waiter's channel of capacity one is empty, so no publish is answered twice.
\<close>

theorem dispatcher_never_blocks:
  assumes "rabbit_step\<^sup>*\<^sup>* rabbit_start s"
    and "sysDisp s = DispSettle conf \<and> fst (settle conf (sysClient s)) = Some (i, a) \<or>
         sysDisp s = DispRelease (i # ws) e"
  shows "sysAnswers s i = None"
  using rabbit_reachable_inv [OF assms(1)] assms(2)
  by (auto simp: rabbit_inv_def inv_waiters_def settle_answer)

theorem dispatcher_never_blocks_witness: "sysAnswers run4 0 = None"
  by (rule dispatcher_never_blocks [OF run_reach(1),
        where conf = "\<lparr>cfDeliveryTag = 1, cfAck = True\<rparr>" and a = None and ws = "[]" and e = IoEOF])
    (simp add: settle_answer run_defs)

text \<open>
  The numbers the client gives stay in step with the delivery tags of the broker: the counter
  is the number of messages on the wire whatever publishes failed, no two publishers hold the
  same number, and the message id a return carries reads back as the number it was made from.
\<close>

lemma tags_in_step:
  assumes "rabbit_step\<^sup>*\<^sup>* rabbit_start s" and "sysTag s i = Some t" and "sysTag s j = Some u"
  shows "bcSeq (sysClient s) = sysWire s \<and> 1 \<le> t \<and> t \<le> sysWire s \<and> (t = u \<longleftrightarrow> i = j) \<and>
    ParseUint (publish_MessageId t) 64 = Some t"
proof -
  have inv: "inv_tags s" using rabbit_reachable_inv [OF assms(1)] by (simp add: rabbit_inv_def)
  then have "1 \<le> t \<and> t \<le> sysWire s" "bcSeq (sysClient s) = sysWire s" "sysWire s < 2 ^ 64"
    using assms(2) by (auto simp: inv_tags_def)
  moreover have "t = u \<longleftrightarrow> i = j" using inv assms(2,3) by (auto simp: inv_tags_def)
  ultimately show ?thesis by (simp add: publish_MessageId_def)
qed

lemma tags_in_step_witness:
  "bcSeq (sysClient run6) = sysWire run6 \<and> ParseUint (publish_MessageId 1) 64 = Some 1"
  using tags_in_step [OF run_reach(3), of 0 1 0 1] by (simp add: run_defs)

end
