(* ===== verification/Rabbit_Producer.thy ===== *)
theory Rabbit_Producer
  imports Rabbit_Client Producer_Simple
begin

text \<open>
  \<open>RabbitMQProducer\<close> of \<open>queue/producer/rabbit.go\<close>: the configuration, the dial that declares the
  topology, and the send that reconnects once. The AMQP library is a record of the functions
  the code calls on it. A client is the connection and channel of one dial, with the number of
  the dial as its identity (the code compares client pointers); what \<open>publish\<close> and \<open>err\<close> answer
  for it is the subject of \<open>Rabbit_Client\<close> and a parameter here.
\<close>

section \<open>Configuration\<close>

definition normalizeRabbitConfig :: "RabbitMQConfig \<Rightarrow> RabbitMQConfig" where
  "normalizeRabbitConfig cfg =
     (let cfg1 = (if rmRoutingKey cfg = '''' then cfg\<lparr>rmRoutingKey := rmQueue cfg\<rparr> else cfg)
      in if rmExchangeType cfg1 = '''' then cfg1\<lparr>rmExchangeType := ''direct''\<rparr> else cfg1)"

definition deliveryMode :: "bool \<Rightarrow> 8 word" where
  "deliveryMode durable = (if durable then 2 else 1)"

section \<open>Dialing\<close>

record ('c, 'h, 'w) amqp_lib =
  amqpDial :: "string \<Rightarrow> 'w \<Rightarrow> (go_error + 'c) \<times> 'w"
  openChannel :: "'c \<Rightarrow> 'w \<Rightarrow> (go_error + 'h) \<times> 'w"
  ExchangeDeclare :: "'h \<Rightarrow> string \<Rightarrow> string \<Rightarrow> bool \<Rightarrow> bool \<Rightarrow> 'w \<Rightarrow> go_error option \<times> 'w"
  QueueDeclare :: "'h \<Rightarrow> string \<Rightarrow> bool \<Rightarrow> bool \<Rightarrow> bool \<Rightarrow> bool \<Rightarrow> 'w \<Rightarrow> go_error option \<times> 'w"
  QueueBind :: "'h \<Rightarrow> string \<Rightarrow> string \<Rightarrow> string \<Rightarrow> bool \<Rightarrow> 'w \<Rightarrow> go_error option \<times> 'w"
  ConfirmMode :: "'h \<Rightarrow> 'w \<Rightarrow> go_error option \<times> 'w"
  closeChannel :: "'h \<Rightarrow> 'w \<Rightarrow> 'w"
  closeConn :: "'c \<Rightarrow> 'w \<Rightarrow> 'w"

record ('c, 'h) rabbit_conn =
  rhDial :: nat
  rhConn :: 'c
  rhCh :: "'h option"

record ('c, 'h) RabbitMQProducer =
  rbConfig :: RabbitMQConfig
  rbClient :: "('c, 'h) rabbit_conn option"
  rbClosed :: bool
  rbDials :: nat

definition rabbit_conn_close :: "('c, 'h, 'w) amqp_lib \<Rightarrow> ('c, 'h) rabbit_conn \<Rightarrow> 'w \<Rightarrow> 'w" where
  "rabbit_conn_close lib c w =
     (let w1 = (case rhCh c of Some ch \<Rightarrow> closeChannel lib ch w | None \<Rightarrow> w)
      in closeConn lib (rhConn c) w1)"

definition headers_refused :: "RabbitMQConfig \<Rightarrow> go_error" where
  "headers_refused cfg =
     ErrNew ''a %q exchange cannot be used as a producer: the queue is bound with the routing key %q, while a headers exchange matches on message headers (use direct, fanout or topic)''
       [FStr (rmExchangeType cfg), FStr (rmRoutingKey cfg)]"

text \<open>\<open>dial\<close> step by step: each failure after the connection was made closes the client first.\<close>

definition rabbit_dial :: "('c, 'h, 'w) amqp_lib \<Rightarrow> RabbitMQConfig \<Rightarrow> nat \<Rightarrow> 'w \<Rightarrow>
    (go_error + ('c, 'h) rabbit_conn) \<times> 'w" where
  "rabbit_dial lib cfg n w =
     (if rmExchange cfg \<noteq> '''' \<and> rmExchangeType cfg = ''headers'' then
        (Inl (headers_refused cfg), w)
      else case amqpDial lib (rmURL cfg) w of
        (Inl err, w1) \<Rightarrow> (Inl (Wrap ''failed to connect to RabbitMQ: %w'' [] err), w1)
      | (Inr conn, w1) \<Rightarrow>
       (let client0 = \<lparr>rhDial = n, rhConn = conn, rhCh = None\<rparr> in
        case openChannel lib conn w1 of
          (Inl err, w2) \<Rightarrow>
            (Inl (Wrap ''failed to open a channel: %w'' [] err), rabbit_conn_close lib client0 w2)
        | (Inr ch, w2) \<Rightarrow>
         (let client = client0\<lparr>rhCh := Some ch\<rparr> in
          case (if rmExchange cfg \<noteq> '''' then
                  ExchangeDeclare lib ch (rmExchange cfg) (rmExchangeType cfg) (rmDurable cfg) (rmAutoDelete cfg) w2
                else (None, w2)) of
            (Some err, w3) \<Rightarrow>
              (Inl (Wrap ''failed to declare the exchange %q: %w'' [FStr (rmExchange cfg)] err),
               rabbit_conn_close lib client w3)
          | (None, w3) \<Rightarrow>
           (case QueueDeclare lib ch (rmQueue cfg) (rmDurable cfg) (rmAutoDelete cfg) (rmExclusive cfg) (rmNoWait cfg) w3 of
              (Some err, w4) \<Rightarrow>
                (Inl (Wrap ''failed to declare the queue %q: %w'' [FStr (rmQueue cfg)] err),
                 rabbit_conn_close lib client w4)
            | (None, w4) \<Rightarrow>
             (case (if rmExchange cfg \<noteq> '''' then
                      QueueBind lib ch (rmQueue cfg) (rmRoutingKey cfg) (rmExchange cfg) (rmNoWait cfg) w4
                    else (None, w4)) of
                (Some err, w5) \<Rightarrow>
                  (Inl (Wrap ''failed to bind the queue %q to the exchange %q: %w''
                     [FStr (rmQueue cfg), FStr (rmExchange cfg)] err), rabbit_conn_close lib client w5)
              | (None, w5) \<Rightarrow>
               (case ConfirmMode lib ch w5 of
                  (Some err, w6) \<Rightarrow>
                    (Inl (Wrap ''failed to put the channel in confirm mode: %w'' [] err),
                     rabbit_conn_close lib client w6)
                | (None, w6) \<Rightarrow> (Inr client, w6)))))))"

definition NewRabbitMQProducer :: "('c, 'h, 'w) amqp_lib \<Rightarrow> RabbitMQConfig \<Rightarrow> 'w \<Rightarrow>
    (go_error + ('c, 'h) RabbitMQProducer) \<times> 'w" where
  "NewRabbitMQProducer lib cfg0 w =
     (let cfg = normalizeRabbitConfig cfg0 in
      case rabbit_dial lib cfg 0 w of
        (Inl err, w1) \<Rightarrow> (Inl err, w1)
      | (Inr client, w1) \<Rightarrow>
          (Inr \<lparr>rbConfig = cfg, rbClient = Some client, rbClosed = False, rbDials = 1\<rparr>, w1))"

section \<open>Sending\<close>

text \<open>What a client answers: \<open>publish\<close> and \<open>err\<close> of \<open>rabbitClient\<close>.\<close>

record ('c, 'h, 'w) client_ops =
  publish :: "('c, 'h) rabbit_conn \<Rightarrow> 'w ctx \<Rightarrow> RabbitMQConfig \<Rightarrow> string \<Rightarrow> 'w \<Rightarrow> go_error option \<times> 'w"
  client_err :: "('c, 'h) rabbit_conn \<Rightarrow> 'w \<Rightarrow> go_error option"

definition rabbit_closed_err :: go_error where
  "rabbit_closed_err = ErrNew ''the RabbitMQ producer is closed'' []"

definition rabbit_current :: "('c, 'h, 'w) amqp_lib \<Rightarrow> ('c, 'h) RabbitMQProducer \<Rightarrow> 'w \<Rightarrow>
    (go_error + ('c, 'h) rabbit_conn) \<times> ('c, 'h) RabbitMQProducer \<times> 'w" where
  "rabbit_current lib r w =
     (if rbClosed r then (Inl rabbit_closed_err, r, w)
      else case rbClient r of
        Some client \<Rightarrow> (Inr client, r, w)
      | None \<Rightarrow>
          (case rabbit_dial lib (rbConfig r) (rbDials r) w of
             (Inl err, w1) \<Rightarrow> (Inl err, r\<lparr>rbDials := rbDials r + 1\<rparr>, w1)
           | (Inr client, w1) \<Rightarrow>
               (Inr client, r\<lparr>rbDials := rbDials r + 1, rbClient := Some client\<rparr>, w1)))"

definition rabbit_reconnect :: "('c, 'h, 'w) amqp_lib \<Rightarrow> ('c, 'h, 'w) client_ops \<Rightarrow>
    ('c, 'h) rabbit_conn \<Rightarrow> ('c, 'h) RabbitMQProducer \<Rightarrow> 'w \<Rightarrow>
    (bool \<times> go_error option) \<times> ('c, 'h) RabbitMQProducer \<times> 'w" where
  "rabbit_reconnect lib ops stale r w =
     (if rbClosed r then ((False, Some rabbit_closed_err), r, w)
      else if map_option rhDial (rbClient r) \<noteq> Some (rhDial stale) then ((False, None), r, w)
      else if client_err ops stale w = None then ((False, None), r, w)
      else
        (let w1 = rabbit_conn_close lib stale w in
         case rabbit_dial lib (rbConfig r) (rbDials r) w1 of
           (Inl err, w2) \<Rightarrow> ((False, Some err), r\<lparr>rbDials := rbDials r + 1, rbClient := None\<rparr>, w2)
         | (Inr client, w2) \<Rightarrow>
             ((True, None), r\<lparr>rbDials := rbDials r + 1, rbClient := Some client\<rparr>, w2)))"

definition RabbitMQProducer_Send :: "location \<Rightarrow> ('c, 'h, 'w) amqp_lib \<Rightarrow> ('c, 'h, 'w) client_ops \<Rightarrow>
    ('c, 'h) RabbitMQProducer \<Rightarrow> 'w ctx \<Rightarrow> EventData \<Rightarrow> 'w \<Rightarrow>
    go_error option \<times> ('c, 'h) RabbitMQProducer \<times> 'w" where
  "RabbitMQProducer_Send loc lib ops r ctx event w =
     (case marshal loc event of
        Inl err \<Rightarrow> (Some (Wrap ''failed to marshal event: %w'' [] err), r, w)
      | Inr body \<Rightarrow>
       (case rabbit_current lib r w of
          (Inl err, r1, w1) \<Rightarrow> (Some err, r1, w1)
        | (Inr client, r1, w1) \<Rightarrow>
         (case publish ops client ctx (rbConfig r) body w1 of
            (None, w2) \<Rightarrow> (None, r1, w2)
          | (Some err, w2) \<Rightarrow>
            (if errors_Is err ErrUnroutable then (Some err, r1, w2)
             else
              (case rabbit_reconnect lib ops client r1 w2 of
                 ((replaced, Some rerr), r2, w3) \<Rightarrow>
                   (Some (Wrap ''%w (reconnect failed: %v)'' [FErr rerr] err), r2, w3)
               | ((replaced, None), r2, w3) \<Rightarrow>
                 (if \<not> replaced then (Some err, r2, w3)
                  else
                   (case rabbit_current lib r2 w3 of
                      (Inl cerr, r3, w4) \<Rightarrow> (Some (Wrap ''%w (%v)'' [FErr cerr] err), r3, w4)
                    | (Inr client', r3, w4) \<Rightarrow>
                      (case publish ops client' ctx (rbConfig r) body w4 of
                         (Some perr, w5) \<Rightarrow>
                           (Some (Wrap ''%w (the retry on the new connection failed: %v)'' [FErr perr] err), r3, w5)
                       | (None, w5) \<Rightarrow> (None, r3, w5)))))))))"

definition RabbitMQProducer_Close :: "('c, 'h, 'w) amqp_lib \<Rightarrow> ('c, 'h) RabbitMQProducer \<Rightarrow> 'w \<Rightarrow>
    go_error option \<times> ('c, 'h) RabbitMQProducer \<times> 'w" where
  "RabbitMQProducer_Close lib r w =
     (if rbClosed r then (None, r, w)
      else case rbClient r of
        Some client \<Rightarrow> (None, r\<lparr>rbClosed := True, rbClient := None\<rparr>, rabbit_conn_close lib client w)
      | None \<Rightarrow> (None, r\<lparr>rbClosed := True\<rparr>, w))"

text \<open>
  The producer as the retry loop and the listener see it: its own state is part of the world.
\<close>

definition RabbitMQProducer_IProducer :: "location \<Rightarrow> ('c, 'h, 'w) amqp_lib \<Rightarrow> ('c, 'h, 'w) client_ops \<Rightarrow>
    (('c, 'h) RabbitMQProducer \<times> 'w) IProducer" where
  "RabbitMQProducer_IProducer loc lib ops =
     \<lparr>Send = (\<lambda>ctx event (r, w). RabbitMQProducer_Send loc lib ops r (\<lambda>w. ctx (r, w)) event w),
      CloseProducer = (\<lambda>(r, w). RabbitMQProducer_Close lib r w)\<rparr>"

section \<open>Connections\<close>

text \<open>
  A count of the open connections of a world: a dial that succeeds opens one, closing a
  connection closes one, and nothing else opens or closes any. A connection is closed only where
  the code closes it, so the count is of the connections the process has not closed yet.
\<close>

definition counts_connections :: "('c, 'h, 'w) amqp_lib \<Rightarrow> ('c, 'h, 'w) client_ops \<Rightarrow> ('w \<Rightarrow> int) \<Rightarrow> bool" where
  "counts_connections lib ops conns \<longleftrightarrow>
     (\<forall>url w e w'. amqpDial lib url w = (Inl e, w') \<longrightarrow> conns w' = conns w) \<and>
     (\<forall>url w c w'. amqpDial lib url w = (Inr c, w') \<longrightarrow> conns w' = conns w + 1) \<and>
     (\<forall>c w. conns (closeConn lib c w) = conns w - 1) \<and>
     (\<forall>ch w. conns (closeChannel lib ch w) = conns w) \<and>
     (\<forall>c w rc w'. openChannel lib c w = (rc, w') \<longrightarrow> conns w' = conns w) \<and>
     (\<forall>ch x t d a w re w'. ExchangeDeclare lib ch x t d a w = (re, w') \<longrightarrow> conns w' = conns w) \<and>
     (\<forall>ch q d a ex n w re w'. QueueDeclare lib ch q d a ex n w = (re, w') \<longrightarrow> conns w' = conns w) \<and>
     (\<forall>ch q k x n w re w'. QueueBind lib ch q k x n w = (re, w') \<longrightarrow> conns w' = conns w) \<and>
     (\<forall>ch w re w'. ConfirmMode lib ch w = (re, w') \<longrightarrow> conns w' = conns w) \<and>
     (\<forall>c ctx cfg b w re w'. publish ops c ctx cfg b w = (re, w') \<longrightarrow> conns w' = conns w)"

lemma counts_connectionsD:
  assumes "counts_connections lib ops conns"
  shows "amqpDial lib url w = (Inl e, w') \<Longrightarrow> conns w' = conns w"
    and "amqpDial lib url w = (Inr c, w') \<Longrightarrow> conns w' = conns w + 1"
    and "conns (closeConn lib c w) = conns w - 1" and "conns (closeChannel lib ch w) = conns w"
    and "openChannel lib c w = (rc, w') \<Longrightarrow> conns w' = conns w"
    and "ExchangeDeclare lib ch x t d a w = (re, w') \<Longrightarrow> conns w' = conns w"
    and "QueueDeclare lib ch q d a ex n w = (re, w') \<Longrightarrow> conns w' = conns w"
    and "QueueBind lib ch q k x n w = (re, w') \<Longrightarrow> conns w' = conns w"
    and "ConfirmMode lib ch w = (re, w') \<Longrightarrow> conns w' = conns w"
    and "publish ops cl ctx cfg b w = (re, w') \<Longrightarrow> conns w' = conns w"
  using assms unfolding counts_connections_def by - (elim conjE, (fast | simp))+

lemma rabbit_conn_close_conns:
  "counts_connections lib ops conns \<Longrightarrow> conns (rabbit_conn_close lib c w) = conns w - 1"
  by (simp add: rabbit_conn_close_def Let_def counts_connectionsD split: option.split)

text \<open>Every way \<open>dial\<close> can fail closes what it opened.\<close>

lemma rabbit_dial_conns:
  assumes "counts_connections lib ops conns" and "rabbit_dial lib cfg n w = (r, w')"
  shows "conns w' = conns w + (case r of Inl _ \<Rightarrow> 0 | Inr _ \<Rightarrow> 1)"
  using assms(2) unfolding rabbit_dial_def Let_def
  by (auto simp: rabbit_conn_close_conns [OF assms(1)] split: if_splits prod.splits sum.splits option.splits
      dest!: counts_connectionsD(1,2,5-9) [OF assms(1)])

definition held :: "('c, 'h) RabbitMQProducer \<Rightarrow> int" where
  "held r = (if rbClient r = None then 0 else 1)"

lemma rabbit_current_conns:
  "counts_connections lib ops conns \<Longrightarrow> rabbit_current lib r w = (x, r', w') \<Longrightarrow>
   conns w' - held r' = conns w - held r"
  unfolding rabbit_current_def
  by (auto simp: held_def split: if_splits option.splits prod.splits sum.splits dest!: rabbit_dial_conns)

lemma rabbit_reconnect_conns:
  assumes "counts_connections lib ops conns" and "rabbit_reconnect lib ops stale r w = (x, r', w')"
  shows "conns w' - held r' = conns w - held r"
  using assms(2) unfolding rabbit_reconnect_def Let_def
  by (auto simp: held_def rabbit_conn_close_conns [OF assms(1)] dest!: rabbit_dial_conns [OF assms(1)]
      split: if_splits prod.splits sum.splits)

lemma RabbitMQProducer_Send_conns:
  assumes "counts_connections lib ops conns" and "RabbitMQProducer_Send loc lib ops r ctx event w = (e, r', w')"
  shows "conns w' - held r' = conns w - held r"
  using assms(2) unfolding RabbitMQProducer_Send_def
  by (auto split: sum.splits prod.splits option.splits if_splits
      dest!: rabbit_current_conns [OF assms(1)] rabbit_reconnect_conns [OF assms(1)]
        counts_connectionsD(10) [OF assms(1)])

lemma RabbitMQProducer_Send_wf:
  assumes "RabbitMQProducer_Send loc lib ops r ctx event w = (e, r', w')" and "rbClosed r \<longrightarrow> rbClient r = None"
  shows "rbClosed r' \<longrightarrow> rbClient r' = None"
proof -
  have current: "rabbit_current lib r w = (x, r', w') \<Longrightarrow> rbClosed r' = rbClosed r \<and> (rbClosed r \<longrightarrow> r' = r)"
    for r w x r' w'
    by (auto simp: rabbit_current_def split: if_splits option.splits prod.splits sum.splits)
  have reconnect: "rabbit_reconnect lib ops c r w = (x, r', w') \<Longrightarrow> rbClosed r' = rbClosed r \<and> (rbClosed r \<longrightarrow> r' = r)"
    for c r w x r' w'
    by (auto simp: rabbit_reconnect_def Let_def split: if_splits option.splits prod.splits sum.splits)
  show ?thesis
    using assms unfolding RabbitMQProducer_Send_def
    by (fastforce split: sum.splits prod.splits option.splits if_splits dest!: current reconnect)
qed

lemma RabbitMQProducer_Close_conns:
  assumes "counts_connections lib ops conns" and "RabbitMQProducer_Close lib r w = (e, r', w')"
  shows "conns w' - held r' = conns w - held r"
  using assms(2) unfolding RabbitMQProducer_Close_def
  by (auto simp: held_def rabbit_conn_close_conns [OF assms(1)] split: option.splits if_splits)

section \<open>Properties\<close>

text \<open>
  A broker for the witnesses, of the world \<open>(open connections, publishes)\<close>: it accepts every dial
  and every declaration; a publish is answered by the given function of how many came before.
\<close>

definition amqp_sample :: "(unit, unit, int \<times> nat) amqp_lib" where
  "amqp_sample =
     \<lparr>amqpDial = (\<lambda>_ (c, n). (Inr (), c + 1, n)), openChannel = (\<lambda>_ w. (Inr (), w)),
      ExchangeDeclare = (\<lambda>_ _ _ _ _ w. (None, w)), QueueDeclare = (\<lambda>_ _ _ _ _ _ w. (None, w)),
      QueueBind = (\<lambda>_ _ _ _ _ w. (None, w)), ConfirmMode = (\<lambda>_ w. (None, w)),
      closeChannel = (\<lambda>_ w. w), closeConn = (\<lambda>_ (c, n). (c - 1, n))\<rparr>"

definition client_sample :: "(nat \<Rightarrow> go_error option) \<Rightarrow> (unit, unit, int \<times> nat) client_ops" where
  "client_sample answer =
     \<lparr>publish = (\<lambda>_ _ _ _ (c, n). (answer n, c, n + 1)), client_err = (\<lambda>_ (c, n). Some IoEOF)\<rparr>"

definition rabbit_sample :: "(unit, unit) RabbitMQProducer" where
  "rabbit_sample =
     \<lparr>rbConfig = \<lparr>rmURL = '''', rmExchange = '''', rmExchangeType = ''direct'', rmRoutingKey = ''q'',
        rmQueue = ''q'', rmDurable = True, rmAutoDelete = False, rmAutoAck = False, rmExclusive = False,
        rmNoWait = False\<rparr>,
      rbClient = Some \<lparr>rhDial = 0, rhConn = (), rhCh = Some ()\<rparr>, rbClosed = False, rbDials = 1\<rparr>"

lemmas rabbit_sample_defs =
  amqp_sample_def client_sample_def rabbit_sample_def RabbitMQProducer_Send_def
  rabbit_current_def rabbit_reconnect_def rabbit_dial_def rabbit_conn_close_def RabbitMQProducer_Close_def

lemma amqp_sample_counts: "counts_connections amqp_sample (client_sample answer) fst"
  by (auto simp: counts_connections_def amqp_sample_def client_sample_def)

text \<open>
  C14. The producer holds exactly one connection while it has a client and none while it has
  not: whatever fails in a send (the dial, a declaration, the publish, the reconnection), every
  connection it opened and does not keep is closed, and \<open>Close\<close> leaves none.
\<close>

theorem rabbit_holds_its_one_connection:
  assumes "counts_connections lib ops conns" and "conns w = held r"
    and "RabbitMQProducer_Send loc lib ops r ctx event w = (e, r1, w1)"
    and "RabbitMQProducer_Close lib r1 w1 = (e', r2, w2)" and "rbClosed r \<longrightarrow> rbClient r = None"
  shows "conns w1 = held r1 \<and> conns w2 = 0"
proof -
  have send: "conns w1 = held r1" using RabbitMQProducer_Send_conns [OF assms(1,3)] assms(2) by simp
  have "rbClosed r1 \<longrightarrow> rbClient r1 = None" by (rule RabbitMQProducer_Send_wf [OF assms(3,5)])
  then have "rbClient r2 = None"
    using assms(4) by (auto simp: RabbitMQProducer_Close_def split: if_splits option.splits)
  then show ?thesis
    using send RabbitMQProducer_Close_conns [OF assms(1,4)] by (simp add: held_def)
qed

theorem rabbit_holds_its_one_connection_witness:
  "\<exists>r1 r2. RabbitMQProducer_Send utc amqp_sample (client_sample (\<lambda>n. if n = 0 then Some IoEOF else None))
      rabbit_sample (\<lambda>_. None) zeroEvent (1, 0) = (None, r1, 1, 2) \<and>
    RabbitMQProducer_Close amqp_sample r1 (1, 2) = (None, r2, 0, 2) \<and>
    fst (1 :: int, 2 :: nat) = held r1 \<and> fst (0 :: int, 2 :: nat) = 0"
proof -
  let ?ops = "client_sample (\<lambda>n. if n = 0 then Some IoEOF else None)"
  let ?r1 = "rabbit_sample\<lparr>rbClient := Some \<lparr>rhDial = 1, rhConn = (), rhCh = Some ()\<rparr>, rbDials := 2\<rparr>"
  have s: "RabbitMQProducer_Send utc amqp_sample ?ops rabbit_sample (\<lambda>_. None) zeroEvent (1, 0)
      = (None, ?r1, 1, 2)"
    by (simp add: rabbit_sample_defs)
  have c: "RabbitMQProducer_Close amqp_sample ?r1 (1, 2)
      = (None, ?r1\<lparr>rbClosed := True, rbClient := None\<rparr>, 0, 2)"
    by (simp add: rabbit_sample_defs)
  have "fst (1 :: int, 2 :: nat) = held ?r1 \<and> fst (0 :: int, 2 :: nat) = 0"
    by (rule rabbit_holds_its_one_connection [OF amqp_sample_counts _ s c])
      (simp_all add: held_def rabbit_sample_def)
  with s c show ?thesis by blast
qed

text \<open>How often a producer publishes: looking for the connection and dialling publish nothing.\<close>

lemma rabbit_current_pubs:
  assumes "\<And>cfg n w x w'. rabbit_dial lib cfg n w = (x, w') \<Longrightarrow> pubs w' = pubs w"
    and "rabbit_current lib r w = (x, r', w')"
  shows "pubs w' = pubs w \<and> rbConfig r' = rbConfig r \<and> rbDials r \<le> rbDials r'"
  using assms(2) by (auto simp: rabbit_current_def assms(1) split: if_splits option.splits prod.splits sum.splits)

lemma rabbit_reconnect_pubs:
  assumes "\<And>cfg n w x w'. rabbit_dial lib cfg n w = (x, w') \<Longrightarrow> pubs w' = pubs w"
    and "\<And>c w. pubs (rabbit_conn_close lib c w) = pubs w" and "rabbit_reconnect lib ops c r w = (x, r', w')"
  shows "pubs w' = pubs w \<and> rbConfig r' = rbConfig r \<and> rbDials r \<le> rbDials r' \<and> (fst x \<longrightarrow> rbDials r < rbDials r')"
  using assms(3) by (auto simp: rabbit_reconnect_def Let_def assms(2) dest!: assms(1)
      split: if_splits option.splits prod.splits sum.splits)

text \<open>
  A reconnection that replaced the client closed the stale one, which was broken, and holds the
  one it dialled next.
\<close>

lemma rabbit_reconnect_replaced:
  assumes "rabbit_reconnect lib ops stale r w = ((True, None), r', w')"
  shows "\<exists>client. client_err ops stale w \<noteq> None \<and>
    rabbit_dial lib (rbConfig r) (rbDials r) (rabbit_conn_close lib stale w) = (Inr client, w') \<and>
    rbClient r' = Some client \<and> rbDials r' = rbDials r + 1 \<and>
    rabbit_current lib r' w' = (Inr client, r', w')"
  using assms by (auto simp: rabbit_reconnect_def rabbit_current_def Let_def split: if_splits sum.splits prod.splits)

text \<open>A send whose first publish failed for another reason than the routing: the repair and the second publish.\<close>

lemma rabbit_second_try:
  assumes "marshal loc event = Inr body" and "rabbit_current lib r w = (Inr client, r1, w1)"
    and "publish ops client ctx (rbConfig r) body w1 = (Some err, w2)" and "\<not> errors_Is err ErrUnroutable"
    and "RabbitMQProducer_Send loc lib ops r ctx event w = (e, r', w')"
  shows "(\<exists>e' x. e = Some e' \<and> errors_Is e' err \<and> rabbit_reconnect lib ops client r1 w2 = (x, r', w')) \<or>
    (\<exists>client' w4 e2. client_err ops client w2 \<noteq> None \<and>
       rabbit_reconnect lib ops client r1 w2 = ((True, None), r', w4) \<and>
       rabbit_dial lib (rbConfig r1) (rbDials r1) (rabbit_conn_close lib client w2) = (Inr client', w4) \<and>
       rbClient r' = Some client' \<and> publish ops client' ctx (rbConfig r) body w4 = (e2, w') \<and>
       (e = None \<longleftrightarrow> e2 = None) \<and> (\<forall>e'. e = Some e' \<longrightarrow> errors_Is e' err))"
proof -
  obtain replaced rerr r2 w3 where rec: "rabbit_reconnect lib ops client r1 w2 = ((replaced, rerr), r2, w3)"
    by (metis surj_pair)
  show ?thesis
  proof (cases "replaced \<and> rerr = None")
    case True
    with rec obtain client' where new: "client_err ops client w2 \<noteq> None"
        "rabbit_dial lib (rbConfig r1) (rbDials r1) (rabbit_conn_close lib client w2) = (Inr client', w3)"
        "rbClient r2 = Some client'" "rabbit_current lib r2 w3 = (Inr client', r2, w3)"
      using rabbit_reconnect_replaced [of lib ops client r1 w2 r2 w3] by auto
    obtain e2 w5 where p2: "publish ops client' ctx (rbConfig r) body w3 = (e2, w5)" by fastforce
    have "r' = r2 \<and> w' = w5 \<and> (e = None \<longleftrightarrow> e2 = None) \<and> (\<forall>e'. e = Some e' \<longrightarrow> errors_Is e' err)"
      using assms rec True new(4) p2 by (auto simp: RabbitMQProducer_Send_def errors_Is_refl split: option.splits)
    with rec True new p2 show ?thesis by auto
  next
    case False
    with assms rec show ?thesis by (auto simp: RabbitMQProducer_Send_def errors_Is_refl split: option.splits)
  qed
qed

text \<open>
  C32. What a send reports, and how often it publishes. A send of an encodable event publishes it
  not at all, and then reports an error; or once, on the client the producer holds if it holds one,
  and then reports nil exactly when that publish was accepted; or twice. Twice only when the first
  publish failed, for another reason than the routing, on a client that is broken: that client is
  closed, a new one is dialled, and the second publish is made on the new one, which the producer
  then holds; the send reports nil exactly when this publish was accepted. Every error
  after a publish wraps the first publish's error. What an accepted publish means to the broker
  is the theorem \<open>Rabbit_Client.publish_nil_means_delivered\<close>.
\<close>

theorem rabbit_send_reports:
  assumes "RabbitMQProducer_Send loc lib ops r ctx event w = (e, r', w')"
    and "marshal loc event = Inr body"
    and "\<And>c cfg b w e w'. publish ops c ctx cfg b w = (e, w') \<Longrightarrow> pubs w' = pubs w + (1 :: nat)"
    and "\<And>cfg n w x w'. rabbit_dial lib cfg n w = (x, w') \<Longrightarrow> pubs w' = pubs w"
    and "\<And>c w. pubs (rabbit_conn_close lib c w) = pubs w"
  shows "e \<noteq> None \<and> pubs w' = pubs w \<or>
    (\<exists>client w1 e1 w2. publish ops client ctx (rbConfig r) body w1 = (e1, w2) \<and> pubs w1 = pubs w \<and>
       (\<forall>c. rbClient r = Some c \<longrightarrow> client = c \<and> w1 = w) \<and>
       (\<forall>e'. e = Some e' \<longrightarrow> (\<exists>err. e1 = Some err \<and> errors_Is e' err)) \<and>
       (pubs w' = pubs w + 1 \<and> (e = None \<longleftrightarrow> e1 = None) \<and> (e = None \<longrightarrow> w' = w2) \<or>
        pubs w' = pubs w + 2 \<and> e1 \<noteq> None \<and> \<not> errors_Is (the e1) ErrUnroutable \<and> client_err ops client w2 \<noteq> None \<and>
          (\<exists>n client' w4 e2. rbDials r \<le> n \<and> n < rbDials r' \<and>
             rabbit_dial lib (rbConfig r) n (rabbit_conn_close lib client w2) = (Inr client', w4) \<and>
             publish ops client' ctx (rbConfig r) body w4 = (e2, w') \<and>
             rbClient r' = Some client' \<and> (e = None \<longleftrightarrow> e2 = None))))"
proof -
  have current: "rabbit_current lib r w = (x, r', w') \<Longrightarrow> pubs w' = pubs w \<and> rbConfig r' = rbConfig r \<and> rbDials r \<le> rbDials r'"
    for r w x r' w' using assms(4) by (rule rabbit_current_pubs)
  have reconnect: "rabbit_reconnect lib ops c r w = (x, r', w') \<Longrightarrow> pubs w' = pubs w \<and> rbConfig r' = rbConfig r \<and>
      rbDials r \<le> rbDials r' \<and> (fst x \<longrightarrow> rbDials r < rbDials r')" for c r w x r' w'
    using assms(4,5) by (rule rabbit_reconnect_pubs)
  have pub: "publish ops c ctx cfg b w = (e, w') \<Longrightarrow> pubs w' = Suc (pubs w)" for c cfg b w e w'
    using assms(3) by simp
  obtain x1 r1 w1 where cur: "rabbit_current lib r w = (x1, r1, w1)" by (metis prod_cases3)
  show ?thesis
  proof (cases x1)
    case (Inl err)
    with assms(1,2) cur current [OF cur] show ?thesis by (auto simp: RabbitMQProducer_Send_def)
  next
    case (Inr client)
    then have held: "\<forall>c. rbClient r = Some c \<longrightarrow> client = c \<and> w1 = w"
      using cur by (auto simp: rabbit_current_def split: if_splits)
    obtain e1 w2 where p1: "publish ops client ctx (rbConfig r) body w1 = (e1, w2)" by fastforce
    note first = exI [of _ client, OF exI [of _ w1, OF exI [of _ e1, OF exI [of _ w2]]]]
    show ?thesis
    proof (cases "e1 = None \<or> errors_Is (the e1) ErrUnroutable")
      case True
      then have "e = e1 \<and> r' = r1 \<and> w' = w2"
        using assms(1,2) cur Inr p1 by (auto simp: RabbitMQProducer_Send_def split: option.splits)
      with p1 pub [OF p1] current [OF cur] held show ?thesis by (intro disjI2 first) (auto simp: errors_Is_refl)
    next
      case False
      then obtain err where err: "e1 = Some err" "\<not> errors_Is err ErrUnroutable" by auto
      from rabbit_second_try [OF assms(2) cur [unfolded Inr] p1 [unfolded err(1)] err(2) assms(1)]
      show ?thesis
      proof (elim disjE exE conjE)
        fix e' x assume "e = Some e'" "errors_Is e' err" "rabbit_reconnect lib ops client r1 w2 = (x, r', w')"
        with p1 err held pub [OF p1] current [OF cur] show ?thesis
          by (intro disjI2 first) (auto dest: reconnect)
      next
        fix client' w4 e2
        assume rec: "rabbit_reconnect lib ops client r1 w2 = ((True, None), r', w4)"
          and dial: "rabbit_dial lib (rbConfig r1) (rbDials r1) (rabbit_conn_close lib client w2) = (Inr client', w4)"
          and p2: "publish ops client' ctx (rbConfig r) body w4 = (e2, w')"
          and rest: "client_err ops client w2 \<noteq> None" "rbClient r' = Some client'" "e = None \<longleftrightarrow> e2 = None"
            "\<forall>e'. e = Some e' \<longrightarrow> errors_Is e' err"
        have "\<exists>n client' w4 e2. rbDials r \<le> n \<and> n < rbDials r' \<and>
             rabbit_dial lib (rbConfig r) n (rabbit_conn_close lib client w2) = (Inr client', w4) \<and>
             publish ops client' ctx (rbConfig r) body w4 = (e2, w') \<and> rbClient r' = Some client' \<and> (e = None \<longleftrightarrow> e2 = None)"
          using dial p2 rest current [OF cur] reconnect [OF rec] by auto
        with p1 err held rest pub [OF p1] pub [OF p2] current [OF cur] reconnect [OF rec] show ?thesis
          by (intro disjI2 first) auto
      qed
    qed
  qed
qed

text \<open>The witness: the first publish fails on a broken client, the second is made on the dial number one.\<close>

theorem rabbit_send_reports_witness:
  "\<exists>client' w4. rabbit_dial amqp_sample (rbConfig rabbit_sample) 1 (0, 1) = (Inr client', w4) \<and> rhDial client' = 1 \<and>
     publish (client_sample (\<lambda>n. if n = 0 then Some IoEOF else None)) client' (\<lambda>_. None)
       (rbConfig rabbit_sample) zero_text w4 = (None, 1, 2)"
proof -
  let ?ops = "client_sample (\<lambda>n. if n = 0 then Some IoEOF else None)"
  let ?r1 = "rabbit_sample\<lparr>rbClient := Some \<lparr>rhDial = 1, rhConn = (), rhCh = Some ()\<rparr>, rbDials := 2\<rparr>"
  have s: "RabbitMQProducer_Send utc amqp_sample ?ops rabbit_sample (\<lambda>_. None) zeroEvent (1, 0)
      = (None, ?r1, 1, 2)"
    by (simp add: rabbit_sample_defs)
  have m: "marshal utc zeroEvent = Inr zero_text" by simp
  have "(\<And>c cfg b w e w'. publish ?ops c (\<lambda>_. None) cfg b w = (e, w') \<Longrightarrow> snd w' = snd w + (1 :: nat))"
    "(\<And>cfg n w x w'. rabbit_dial amqp_sample cfg n w = (x, w') \<Longrightarrow> snd w' = snd w)"
    "(\<And>c w. snd (rabbit_conn_close amqp_sample c w) = snd w)"
    by (auto simp: rabbit_sample_defs split: if_splits option.splits)
  from rabbit_send_reports [where pubs = snd, OF s m this]
  show ?thesis by (auto simp: rabbit_sample_defs)
qed

definition ret_sample :: amqp_return where
  "ret_sample = \<lparr>retMessageId = ''1'', retReplyCode = 312, retReplyText = ''NO_ROUTE'', retExchange = ''x'', retRoutingKey = ''q''\<rparr>"

text \<open>
  C33. A message the broker cannot route. The send reports the broker's answer as it is, after the
  one publish, and keeps the connection: it neither dials nor publishes again. The error still
  counts as retriable for \<open>SendWithRetry\<close>, which therefore publishes the message on every
  attempt it has left.
\<close>

theorem unroutable_reported_and_retriable:
  assumes "rbClient r = Some client" and "\<not> rbClosed r" and "marshal loc event = Inr body"
    and "publish ops client ctx (rbConfig r) body w = (Some (unroutable_error ret), w')"
  shows "RabbitMQProducer_Send loc lib ops r ctx event w = (Some (unroutable_error ret), r, w') \<and>
    isRetriable (fst (RabbitMQProducer_Send loc lib ops r ctx event w))"
  using assms by (simp add: RabbitMQProducer_Send_def rabbit_current_def)
    (simp add: unroutable_error_def isRetriable_def)

theorem unroutable_reported_and_retriable_witness:
  "RabbitMQProducer_Send utc amqp_sample
     (client_sample (\<lambda>_. Some (unroutable_error ret_sample)))
     rabbit_sample (\<lambda>_. None) zeroEvent (1, 0) =
     (Some (unroutable_error ret_sample),
      rabbit_sample, 1, 1) \<and>
   isRetriable (fst (RabbitMQProducer_Send utc amqp_sample
     (client_sample (\<lambda>_. Some (unroutable_error ret_sample)))
     rabbit_sample (\<lambda>_. None) zeroEvent (1, 0)))"
  by (rule unroutable_reported_and_retriable [where client = "\<lparr>rhDial = 0, rhConn = (), rhCh = Some ()\<rparr>" and body = zero_text])
    (simp_all add: rabbit_sample_defs)

end
