(* ===== verification/Consumer_Kafka.thy ===== *)
theory Consumer_Kafka
  imports Consumer_Core
begin

text \<open>
  \<open>queue/consumer/kafka.go\<close>: the consumer whose acknowledgement is a committed offset. The
  \<open>kafka.Reader\<close> is a record of the methods the code calls.
\<close>

section \<open>Configuration\<close>

datatype kafka_start = FirstOffset | LastOffset

definition kafkaStartOffset :: "string \<Rightarrow> go_error + kafka_start" where
  "kafkaStartOffset name =
     (if fold_name name \<in> {'''', ''first'', ''earliest'', ''oldest''} then Inr FirstOffset
      else if fold_name name \<in> {''last'', ''latest'', ''newest''} then Inr LastOffset
      else Inl (ErrNew ''unsupported start_offset %q: use first or last'' [FStr name]))"

record kafka_reader_settings =
  krBrokers :: "string list"
  krTopic :: string
  krGroupID :: string
  krStartOffset :: kafka_start
  krMinBytes :: int
  krMaxBytes :: int

record kafka_message =
  kmTopic :: string
  kmPartition :: int
  kmOffset :: int
  kmValue :: string

record 'w kafka_reader =
  FetchMessage :: "'w ctx \<Rightarrow> 'w \<Rightarrow> (go_error + kafka_message) \<times> 'w"
  CommitMessages :: "'w ctx \<Rightarrow> kafka_message \<Rightarrow> 'w \<Rightarrow> go_error option \<times> 'w"
  CloseReader :: "'w \<Rightarrow> go_error option \<times> 'w"

record 'w KafkaConsumer =
  kcnCfg :: KafkaConsumerConfig
  kcnReader :: "'w kafka_reader"
  kcnClosed :: "'w flag"

definition NewKafkaConsumer :: "(kafka_reader_settings \<Rightarrow> 'w kafka_reader) \<Rightarrow> 'w flag \<Rightarrow>
    KafkaConsumerConfig \<Rightarrow> go_error + 'w KafkaConsumer" where
  "NewKafkaConsumer NewReader closed cfg =
     (if length (kccBrokers cfg) = 0 then
        Inl (ErrNew ''the Kafka consumer needs at least one entry in brokers'' [])
      else case kafkaStartOffset (kccStartOffset cfg) of
        Inl err \<Rightarrow> Inl err
      | Inr start \<Rightarrow>
          Inr \<lparr>kcnCfg = cfg,
            kcnReader = NewReader \<lparr>krBrokers = kccBrokers cfg, krTopic = kccTopic cfg,
              krGroupID = kccGroup cfg, krStartOffset = start, krMinBytes = 1, krMaxBytes = 10000000\<rparr>,
            kcnClosed = closed\<rparr>)"

section \<open>Consuming\<close>

text \<open>One round of \<open>for\<close> in \<open>Consume\<close>.\<close>

definition kafka_iteration :: "'w KafkaConsumer \<Rightarrow> 'w ctx \<Rightarrow> 'w handler \<Rightarrow> 'w \<Rightarrow>
    (kafka_message, 'w) act list \<times> loop_end \<times> 'w" where
  "kafka_iteration k ctx handler w =
     (case FetchMessage (kcnReader k) ctx w of
        (Inl err, w1) \<Rightarrow>
          ([], Stop (if isSet (kcnClosed k) w1 then None
             else case ctx w1 of
               Some e \<Rightarrow> Some e
             | None \<Rightarrow> if errors_Is err IoEOF then None
                else Some (Wrap ''failed to read from Kafka: %w'' [] err)), w1)
      | (Inr msg, w1) \<Rightarrow>
          (case processMessage ctx handler (kmValue msg) w1 of
             (retryDisposition, w2) \<Rightarrow> ([Fetched msg, Handled msg w1 retryDisposition], Continue, w2)
           | (ackDisposition, w2) \<Rightarrow>
               if kccGroup (kcnCfg k) = '''' then
                 ([Fetched msg, Handled msg w1 ackDisposition], Continue, w2)
               else
                 (case CommitMessages (kcnReader k) ctx msg w2 of
                    (None, w3) \<Rightarrow>
                      ([Fetched msg, Handled msg w1 ackDisposition, Acked msg None], Continue, w3)
                  | (Some err, w3) \<Rightarrow>
                      ([Fetched msg, Handled msg w1 ackDisposition, Acked msg (Some err)],
                       Stop (if isSet (kcnClosed k) w3 then None
                         else case ctx w3 of
                           Some e \<Rightarrow> Some e
                         | None \<Rightarrow> Some (Wrap ''failed to commit the offset %d of %s/%d: %w''
                             [FInt (kmOffset msg), FStr (kmTopic msg), FInt (kmPartition msg)] err)), w3))))"

definition KafkaConsumer_Consume :: "nat \<Rightarrow> 'w KafkaConsumer \<Rightarrow> 'w ctx \<Rightarrow>
    'w handler option \<Rightarrow> 'w \<Rightarrow> (kafka_message, 'w) act list \<times> go_error option option \<times> 'w" where
  "KafkaConsumer_Consume fuel k ctx handler w =
     (case handler of
        None \<Rightarrow> ([], Some (Some ErrNilHandler), w)
      | Some h \<Rightarrow> for_loop fuel (kafka_iteration k ctx h) w)"

definition KafkaConsumer_Close :: "'w KafkaConsumer \<Rightarrow> 'w \<Rightarrow> go_error option \<times> 'w" where
  "KafkaConsumer_Close k w =
     (if isSet (kcnClosed k) w then (None, w)
      else CloseReader (kcnReader k) (setFlag (kcnClosed k) w))"

section \<open>Lemmas\<close>

interpretation kafka: settling "kafka_iteration k ctx handler" kmValue ctx handler
  for k ctx handler
  by unfold_locales
    (auto simp: kafka_iteration_def one_message_def
      split: prod.splits sum.splits disposition.splits if_splits option.splits)

text \<open>
  How the broker keeps its place: \<open>pos\<close> is the next offset the reader hands out of a partition
  and \<open>com\<close> the committed offset of the group, where a new reader starts. Offsets come in
  increasing order, and committing a message moves the group past it.
\<close>

definition offsets_of :: "'w kafka_reader \<Rightarrow> 'w ctx \<Rightarrow> 'w handler \<Rightarrow>
    ('w \<Rightarrow> string \<times> int \<Rightarrow> int) \<Rightarrow> ('w \<Rightarrow> string \<times> int \<Rightarrow> int) \<Rightarrow> bool" where
  "offsets_of rd ctx handler pos com \<longleftrightarrow>
     (\<forall>w m w'. FetchMessage rd ctx w = (Inr m, w') \<longrightarrow>
        pos w (kmTopic m, kmPartition m) \<le> kmOffset m \<and>
        pos w' = (pos w)((kmTopic m, kmPartition m) := kmOffset m + 1) \<and> com w' = com w) \<and>
     (\<forall>w e w'. FetchMessage rd ctx w = (Inl e, w') \<longrightarrow> pos w' = pos w \<and> com w' = com w) \<and>
     (\<forall>m w w'. CommitMessages rd ctx m w = (None, w') \<longrightarrow>
        pos w' = pos w \<and> com w' = (com w)((kmTopic m, kmPartition m) := kmOffset m + 1)) \<and>
     (\<forall>m w e w'. CommitMessages rd ctx m w = (Some e, w') \<longrightarrow> pos w' = pos w \<and> com w' = com w) \<and>
     (\<forall>c ev w e w'. handler c ev w = (e, w') \<longrightarrow> pos w' = pos w \<and> com w' = com w)"

lemma offsets_ofD:
  assumes "offsets_of rd ctx handler pos com"
  shows "FetchMessage rd ctx w = (Inr m, w') \<Longrightarrow> pos w (kmTopic m, kmPartition m) \<le> kmOffset m \<and>
      pos w' = (pos w)((kmTopic m, kmPartition m) := kmOffset m + 1) \<and> com w' = com w"
    and "FetchMessage rd ctx w = (Inl e, w') \<Longrightarrow> pos w' = pos w \<and> com w' = com w"
    and "CommitMessages rd ctx m w = (None, w') \<Longrightarrow>
      pos w' = pos w \<and> com w' = (com w)((kmTopic m, kmPartition m) := kmOffset m + 1)"
    and "CommitMessages rd ctx m w = (Some e, w') \<Longrightarrow> pos w' = pos w \<and> com w' = com w"
    and "handler c ev w = (e', w') \<Longrightarrow> pos w' = pos w \<and> com w' = com w"
  using assms unfolding offsets_of_def by - blast+

lemma kafka_iteration_offsets:
  assumes off: "offsets_of (kcnReader k) ctx handler pos com"
    and it: "kafka_iteration k ctx handler w = (acts, e, w')"
  shows "acts = [] \<and> pos w' = pos w \<and> com w' = com w \<or>
    (\<exists>m v d. (acts = [Fetched m, Handled m v d] \<and> com w' = com w \<or>
         acts = [Fetched m, Handled m v ackDisposition, Acked m None] \<and>
           com w' = (com w)((kmTopic m, kmPartition m) := kmOffset m + 1) \<or>
         (\<exists>e. acts = [Fetched m, Handled m v ackDisposition, Acked m (Some e)]) \<and> com w' = com w) \<and>
       pos w (kmTopic m, kmPartition m) \<le> kmOffset m \<and>
       pos w' = (pos w)((kmTopic m, kmPartition m) := kmOffset m + 1))"
proof -
  have handled: "pos w2 = pos w1 \<and> com w2 = com w1"
    if "processMessage ctx handler p w1 = (d, w2)" for p w1 d w2
    using processMessage_frame [OF that, of pos] processMessage_frame [OF that, of com] offsets_ofD(5) [OF off]
    by blast
  show ?thesis
    using it unfolding kafka_iteration_def
    by (auto split: prod.splits sum.splits disposition.splits if_splits option.splits
        dest!: offsets_ofD(1-4) [OF off] handled)
qed

abbreviation partition_of :: "kafka_message \<Rightarrow> string \<times> int" where
  "partition_of m \<equiv> (kmTopic m, kmPartition m)"

text \<open>What the iterations of a run do to the two offsets, and where its messages lie between them.\<close>

definition offsets_run :: "('w \<Rightarrow> string \<times> int \<Rightarrow> int) \<Rightarrow> ('w \<Rightarrow> string \<times> int \<Rightarrow> int) \<Rightarrow>
    (kafka_message, 'w) act list \<Rightarrow> 'w \<Rightarrow> 'w \<Rightarrow> bool" where
  "offsets_run pos com acts w w' \<longleftrightarrow>
     (\<forall>p. pos w p \<le> pos w' p) \<and> (\<forall>p. com w p \<le> com w' p \<and> com w' p \<le> pos w' p) \<and>
     (\<forall>m v d. Handled m v d \<in> set acts \<longrightarrow> kmOffset m < pos w' (partition_of m)) \<and>
     (\<forall>m. Acked m None \<in> set acts \<longrightarrow> pos w (partition_of m) \<le> kmOffset m \<and> kmOffset m < com w' (partition_of m)) \<and>
     (\<forall>xs m v ys m'. acts = xs @ Handled m v retryDisposition # ys \<longrightarrow> Acked m' None \<in> set ys \<longrightarrow>
        partition_of m' = partition_of m \<longrightarrow> kmOffset m < com w' (partition_of m))"

lemma offsets_run_append:
  assumes "offsets_run pos com acts w w1" and "offsets_run pos com acts' w1 w'"
  shows "offsets_run pos com (acts @ acts') w w'"
proof -
  have "kmOffset m < com w' (partition_of m)"
    if eq: "acts @ acts' = xs @ Handled m v retryDisposition # ys"
      and ack: "Acked m' None \<in> set ys" and part: "partition_of m' = partition_of m" for xs m v ys m'
  proof (cases "length xs < length acts")
    case True
    then obtain zs where acts: "acts = xs @ Handled m v retryDisposition # zs" and ys: "ys = zs @ acts'"
      using eq by (auto simp: append_eq_append_conv2 append_eq_Cons_conv)
    show ?thesis
    proof (cases "Acked m' None \<in> set zs")
      case True
      with acts part assms(1) have "kmOffset m < com w1 (partition_of m)"
        unfolding offsets_run_def by blast
      also have "\<dots> \<le> com w' (partition_of m)" using assms(2) by (simp add: offsets_run_def)
      finally show ?thesis .
    next
      case False
      with ack ys have "Acked m' None \<in> set acts'" by auto
      moreover have "kmOffset m < pos w1 (partition_of m)"
        using assms(1) acts by (fastforce simp: offsets_run_def)
      ultimately show ?thesis using assms(2) part unfolding offsets_run_def by fastforce
    qed
  next
    case False
    then obtain zs where "acts' = zs @ Handled m v retryDisposition # ys"
      using eq by (auto simp: append_eq_append_conv2 append_eq_Cons_conv)
    with ack part assms(2) show ?thesis unfolding offsets_run_def by blast
  qed
  note lost = this
  have mono: "pos w p \<le> pos w1 p" "pos w1 p \<le> pos w' p" "com w p \<le> com w1 p" "com w1 p \<le> com w' p"
    "com w' p \<le> pos w' p" for p
    using assms by (simp_all add: offsets_run_def del: split_paired_All)
  have handled: "kmOffset m < pos w' (partition_of m)" if "Handled m v d \<in> set (acts @ acts')" for m v d
    using that assms mono(2) [of "partition_of m"] unfolding offsets_run_def set_append
    by (fastforce dest: less_le_trans)
  have acked: "pos w (partition_of m) \<le> kmOffset m \<and> kmOffset m < com w' (partition_of m)"
    if m: "Acked m None \<in> set (acts @ acts')" for m
  proof (cases "Acked m None \<in> set acts")
    case True
    with assms(1) have "pos w (partition_of m) \<le> kmOffset m" "kmOffset m < com w1 (partition_of m)"
      unfolding offsets_run_def by blast+
    with mono(4) [of "partition_of m"] show ?thesis by simp
  next
    case False
    with m have "Acked m None \<in> set acts'" by simp
    with assms(2) have "pos w1 (partition_of m) \<le> kmOffset m" "kmOffset m < com w' (partition_of m)"
      unfolding offsets_run_def by blast+
    with mono(1) [of "partition_of m"] show ?thesis by simp
  qed
  show ?thesis
    unfolding offsets_run_def using mono lost handled acked
    by (intro conjI allI impI) (blast intro: order_trans)+
qed

lemma kafka_iteration_offsets_run:
  assumes "offsets_of (kcnReader k) ctx handler pos com" and "\<forall>p. com w p \<le> pos w p"
    and "kafka_iteration k ctx handler w = (acts, e, w')"
  shows "offsets_run pos com acts w w'"
  using kafka_iteration_offsets [OF assms(1,3)]
proof (elim disjE exE conjE)
  fix m v d
  assume *: "acts = [Fetched m, Handled m v d]" "com w' = com w" "pos w (partition_of m) \<le> kmOffset m"
    "pos w' = (pos w)(partition_of m := kmOffset m + 1)"
  have "com w (partition_of m) \<le> kmOffset m" using assms(2) *(3) order_trans by blast
  with * assms(2) show ?thesis by (auto simp: offsets_run_def Cons_eq_append_conv)
next
  fix m v d
  assume *: "acts = [Fetched m, Handled m v ackDisposition, Acked m None]"
    "com w' = (com w)(partition_of m := kmOffset m + 1)" "pos w (partition_of m) \<le> kmOffset m"
    "pos w' = (pos w)(partition_of m := kmOffset m + 1)"
  have "com w (partition_of m) \<le> kmOffset m" using assms(2) *(3) order_trans by blast
  with * assms(2) show ?thesis by (auto simp: offsets_run_def Cons_eq_append_conv)
next
  fix m v d e
  assume *: "acts = [Fetched m, Handled m v ackDisposition, Acked m (Some e)]" "com w' = com w"
    "pos w (partition_of m) \<le> kmOffset m" "pos w' = (pos w)(partition_of m := kmOffset m + 1)"
  have "com w (partition_of m) \<le> kmOffset m" using assms(2) *(3) order_trans by blast
  with * assms(2) show ?thesis by (auto simp: offsets_run_def Cons_eq_append_conv)
qed (use assms(2) in \<open>auto simp: offsets_run_def\<close>)

lemma kafka_loop_offsets_run:
  assumes "offsets_of (kcnReader k) ctx handler pos com"
    and "for_loop n (kafka_iteration k ctx handler) w = (acts, r, w')" and "\<forall>p. com w p \<le> pos w p"
  shows "offsets_run pos com acts w w'"
proof -
  have "(\<forall>p. com w p \<le> pos w p) \<longrightarrow> offsets_run pos com acts w w'"
    using assms(2)
  proof (rule for_loop_induct)
    fix w acts w1 acts' r w'
    assume it: "kafka_iteration k ctx handler w = (acts, Continue, w1)"
      and IH: "(\<forall>p. com w1 p \<le> pos w1 p) \<longrightarrow> offsets_run pos com acts' w1 w'"
    show "(\<forall>p. com w p \<le> pos w p) \<longrightarrow> offsets_run pos com (acts @ acts') w w'"
    proof
      assume "\<forall>p. com w p \<le> pos w p"
      then have run: "offsets_run pos com acts w w1" by (rule kafka_iteration_offsets_run [OF assms(1) _ it])
      then have "\<forall>p. com w1 p \<le> pos w1 p" by (simp add: offsets_run_def del: split_paired_All)
      with IH run show "offsets_run pos com (acts @ acts') w w'" by (blast intro: offsets_run_append)
    qed
  next
    show "(\<forall>p. com w p \<le> pos w p) \<longrightarrow> offsets_run pos com [] w w" for w
      by (simp add: offsets_run_def)
  qed (blast intro: kafka_iteration_offsets_run [OF assms(1)])
  with assms(3) show ?thesis by blast
qed

section \<open>Properties\<close>

text \<open>
  C35. A rejected message is passed over once a later one of its partition is accepted. Kafka keeps
  one offset per partition: committing an accepted message moves the group past every earlier
  message of the partition, the rejected one included, so a restart does not read it again,
  contrary to what the comment of \<open>Consume\<close> promises.
\<close>

theorem kafka_commit_passes_rejected:
  assumes "offsets_of (kcnReader k) ctx handler pos com" and "\<forall>p. com w p \<le> pos w p"
    and "KafkaConsumer_Consume fuel k ctx (Some handler) w =
      (xs @ Handled m v retryDisposition # ys, r, w')"
    and "Acked m' None \<in> set ys" and "partition_of m' = partition_of m"
  shows "kmOffset m < com w' (partition_of m)"
proof -
  have "for_loop fuel (kafka_iteration k ctx handler) w = (xs @ Handled m v retryDisposition # ys, r, w')"
    using assms(3) by (simp add: KafkaConsumer_Consume_def)
  from kafka_loop_offsets_run [OF assms(1) this assms(2)] assms(4,5) show ?thesis
    unfolding offsets_run_def by blast
qed

text \<open>
  The witness: one partition with two messages, a handler that rejects the first, and a world of
  the next offset and the committed ones.
\<close>

definition two_messages :: "(nat \<times> (string \<times> int \<Rightarrow> int)) kafka_reader" where
  "two_messages =
     \<lparr>FetchMessage = (\<lambda>_ (n, com).
        if n < 2 then (Inr \<lparr>kmTopic = ''t'', kmPartition = 0, kmOffset = int n, kmValue = ''null''\<rparr>, n + 1, com)
        else (Inl IoEOF, n, com)),
      CommitMessages = (\<lambda>_ m (n, com). (None, n, com((kmTopic m, kmPartition m) := kmOffset m + 1))),
      CloseReader = (\<lambda>w. (None, w))\<rparr>"

definition two_consumer :: "(nat \<times> (string \<times> int \<Rightarrow> int)) KafkaConsumer" where
  "two_consumer =
     \<lparr>kcnCfg = \<lparr>kccBrokers = [''127.0.0.1:9092''], kccTopic = ''t'', kccGroup = ''g'', kccStartOffset = ''first''\<rparr>,
      kcnReader = two_messages, kcnClosed = \<lparr>isSet = (\<lambda>_. False), setFlag = (\<lambda>w. w)\<rparr>\<rparr>"

definition reject_first :: "(nat \<times> (string \<times> int \<Rightarrow> int)) handler" where
  "reject_first = (\<lambda>_ _ (n, com). (if n = 1 then Some IoEOF else None, n, com))"

theorem kafka_commit_passes_rejected_witness:
  "(0 :: int) < snd (2 :: nat, (\<lambda>_. 0)((''t'', 0) := 2)) (''t'', 0)"
proof -
  let ?m = "\<lambda>n. \<lparr>kmTopic = ''t'', kmPartition = 0, kmOffset = n, kmValue = ''null''\<rparr>"
  have run: "KafkaConsumer_Consume 3 two_consumer (\<lambda>_. None) (Some reject_first) (0, \<lambda>_. 0) =
    ([Fetched (?m 0)] @ Handled (?m 0) (1, \<lambda>_. 0) retryDisposition #
       [Fetched (?m 1), Handled (?m 1) (2, \<lambda>_. 0) ackDisposition, Acked (?m 1) None],
     Some None, 2, (\<lambda>_. 0)((''t'', 0) := 2))"
    by (simp add: KafkaConsumer_Consume_def numeral_3_eq_3 kafka_iteration_def two_consumer_def two_messages_def
        processMessage_def decodeEvent_def reject_first_def)
  have off: "offsets_of (kcnReader two_consumer) (\<lambda>_. None) reject_first
      (\<lambda>(n, com) p. if p = (''t'', 0) then int n else 0) snd"
    by (auto simp: offsets_of_def two_consumer_def two_messages_def reject_first_def fun_eq_iff split: if_splits)
  show ?thesis
    using kafka_commit_passes_rejected [OF off _ run, of "?m 1"] by simp
qed

end
