(* ===== verification/Consumer_Redis.thy ===== *)
theory Consumer_Redis
  imports Consumer_Core Producer_Simple
begin

text \<open>
  \<open>queue/consumer/redis.go\<close>: the consumer that pops a list, and the queue it forms with the Redis
  producer. The part of the Redis client used here is a record; \<open>time.Duration\<close> keeps its 64 bits.
\<close>

record 'w redis_reader =
  rrPing :: "'w \<Rightarrow> go_error option \<times> 'w"
  BRPop :: "'w ctx \<Rightarrow> duration \<Rightarrow> string \<Rightarrow> 'w \<Rightarrow> (go_error + string list) \<times> 'w"
  rrClose :: "'w \<Rightarrow> go_error option \<times> 'w"

record 'w RedisConsumer =
  rcnCfg :: RedisConsumerConfig
  rcnRdb :: "'w redis_reader"
  rcnTimeout :: duration
  rcnClosed :: "'w flag"

definition normalizeRedisConfig :: "RedisConsumerConfig \<Rightarrow> RedisConsumerConfig" where
  "normalizeRedisConfig cfg = (if rccKey cfg = '''' then cfg\<lparr>rccKey := ''cdc-trigger-events''\<rparr> else cfg)"

definition NewRedisConsumer :: "(string \<Rightarrow> string \<Rightarrow> int \<Rightarrow> 'w redis_reader) \<Rightarrow> 'w flag \<Rightarrow>
    RedisConsumerConfig \<Rightarrow> 'w \<Rightarrow> (go_error + 'w RedisConsumer) \<times> 'w" where
  "NewRedisConsumer NewClient closed cfg0 w =
     (let cfg = normalizeRedisConfig cfg0;
          rdb = NewClient (rccAddr cfg) (rccPassword cfg) (rccDB cfg) in
      case rrPing rdb w of
        (Some err, w1) \<Rightarrow> (Inl (Wrap ''failed to connect Redis: %w'' [] err), w1)
      | (None, w1) \<Rightarrow>
          (Inr \<lparr>rcnCfg = cfg, rcnRdb = rdb, rcnTimeout = word_of_int (rccTimeout cfg) * Second,
             rcnClosed = closed\<rparr>, w1))"

text \<open>One round of \<open>for\<close> in \<open>Consume\<close>: the two checks, the blocking pop, and the handler.\<close>

definition redis_iteration :: "'w RedisConsumer \<Rightarrow> 'w ctx \<Rightarrow> 'w handler \<Rightarrow> 'w \<Rightarrow>
    (string, 'w) act list \<times> loop_end \<times> 'w" where
  "redis_iteration r ctx handler w =
     (if isSet (rcnClosed r) w then ([], Stop None, w)
      else case ctx w of
        Some err \<Rightarrow> ([], Stop (Some err), w)
      | None \<Rightarrow>
          (case BRPop (rcnRdb r) ctx (rcnTimeout r) (rccKey (rcnCfg r)) w of
             (Inl err, w1) \<Rightarrow>
               if errors_Is err RedisNil then ([], Continue, w1)
               else if isSet (rcnClosed r) w1 then ([], Stop None, w1)
               else (case ctx w1 of
                   Some e \<Rightarrow> ([], Stop (Some e), w1)
                 | None \<Rightarrow> ([], Stop (Some (Wrap ''failed to read from Redis: %w'' [] err)), w1))
           | (Inr values, w1) \<Rightarrow>
               if length values \<noteq> 2 then ([], Continue, w1)
               else (case processMessage ctx handler (values ! 1) w1 of
                   (d, w2) \<Rightarrow> ([Fetched (values ! 1), Handled (values ! 1) w1 d], Continue, w2))))"

definition RedisConsumer_Consume :: "nat \<Rightarrow> 'w RedisConsumer \<Rightarrow> 'w ctx \<Rightarrow>
    'w handler option \<Rightarrow> 'w \<Rightarrow> (string, 'w) act list \<times> go_error option option \<times> 'w" where
  "RedisConsumer_Consume fuel r ctx handler w =
     (case handler of
        None \<Rightarrow> ([], Some (Some ErrNilHandler), w)
      | Some h \<Rightarrow> for_loop fuel (redis_iteration r ctx h) w)"

definition RedisConsumer_Close :: "'w RedisConsumer \<Rightarrow> 'w \<Rightarrow> go_error option \<times> 'w" where
  "RedisConsumer_Close r w =
     (if isSet (rcnClosed r) w then (None, w)
      else rrClose (rcnRdb r) (setFlag (rcnClosed r) w))"

section \<open>The queue of the two sides\<close>

text \<open>
  The list both sides are pointed at: \<open>LPUSH\<close> puts a value at the head of the list of a key,
  \<open>BRPOP\<close> takes the value at its tail, and the decision to stop does not touch it. \<open>q\<close> reads the list
  of the key in a world, and \<open>obs\<close> something of the world the client has no part in, such as the
  events the handler was given. The handler leaves the list alone and changes \<open>obs\<close> by \<open>step\<close>.
\<close>

definition redis_list :: "'w redis_client \<Rightarrow> 'w redis_reader \<Rightarrow> string \<Rightarrow> 'w ctx \<Rightarrow> 'w flag \<Rightarrow>
    ('w \<Rightarrow> string list) \<Rightarrow> ('w \<Rightarrow> 'o) \<Rightarrow> bool" where
  "redis_list push pop key ctx closed q obs \<longleftrightarrow>
     (\<forall>v w. \<exists>w'. LPush push ctx key v w = (None, w') \<and> q w' = v # q w \<and> obs w' = obs w) \<and>
     (\<forall>t w. q w \<noteq> [] \<longrightarrow> (\<exists>w'. BRPop pop ctx t key w = (Inr [key, last (q w)], w') \<and>
        q w' = butlast (q w) \<and> obs w' = obs w)) \<and>
     (\<forall>w. \<not> isSet closed w \<and> ctx w = None)"

definition observed :: "'w ctx \<Rightarrow> 'w handler \<Rightarrow> ('w \<Rightarrow> string list) \<Rightarrow> ('w \<Rightarrow> 'o) \<Rightarrow> (EventData \<Rightarrow> 'o \<Rightarrow> 'o) \<Rightarrow> bool" where
  "observed ctx handler q obs step \<longleftrightarrow>
     (\<forall>event w. \<exists>e w'. handler ctx event w = (e, w') \<and> q w' = q w \<and> obs w' = step event (obs w))"

abbreviation note_event :: "EventData \<Rightarrow> EventData list \<Rightarrow> EventData list" where
  "note_event event seen \<equiv> seen @ [event]"

lemma fold_note_event [simp]: "fold note_event es seen = seen @ es"
  by (induction es arbitrary: seen) simp_all

text \<open>The producer sends the events one after the other.\<close>

fun send_each :: "location \<Rightarrow> 'w RedisProducer \<Rightarrow> 'w ctx \<Rightarrow> EventData list \<Rightarrow> 'w \<Rightarrow>
    go_error option list \<times> 'w" where
  "send_each loc p ctx [] w = ([], w)"
| "send_each loc p ctx (e # es) w =
     (case RedisProducer_Send loc p ctx e w of
        (r, w1) \<Rightarrow> (case send_each loc p ctx es w1 of (rs, w2) \<Rightarrow> (r # rs, w2)))"

lemma send_each_queue:
  assumes "redis_list (rpRdb p) pop (rpKey p) ctx closed q obs"
    and "\<And>e. e \<in> set es \<Longrightarrow> sendable loc e"
  shows "\<exists>w'. send_each loc p ctx es w = (replicate (length es) None, w') \<and>
    q w' = rev (map (wire_text loc) es) @ q w \<and> obs w' = obs w"
  using assms(2)
proof (induction es arbitrary: w)
  case (Cons e es)
  have m: "marshal loc e = Inr (wire_text loc e)" using Cons.prems sendableD(1) by simp
  obtain w1 where push: "LPush (rpRdb p) ctx (rpKey p) (wire_text loc e) w = (None, w1)"
      "q w1 = wire_text loc e # q w" "obs w1 = obs w"
    using assms(1) unfolding redis_list_def by blast
  obtain w2 where "send_each loc p ctx es w1 = (replicate (length es) None, w2)"
      "q w2 = rev (map (wire_text loc) es) @ q w1" "obs w2 = obs w1"
    using Cons by (metis list.set_intros(2))
  with push m show ?case by (simp add: RedisProducer_Send_def)
qed simp

text \<open>One round takes the oldest value and gives its event to the handler.\<close>

lemma redis_iteration_pops:
  assumes "redis_list push (rcnRdb r) (rccKey (rcnCfg r)) ctx (rcnClosed r) q obs"
    and "observed ctx handler q obs step"
    and "q w \<noteq> []" and "unmarshal_event (last (q w)) = Inr e"
  shows "\<exists>acts w'. redis_iteration r ctx handler w = (acts, Continue, w') \<and>
    q w' = butlast (q w) \<and> obs w' = step e (obs w)"
proof -
  obtain w1 where pop: "BRPop (rcnRdb r) ctx (rcnTimeout r) (rccKey (rcnCfg r)) w =
      (Inr [rccKey (rcnCfg r), last (q w)], w1)" "q w1 = butlast (q w)" "obs w1 = obs w"
    using assms(1,3) unfolding redis_list_def by blast
  obtain err w2 where h: "handler ctx e w1 = (err, w2)" "q w2 = q w1" "obs w2 = step e (obs w1)"
    using assms(2) unfolding observed_def by blast
  have alive: "\<not> isSet (rcnClosed r) w" "ctx w = None" using assms(1) by (auto simp: redis_list_def)
  show ?thesis
    using pop h alive assms(4)
    by (cases err) (simp_all add: redis_iteration_def processMessage_def decodeEvent_def)
qed

lemma redis_loop_drains:
  assumes "redis_list push (rcnRdb r) (rccKey (rcnCfg r)) ctx (rcnClosed r) q obs"
    and "observed ctx handler q obs step"
    and "\<And>e. e \<in> set es \<Longrightarrow> sendable loc e" and "q w = rev (map (wire_text loc) es)"
  shows "\<exists>acts w'. for_loop (length es) (redis_iteration r ctx handler) w = (acts, None, w') \<and>
    q w' = [] \<and> obs w' = fold step (map wire_event es) (obs w)"
  using assms(3,4)
proof (induction es arbitrary: w)
  case (Cons e es)
  have "q w \<noteq> []" "last (q w) = wire_text loc e" "butlast (q w) = rev (map (wire_text loc) es)"
    using Cons.prems by simp_all
  moreover have "unmarshal_event (wire_text loc e) = Inr (wire_event e)" using Cons.prems(1) sendableD(2) by simp
  ultimately obtain acts w1 where it: "redis_iteration r ctx handler w = (acts, Continue, w1)"
      "q w1 = rev (map (wire_text loc) es)" "obs w1 = step (wire_event e) (obs w)"
    using redis_iteration_pops [OF assms(1,2), of w "wire_event e"] by auto
  obtain acts' w' where "for_loop (length es) (redis_iteration r ctx handler) w1 = (acts', None, w')"
      "q w' = []" "obs w' = fold step (map wire_event es) (obs w1)"
    using Cons.IH [of w1] Cons.prems(1) it(2) by auto
  with it show ?case by simp
qed simp

section \<open>Properties\<close>

text \<open>
  C16. The Redis list is a first-in first-out queue of events. Whatever events are sent into the
  empty list, every send reports success, and as many rounds of the consumer hand the events to
  the handler, each once and in the order they were sent, and leave the list empty. Each event
  arrives as the wire carries it (\<open>wire_event\<close>).
\<close>

theorem redis_queue_is_fifo:
  assumes "redis_list (rpRdb p) (rcnRdb r) (rpKey p) ctx (rcnClosed r) q seen"
    and "observed ctx handler q seen note_event" and "rccKey (rcnCfg r) = rpKey p" and "q w = []"
    and "\<And>e. e \<in> set es \<Longrightarrow> sendable loc e"
  shows "\<exists>w1 acts w2. send_each loc p ctx es w = (replicate (length es) None, w1) \<and>
    RedisConsumer_Consume (length es) r ctx (Some handler) w1 = (acts, None, w2) \<and>
    q w2 = [] \<and> seen w2 = seen w @ map wire_event es"
proof -
  obtain w1 where send: "send_each loc p ctx es w = (replicate (length es) None, w1)"
      "q w1 = rev (map (wire_text loc) es)" "seen w1 = seen w"
    using send_each_queue [OF assms(1) assms(5), of es w] assms(4) by auto
  have "redis_list (rpRdb p) (rcnRdb r) (rccKey (rcnCfg r)) ctx (rcnClosed r) q seen" using assms(1,3) by simp
  from redis_loop_drains [OF this assms(2,5) send(2)] send show ?thesis
    by (simp add: RedisConsumer_Consume_def)
qed

text \<open>
  The witness: a list as the world, and two events told apart by their position; the process runs
  in a location eight hours east of UTC.
\<close>

definition at_pos :: "int64 \<Rightarrow> EventData" where
  "at_pos n = zeroEvent\<lparr>ePos := n\<rparr>"

definition shanghai :: location where
  "shanghai = (\<lambda>_. 480)"

definition list_producer :: "(string list \<times> 'o) RedisProducer" where
  "list_producer =
     \<lparr>rpCfg = \<lparr>rcAddr = ''127.0.0.1:6379'', rcPassword = [], rcDB = 0, rcKey = ''events''\<rparr>,
      rpRdb = \<lparr>Ping = (\<lambda>w. (None, w)), LPush = (\<lambda>_ _ v (l, s). (None, v # l, s)), CloseRedis = (\<lambda>w. (None, w))\<rparr>,
      rpKey = ''events''\<rparr>"

definition list_consumer :: "(string list \<times> 'o) RedisConsumer" where
  "list_consumer =
     \<lparr>rcnCfg = \<lparr>rccAddr = ''127.0.0.1:6379'', rccPassword = [], rccDB = 0, rccKey = ''events'', rccTimeout = 5\<rparr>,
      rcnRdb = \<lparr>rrPing = (\<lambda>w. (None, w)),
        BRPop = (\<lambda>_ _ k (l, s). if l = [] then (Inl RedisNil, l, s) else (Inr [k, last l], butlast l, s)),
        rrClose = (\<lambda>w. (None, w))\<rparr>,
      rcnTimeout = 5 * Second, rcnClosed = \<lparr>isSet = (\<lambda>_. False), setFlag = (\<lambda>w. w)\<rparr>\<rparr>"

lemma sample_list:
  "redis_list (rpRdb list_producer) (rcnRdb list_consumer) (rpKey list_producer) (\<lambda>_. None) (rcnClosed list_consumer) fst snd"
  by (auto simp: redis_list_def list_producer_def list_consumer_def)

lemma sample_key: "rccKey (rcnCfg list_consumer) = rpKey list_producer"
  by (simp add: list_consumer_def list_producer_def)

lemma sendable_at_pos: "sendable shanghai (at_pos n)"
proof -
  have "civil (- 719162) = (1, 1, 1)" by code_simp
  moreover have "pad2 0 = ''00''" "pad2 1 = ''01''" "pad2 8 = ''08''" "pad4 1 = ''0001''" by code_simp+
  ultimately have "rfc3339_text 480 zero_time = Some ''0001-01-01T08:00:00+08:00''"
    by (simp add: rfc3339_text_def zero_time_def Let_def fraction_text_def zone_text_def)
  then show ?thesis
    by (simp add: sendable_def encodable_event_def wire_row_def at_pos_def zeroEvent_def zeroRow_def shanghai_def)
qed

lemma wire_at_pos: "wire_event (at_pos n) = at_pos n"
  by (simp add: wire_event_def at_pos_def zeroEvent_def zeroRow_def EventRowType_of_def EventRowType_string_def Let_def)

theorem redis_queue_is_fifo_witness:
  "\<exists>w1 acts w2.
    send_each shanghai list_producer (\<lambda>_. None) [at_pos 1, at_pos 2] ([], []) = ([None, None], w1) \<and>
    RedisConsumer_Consume 2 list_consumer (\<lambda>_. None) (Some (\<lambda>_ e (l, s). (None, l, s @ [e]))) w1
      = (acts, None, w2) \<and>
    fst w2 = [] \<and> snd w2 = [at_pos 1, at_pos 2]"
proof -
  have noted: "observed (\<lambda>_. None) (\<lambda>_ e (l, s). (None, l, s @ [e])) fst snd note_event" by (auto simp: observed_def)
  have "\<exists>w1 acts w2.
    send_each shanghai list_producer (\<lambda>_. None) [at_pos 1, at_pos 2] ([], []) =
      (replicate (length [at_pos 1, at_pos 2]) None, w1) \<and>
    RedisConsumer_Consume (length [at_pos 1, at_pos 2]) list_consumer (\<lambda>_. None)
      (Some (\<lambda>_ e (l, s). (None, l, s @ [e]))) w1 = (acts, None, w2) \<and>
    fst w2 = [] \<and> snd w2 = snd ([] :: string list, []) @ map wire_event [at_pos 1, at_pos 2]"
    by (rule redis_queue_is_fifo [OF sample_list noted sample_key]) (auto simp: sendable_at_pos)
  then show ?thesis by (simp add: numeral_2_eq_2 wire_at_pos)
qed

end
