(* ===== verification/Consumer_Pulsar.thy ===== *)
theory Consumer_Pulsar
  imports Consumer_Core Producer_Reconnect
begin

text \<open>
  \<open>queue/consumer/pulsar.go\<close>: the consumer of a Pulsar subscription, created on the first
  \<open>Consume\<close>. The client library is a record of the functions the code calls; a client and a
  consumer of the library are handles.
\<close>

section \<open>Configuration\<close>

datatype pulsar_subscription_type = Exclusive | Shared | Failover | KeyShared
datatype pulsar_initial_position = PositionLatest | PositionEarliest

definition subscriptionType :: "string \<Rightarrow> go_error + pulsar_subscription_type" where
  "subscriptionType name =
     (let s = fold_name name in
      if s \<in> {'''', ''shared''} then Inr Shared
      else if s = ''exclusive'' then Inr Exclusive
      else if s = ''failover'' then Inr Failover
      else if s \<in> {''key_shared'', ''keyshared''} then Inr KeyShared
      else Inl (ErrNew ''unsupported subscription_type %q: use exclusive, shared, failover or key_shared'' [FStr name]))"

definition initialPosition :: "string \<Rightarrow> go_error + pulsar_initial_position" where
  "initialPosition name =
     (let s = fold_name name in
      if s \<in> {'''', ''earliest''} then Inr PositionEarliest
      else if s = ''latest'' then Inr PositionLatest
      else Inl (ErrNew ''unsupported subscription_initial_position %q: use earliest or latest'' [FStr name]))"

definition clientOptions :: "PulsarConsumerConfig \<Rightarrow> pulsar_client_options" where
  "clientOptions cfg =
     \<lparr>pcoURL = plcURL cfg,
      pcoOperationTimeout = word_of_int (plcOperationTimeout cfg) * Second,
      pcoConnectionTimeout = word_of_int (plcConnectionTimeout cfg) * Second,
      pcoAuthentication = (if plcToken cfg \<noteq> '''' then Some (plcToken cfg) else None)\<rparr>"

record pulsar_consumer_options =
  coTopic :: string
  coSubscriptionName :: string
  coType :: pulsar_subscription_type
  coSubscriptionInitialPosition :: pulsar_initial_position
  coNackRedeliveryDelay :: duration

definition consumerOptions :: "PulsarConsumerConfig \<Rightarrow> go_error + pulsar_consumer_options" where
  "consumerOptions cfg =
     (case subscriptionType (plcSubscriptionType cfg) of
        Inl err \<Rightarrow> Inl err
      | Inr kind \<Rightarrow>
          (case initialPosition (plcSubscriptionInitialPosition cfg) of
             Inl err \<Rightarrow> Inl err
           | Inr position \<Rightarrow>
               Inr \<lparr>coTopic = plcTopic cfg, coSubscriptionName = plcSubscription cfg, coType = kind,
                 coSubscriptionInitialPosition = position,
                 coNackRedeliveryDelay = word_of_int (plcNackRedeliveryDelay cfg) * Second\<rparr>))"

section \<open>The consumer\<close>

record ('c, 'h, 'm, 'w) pulsar_consumer_lib =
  NewConsumerClient :: "pulsar_client_options \<Rightarrow> 'w \<Rightarrow> (go_error + 'c) \<times> 'w"
  Subscribe :: "'c \<Rightarrow> pulsar_consumer_options \<Rightarrow> 'w \<Rightarrow> (go_error + 'h) \<times> 'w"
  CloseConsumerClient :: "'c \<Rightarrow> 'w \<Rightarrow> 'w"
  Receive :: "'h \<Rightarrow> 'w ctx \<Rightarrow> 'w \<Rightarrow> (go_error + 'm) \<times> 'w"
  Payload :: "'m \<Rightarrow> string"
  Ack :: "'h \<Rightarrow> 'm \<Rightarrow> 'w \<Rightarrow> go_error option \<times> 'w"
  Nack :: "'h \<Rightarrow> 'm \<Rightarrow> 'w \<Rightarrow> 'w"
  CloseSubscription :: "'h \<Rightarrow> 'w \<Rightarrow> 'w"

record ('c, 'h) pulsar_consumer_state =
  pcsClosed :: bool
  pcsClient :: "'c option"
  pcsConsumer :: "'h option"

record ('c, 'h, 'w) PulsarConsumer =
  pcnCfg :: PulsarConsumerConfig
  pcnState :: "(('c, 'h) pulsar_consumer_state, 'w) guarded"
  pcnDialFn :: "('w \<Rightarrow> (go_error + 'c \<times> 'h) \<times> 'w) option"

definition NewPulsarConsumer :: "(('c, 'h) pulsar_consumer_state, 'w) guarded \<Rightarrow> PulsarConsumerConfig \<Rightarrow>
    go_error + ('c, 'h, 'w) PulsarConsumer" where
  "NewPulsarConsumer st cfg =
     (if plcTopic cfg = '''' then Inl (ErrNew ''the Pulsar consumer needs a topic'' [])
      else if plcSubscription cfg = '''' then Inl (ErrNew ''the Pulsar consumer needs a subscription name'' [])
      else case subscriptionType (plcSubscriptionType cfg) of
        Inl err \<Rightarrow> Inl err
      | Inr _ \<Rightarrow>
          (case initialPosition (plcSubscriptionInitialPosition cfg) of
             Inl err \<Rightarrow> Inl err
           | Inr _ \<Rightarrow> Inr \<lparr>pcnCfg = cfg, pcnState = st, pcnDialFn = None\<rparr>))"

definition pulsar_consumer_dial :: "('c, 'h, 'm, 'w) pulsar_consumer_lib \<Rightarrow> ('c, 'h, 'w) PulsarConsumer \<Rightarrow> 'w \<Rightarrow>
    (go_error + 'c \<times> 'h) \<times> 'w" where
  "pulsar_consumer_dial lib p w =
     (case pcnDialFn p of
        Some dialFn \<Rightarrow> dialFn w
      | None \<Rightarrow>
          (case consumerOptions (pcnCfg p) of
             Inl err \<Rightarrow> (Inl err, w)
           | Inr options \<Rightarrow>
               (case NewConsumerClient lib (clientOptions (pcnCfg p)) w of
                  (Inl err, w1) \<Rightarrow> (Inl err, w1)
                | (Inr client, w1) \<Rightarrow>
                    (case Subscribe lib client options w1 of
                       (Inl err, w2) \<Rightarrow>
                         (Inl (Wrap ''failed to subscribe to the topic %q: %w'' [FStr (plcTopic (pcnCfg p))] err),
                          CloseConsumerClient lib client w2)
                     | (Inr h, w2) \<Rightarrow> (Inr (client, h), w2)))))"

definition pulsar_subscription :: "('c, 'h, 'm, 'w) pulsar_consumer_lib \<Rightarrow> ('c, 'h, 'w) PulsarConsumer \<Rightarrow> 'w \<Rightarrow>
    (go_error + 'h) \<times> 'w" where
  "pulsar_subscription lib p w =
     (let s = peek (pcnState p) w in
      if pcsClosed s then (Inl (ErrNew ''the Pulsar consumer is closed'' []), w)
      else case pcsConsumer s of
        Some h \<Rightarrow> (Inr h, w)
      | None \<Rightarrow>
          (case pulsar_consumer_dial lib p w of
             (Inl err, w1) \<Rightarrow> (Inl err, w1)
           | (Inr (client, h), w1) \<Rightarrow>
               (Inr h, poke (pcnState p) (s\<lparr>pcsClient := Some client, pcsConsumer := Some h\<rparr>) w1)))"

text \<open>One round of \<open>for\<close> in \<open>Consume\<close>, on the subscription \<open>h\<close>.\<close>

definition pulsar_iteration :: "('c, 'h, 'm, 'w) pulsar_consumer_lib \<Rightarrow> ('c, 'h, 'w) PulsarConsumer \<Rightarrow>
    'h \<Rightarrow> 'w ctx \<Rightarrow> 'w handler \<Rightarrow> 'w \<Rightarrow> ('m, 'w) act list \<times> loop_end \<times> 'w" where
  "pulsar_iteration lib p h ctx handler w =
     (case Receive lib h ctx w of
        (Inl err, w1) \<Rightarrow>
          ([], Stop (if pcsClosed (peek (pcnState p) w1) then None
             else case ctx w1 of
               Some e \<Rightarrow> Some e
             | None \<Rightarrow> if errors_Is err PulsarTopicTerminated then None
                else Some (Wrap ''failed to receive from Pulsar: %w'' [] err)), w1)
      | (Inr msg, w1) \<Rightarrow>
          (case processMessage ctx handler (Payload lib msg) w1 of
             (retryDisposition, w2) \<Rightarrow>
               ([Fetched msg, Handled msg w1 retryDisposition, Nacked msg True None], Continue, Nack lib h msg w2)
           | (ackDisposition, w2) \<Rightarrow>
               (case Ack lib h msg w2 of
                  (Some err, w3) \<Rightarrow>
                    ([Fetched msg, Handled msg w1 ackDisposition, Acked msg (Some err)],
                     Stop (Some (Wrap ''failed to acknowledge a message: %w'' [] err)), w3)
                | (None, w3) \<Rightarrow>
                    ([Fetched msg, Handled msg w1 ackDisposition, Acked msg None], Continue, w3))))"

definition PulsarConsumer_Consume :: "nat \<Rightarrow> ('c, 'h, 'm, 'w) pulsar_consumer_lib \<Rightarrow>
    ('c, 'h, 'w) PulsarConsumer \<Rightarrow> 'w ctx \<Rightarrow> 'w handler option \<Rightarrow> 'w \<Rightarrow>
    ('m, 'w) act list \<times> go_error option option \<times> 'w" where
  "PulsarConsumer_Consume fuel lib p ctx handler w =
     (case handler of
        None \<Rightarrow> ([], Some (Some ErrNilHandler), w)
      | Some hdl \<Rightarrow>
          if pcsClosed (peek (pcnState p) w) then ([], Some None, w)
          else (case pulsar_subscription lib p w of
              (Inl err, w1) \<Rightarrow>
                ([], Some (if pcsClosed (peek (pcnState p) w1) then None else Some err), w1)
            | (Inr h, w1) \<Rightarrow> for_loop fuel (pulsar_iteration lib p h ctx hdl) w1))"

definition PulsarConsumer_Close :: "('c, 'h, 'm, 'w) pulsar_consumer_lib \<Rightarrow> ('c, 'h, 'w) PulsarConsumer \<Rightarrow> 'w \<Rightarrow>
    go_error option \<times> 'w" where
  "PulsarConsumer_Close lib p w =
     (let s = peek (pcnState p) w in
      if pcsClosed s then (None, w)
      else
        (let w1 = poke (pcnState p) \<lparr>pcsClosed = True, pcsClient = None, pcsConsumer = None\<rparr> w;
             w2 = (case pcsConsumer s of Some h \<Rightarrow> CloseSubscription lib h w1 | None \<Rightarrow> w1);
             w3 = (case pcsClient s of Some c \<Rightarrow> CloseConsumerClient lib c w2 | None \<Rightarrow> w2)
         in (None, w3)))"

interpretation pulsar_consumer: settling "pulsar_iteration lib p h ctx handler" "Payload lib"
  ctx handler
  for lib p h ctx handler
  by unfold_locales
    (auto simp: pulsar_iteration_def one_message_def
      split: prod.splits sum.splits disposition.splits if_splits option.splits)

text \<open>What the constructor accepted can always be turned into the options of a subscription.\<close>

lemma NewPulsarConsumer_options:
  "NewPulsarConsumer st cfg = Inr p \<Longrightarrow>
   \<exists>kind position. subscriptionType (plcSubscriptionType cfg) = Inr kind \<and>
     initialPosition (plcSubscriptionInitialPosition cfg) = Inr position \<and>
     consumerOptions (pcnCfg p) = Inr \<lparr>coTopic = plcTopic cfg, coSubscriptionName = plcSubscription cfg,
       coType = kind, coSubscriptionInitialPosition = position,
       coNackRedeliveryDelay = word_of_int (plcNackRedeliveryDelay cfg) * Second\<rparr>"
  by (auto simp: NewPulsarConsumer_def consumerOptions_def split: if_splits sum.splits)

end
