(* ===== verification/Consumer_Rabbit.thy ===== *)
theory Consumer_Rabbit
  imports Consumer_Core Rabbit_Producer
begin

text \<open>
  \<open>queue/consumer/rabbit.go\<close>: the consumer with explicit acknowledgements, which dials again when
  the broker closes its subscription. The AMQP library is the record of the producer's theory,
  extended with the methods only a consumer calls.

  The goroutine that closes the subscription when the context ends or \<open>Close\<close> is called is the
  watchdog: while a read waits, what it does reaches the loop as the end of the deliveries. When
  the loop ends, \<open>defer close(stop)\<close> races with the other two cases of its \<open>select\<close>; \<open>watchdog w\<close>
  says which case it takes when more than one is ready.
\<close>

record ('c, 'h, 'd, 'w) amqp_consumer_lib = "('c, 'h, 'w) amqp_lib" +
  Qos :: "'h \<Rightarrow> int \<Rightarrow> 'w \<Rightarrow> go_error option \<times> 'w"
  ConsumeQueue :: "'h \<Rightarrow> string \<Rightarrow> string \<Rightarrow> bool \<Rightarrow> bool \<Rightarrow> bool \<Rightarrow> 'w \<Rightarrow> go_error option \<times> 'w"
  nextDelivery :: "'h \<Rightarrow> 'w \<Rightarrow> 'd option \<times> 'w"
  deliveryBody :: "'d \<Rightarrow> string"
  deliveryAck :: "'d \<Rightarrow> bool \<Rightarrow> 'w \<Rightarrow> go_error option \<times> 'w"
  deliveryNack :: "'d \<Rightarrow> bool \<Rightarrow> bool \<Rightarrow> 'w \<Rightarrow> go_error option \<times> 'w"
  watchdog :: "'w \<Rightarrow> bool"

record ('c, 'h) amqpSubscription =
  asConn :: 'c
  asCh :: "'h option"

record ('c, 'h, 'w) RabbitMQConsumer =
  rbcConfig :: RabbitMQConsumerConfig
  rbcDialFn :: "('w \<Rightarrow> (go_error + ('c, 'h) amqpSubscription \<times> 'h) \<times> 'w) option"
  rbcClosed :: "'w flag"

definition normalizeRabbitConsumerConfig :: "RabbitMQConsumerConfig \<Rightarrow> RabbitMQConsumerConfig" where
  "normalizeRabbitConsumerConfig cfg =
     (let cfg1 = (if rmcRoutingKey cfg = '''' then cfg\<lparr>rmcRoutingKey := rmcQueue cfg\<rparr> else cfg)
      in if rmcExchangeType cfg1 = '''' then cfg1\<lparr>rmcExchangeType := ''direct''\<rparr> else cfg1)"

definition NewRabbitMQConsumer :: "'w flag \<Rightarrow> RabbitMQConsumerConfig \<Rightarrow> go_error + ('c, 'h, 'w) RabbitMQConsumer" where
  "NewRabbitMQConsumer closed cfg =
     Inr \<lparr>rbcConfig = normalizeRabbitConsumerConfig cfg, rbcDialFn = None, rbcClosed = closed\<rparr>"

section \<open>The subscription\<close>

definition subscription_next :: "('c, 'h, 'd, 'w) amqp_consumer_lib \<Rightarrow> 'h \<Rightarrow> 'w \<Rightarrow> (go_error + 'd) \<times> 'w" where
  "subscription_next lib ch w =
     (case nextDelivery lib ch w of
        (None, w1) \<Rightarrow> (Inl ErrDeliveriesClosed, w1)
      | (Some d, w1) \<Rightarrow> (Inr d, w1))"

definition subscription_close :: "('c, 'h, 'd, 'w) amqp_consumer_lib \<Rightarrow> ('c, 'h) amqpSubscription \<Rightarrow> 'w \<Rightarrow> 'w" where
  "subscription_close lib s w =
     (let w1 = (case asCh s of Some ch \<Rightarrow> closeChannel lib ch w | None \<Rightarrow> w)
      in closeConn lib (asConn s) w1)"

definition headers_consumer_refused :: "RabbitMQConsumerConfig \<Rightarrow> go_error" where
  "headers_consumer_refused cfg =
     ErrNew ''a %q exchange cannot be used as a consumer: the queue is bound with the routing key %q, while a headers exchange matches on message headers (use direct, fanout or topic)''
       [FStr (rmcExchangeType cfg), FStr (rmcRoutingKey cfg)]"

text \<open>
  \<open>dial\<close> step by step: the steps after the connection, of which a failure closes the
  subscription first.
\<close>

definition consumer_topology :: "('c, 'h, 'd, 'w) amqp_consumer_lib \<Rightarrow> RabbitMQConsumerConfig \<Rightarrow> 'h \<Rightarrow> 'w \<Rightarrow>
    go_error option \<times> 'w" where
  "consumer_topology lib cfg ch w =
     (case (if rmcExchange cfg \<noteq> '''' then
              ExchangeDeclare lib ch (rmcExchange cfg) (rmcExchangeType cfg) (rmcDurable cfg) (rmcAutoDelete cfg) w
            else (None, w)) of
        (Some err, w1) \<Rightarrow>
          (Some (Wrap ''failed to declare the exchange %q: %w'' [FStr (rmcExchange cfg)] err), w1)
      | (None, w1) \<Rightarrow>
       (case QueueDeclare lib ch (rmcQueue cfg) (rmcDurable cfg) (rmcAutoDelete cfg) (rmcExclusive cfg) (rmcNoWait cfg) w1 of
          (Some err, w2) \<Rightarrow>
            (Some (Wrap ''failed to declare the queue %q: %w'' [FStr (rmcQueue cfg)] err), w2)
        | (None, w2) \<Rightarrow>
         (case (if rmcExchange cfg \<noteq> '''' then
                  QueueBind lib ch (rmcQueue cfg) (rmcRoutingKey cfg) (rmcExchange cfg) (rmcNoWait cfg) w2
                else (None, w2)) of
            (Some err, w3) \<Rightarrow>
              (Some (Wrap ''failed to bind the queue %q to the exchange %q: %w''
                 [FStr (rmcQueue cfg), FStr (rmcExchange cfg)] err), w3)
          | (None, w3) \<Rightarrow>
           (case Qos lib ch (rmcPrefetch cfg) w3 of
              (Some err, w4) \<Rightarrow>
                (Some (Wrap ''failed to set the prefetch count to %d: %w'' [FInt (rmcPrefetch cfg)] err), w4)
            | (None, w4) \<Rightarrow>
             (case ConsumeQueue lib ch (rmcQueue cfg) (rmcConsumerTag cfg) False (rmcExclusive cfg) (rmcNoWait cfg) w4 of
                (Some err, w5) \<Rightarrow>
                  (Some (Wrap ''failed to consume from the queue %q: %w'' [FStr (rmcQueue cfg)] err), w5)
              | (None, w5) \<Rightarrow> (None, w5))))))"

definition rabbit_consumer_dial :: "('c, 'h, 'd, 'w) amqp_consumer_lib \<Rightarrow> ('c, 'h, 'w) RabbitMQConsumer \<Rightarrow> 'w \<Rightarrow>
    (go_error + ('c, 'h) amqpSubscription \<times> 'h) \<times> 'w" where
  "rabbit_consumer_dial lib r w =
     (case rbcDialFn r of Some dialFn \<Rightarrow> dialFn w | None \<Rightarrow>
      (let cfg = rbcConfig r in
      if rmcExchange cfg \<noteq> '''' \<and> rmcExchangeType cfg = ''headers'' then
        (Inl (headers_consumer_refused cfg), w)
      else case amqpDial lib (rmcURL cfg) w of
        (Inl err, w1) \<Rightarrow> (Inl (Wrap ''failed to connect to RabbitMQ: %w'' [] err), w1)
      | (Inr conn, w1) \<Rightarrow>
       (case openChannel lib conn w1 of
          (Inl err, w2) \<Rightarrow>
            (Inl (Wrap ''failed to open a channel: %w'' [] err),
             subscription_close lib \<lparr>asConn = conn, asCh = None\<rparr> w2)
        | (Inr ch, w2) \<Rightarrow>
         (let s = \<lparr>asConn = conn, asCh = Some ch\<rparr> in
          case consumer_topology lib cfg ch w2 of
            (Some err, w3) \<Rightarrow> (Inl err, subscription_close lib s w3)
          | (None, w3) \<Rightarrow> (Inr (s, ch), w3)))))"

section \<open>Consuming\<close>

definition rabbit_iteration :: "('c, 'h, 'd, 'w) amqp_consumer_lib \<Rightarrow> ('c, 'h, 'w) RabbitMQConsumer \<Rightarrow>
    'h \<Rightarrow> 'w ctx \<Rightarrow> 'w handler \<Rightarrow> 'w \<Rightarrow> ('d, 'w) act list \<times> loop_end \<times> 'w" where
  "rabbit_iteration lib r ch ctx handler w =
     (case subscription_next lib ch w of
        (Inl err, w1) \<Rightarrow> ([], Stop (Some err), w1)
      | (Inr msg, w1) \<Rightarrow>
          (case processMessage ctx handler (deliveryBody lib msg) w1 of
             (retryDisposition, w2) \<Rightarrow>
               (let requeue = \<not> rmcDropOnError (rbcConfig r) in
                case deliveryNack lib msg False requeue w2 of
                  (Some err, w3) \<Rightarrow>
                    ([Fetched msg, Handled msg w1 retryDisposition, Nacked msg requeue (Some err)],
                     Stop (Some (Wrap ''failed to leave a message for another attempt: %w'' [] err)), w3)
                | (None, w3) \<Rightarrow>
                    ([Fetched msg, Handled msg w1 retryDisposition, Nacked msg requeue None], Continue, w3))
           | (ackDisposition, w2) \<Rightarrow>
               (case deliveryAck lib msg False w2 of
                  (Some err, w3) \<Rightarrow>
                    ([Fetched msg, Handled msg w1 ackDisposition, Acked msg (Some err)],
                     Stop (Some (Wrap ''failed to acknowledge a message: %w'' [] err)), w3)
                | (None, w3) \<Rightarrow>
                    ([Fetched msg, Handled msg w1 ackDisposition, Acked msg None], Continue, w3))))"

definition rabbit_stopped :: "('c, 'h, 'w) RabbitMQConsumer \<Rightarrow> 'w ctx \<Rightarrow> 'w \<Rightarrow> bool" where
  "rabbit_stopped r ctx w \<longleftrightarrow> isSet (rbcClosed r) w \<or> ctx w \<noteq> None"

definition rabbit_consume :: "nat \<Rightarrow> ('c, 'h, 'd, 'w) amqp_consumer_lib \<Rightarrow> ('c, 'h, 'w) RabbitMQConsumer \<Rightarrow>
    ('c, 'h) amqpSubscription \<times> 'h \<Rightarrow> 'w ctx \<Rightarrow> 'w handler \<Rightarrow> 'w \<Rightarrow>
    ('d, 'w) act list \<times> go_error option option \<times> 'w" where
  "rabbit_consume fuel lib r sub ctx handler w =
     (case for_loop fuel (rabbit_iteration lib r (snd sub) ctx handler) w of
        (acts, None, w1) \<Rightarrow> (acts, None, w1)
      | (acts, Some err, w1) \<Rightarrow>
          (acts, Some err,
           if rabbit_stopped r ctx w1 \<and> watchdog lib w1 then subscription_close lib (fst sub) w1 else w1))"

text \<open>
  The \<open>for\<close> of \<open>Consume\<close> with at most \<open>n\<close> subscriptions, each read for at most \<open>fuel\<close> rounds.
\<close>

fun rabbit_subscriptions :: "nat \<Rightarrow> nat \<Rightarrow> ('c, 'h, 'd, 'w) amqp_consumer_lib \<Rightarrow>
    ('c, 'h, 'w) RabbitMQConsumer \<Rightarrow> 'w ctx \<Rightarrow> 'w handler \<Rightarrow> 'w \<Rightarrow>
    ('d, 'w) act list \<times> go_error option option \<times> 'w" where
  "rabbit_subscriptions 0 fuel lib r ctx handler w = ([], None, w)"
| "rabbit_subscriptions (Suc n) fuel lib r ctx handler w =
     (if isSet (rbcClosed r) w then ([], Some None, w)
      else case ctx w of
        Some err \<Rightarrow> ([], Some (Some err), w)
      | None \<Rightarrow>
       (case rabbit_consumer_dial lib r w of
          (Inl err, w1) \<Rightarrow> ([], Some (Some err), w1)
        | (Inr sub, w1) \<Rightarrow>
         (case rabbit_consume fuel lib r sub ctx handler w1 of
            (acts, None, w2) \<Rightarrow> (acts, None, w2)
          | (acts, Some err, w2) \<Rightarrow>
              if isSet (rbcClosed r) w2 then (acts, Some None, w2)
              else (case ctx w2 of
                  Some e \<Rightarrow> (acts, Some (Some e), w2)
                | None \<Rightarrow>
                    if (case err of None \<Rightarrow> True | Some e \<Rightarrow> errors_Is e ErrDeliveriesClosed) then
                      (case rabbit_subscriptions n fuel lib r ctx handler w2 of
                         (acts', res, w3) \<Rightarrow> (acts @ acts', res, w3))
                    else (acts, Some err, w2)))))"

definition RabbitMQConsumer_Consume :: "nat \<Rightarrow> nat \<Rightarrow> ('c, 'h, 'd, 'w) amqp_consumer_lib \<Rightarrow>
    ('c, 'h, 'w) RabbitMQConsumer \<Rightarrow> 'w ctx \<Rightarrow> 'w handler option \<Rightarrow> 'w \<Rightarrow>
    ('d, 'w) act list \<times> go_error option option \<times> 'w" where
  "RabbitMQConsumer_Consume n fuel lib r ctx handler w =
     (case handler of
        None \<Rightarrow> ([], Some (Some ErrNilHandler), w)
      | Some hdl \<Rightarrow> rabbit_subscriptions n fuel lib r ctx hdl w)"

text \<open>\<open>Close\<close> sets the flag and closes \<open>done\<close>, which wakes the watchdog; \<open>setFlag\<close> stands for both.\<close>

definition RabbitMQConsumer_Close :: "('c, 'h, 'w) RabbitMQConsumer \<Rightarrow> 'w \<Rightarrow> go_error option \<times> 'w" where
  "RabbitMQConsumer_Close r w =
     (if isSet (rbcClosed r) w then (None, w) else (None, setFlag (rbcClosed r) w))"

section \<open>Lemmas\<close>

interpretation rabbit_consumer: settling "rabbit_iteration lib r ch ctx handler" "deliveryBody lib"
  ctx handler
  for lib r ch ctx handler
  by unfold_locales
    (auto simp: rabbit_iteration_def one_message_def Let_def
      split: prod.splits sum.splits disposition.splits if_splits option.splits)

lemma rabbit_subscriptions_settle:
  assumes "rabbit_subscriptions n fuel lib r ctx handler w = (acts, res, w')"
  shows "before (rightly (deliveryBody lib) ctx handler) acts"
  using assms
proof (induction n arbitrary: w acts)
  case (Suc n)
  have inner: "before (rightly (deliveryBody lib) ctx handler) acts"
    if "rabbit_consume fuel lib r sub ctx handler w = (acts, res, w')" for sub w acts res w'
    using that rabbit_consumer.loop_settles
    by (auto simp: rabbit_consume_def split: prod.splits option.splits)
  show ?case
    using Suc.prems
    by (auto split: if_splits option.splits sum.splits prod.splits
        intro: inner before_append_local rightly_extend dest!: Suc.IH)
qed simp

text \<open>Why a subscription stops being read: the deliveries ended, or settling a message failed.\<close>

definition settle_failure :: "go_error \<Rightarrow> bool" where
  "settle_failure e \<longleftrightarrow>
     (\<exists>err. e = Wrap ''failed to leave a message for another attempt: %w'' [] err \<or>
        e = Wrap ''failed to acknowledge a message: %w'' [] err)"

lemma rabbit_consume_ends:
  assumes "rabbit_consume fuel lib r sub ctx handler w = (acts, Some res, w')"
  shows "\<exists>e. res = Some e \<and> (e = ErrDeliveriesClosed \<or> settle_failure e)"
proof -
  obtain w1 where "for_loop fuel (rabbit_iteration lib r (snd sub) ctx handler) w = (acts, Some res, w1)"
    using assms by (auto simp: rabbit_consume_def split: prod.splits option.splits)
  then obtain w0 acts0 where "rabbit_iteration lib r (snd sub) ctx handler w0 = (acts0, Stop res, w1)"
    by (metis for_loop_stopped)
  then show ?thesis
    by (auto simp: rabbit_iteration_def subscription_next_def settle_failure_def Let_def
        split: prod.splits sum.splits option.splits disposition.splits if_splits)
qed

section \<open>Properties\<close>

text \<open>
  C36. Why a consumption ends. It reports nil only after \<open>Close\<close>. Any error it reports is the
  context's, or the failure of a dial, the first one or one that follows a closed subscription,
  or the failure to settle a message: the end of the deliveries alone never ends it. A broker that
  is down while it restarts makes the next dial fail, and that ends the consumption.
\<close>

theorem rabbit_consumption_ends:
  assumes "RabbitMQConsumer_Consume n fuel lib r ctx (Some handler) w = (acts, Some res, w')"
  shows "res = None \<and> isSet (rbcClosed r) w' \<or>
    (\<exists>e. res = Some e \<and>
       (ctx w' = Some e \<or> (\<exists>w0. rabbit_consumer_dial lib r w0 = (Inl e, w')) \<or> settle_failure e))"
proof -
  have "rabbit_subscriptions n fuel lib r ctx handler w = (acts, Some res, w')"
    using assms by (simp add: RabbitMQConsumer_Consume_def)
  then show ?thesis
  proof (induction n arbitrary: w acts)
    case (Suc n)
    show ?case
      using Suc.prems
      by (fastforce split: if_splits option.splits sum.splits prod.splits dest: rabbit_consume_ends Suc.IH)
  qed simp
qed

text \<open>
  A library for the witnesses, of the world \<open>(open connections, dials)\<close>: the dials below \<open>up\<close>
  succeed, and every subscription is closed by the broker at once.
\<close>

definition restarting :: "nat \<Rightarrow> (unit, unit, string, int \<times> nat) amqp_consumer_lib" where
  "restarting up =
     \<lparr>amqpDial = (\<lambda>_ (c, n). if n < up then (Inr (), c + 1, n + 1) else (Inl IoEOF, c, n + 1)),
      openChannel = (\<lambda>_ w. (Inr (), w)), ExchangeDeclare = (\<lambda>_ _ _ _ _ w. (None, w)),
      QueueDeclare = (\<lambda>_ _ _ _ _ _ w. (None, w)), QueueBind = (\<lambda>_ _ _ _ _ w. (None, w)),
      ConfirmMode = (\<lambda>_ w. (None, w)), closeChannel = (\<lambda>_ w. w), closeConn = (\<lambda>_ (c, n). (c - 1, n)),
      Qos = (\<lambda>_ _ w. (None, w)), ConsumeQueue = (\<lambda>_ _ _ _ _ _ w. (None, w)),
      nextDelivery = (\<lambda>_ w. (None, w)), deliveryBody = (\<lambda>d. d), deliveryAck = (\<lambda>_ _ w. (None, w)),
      deliveryNack = (\<lambda>_ _ _ w. (None, w)), watchdog = (\<lambda>_. True)\<rparr>"

definition restarting_consumer :: "(unit, unit, int \<times> nat) RabbitMQConsumer" where
  "restarting_consumer =
     \<lparr>rbcConfig = \<lparr>rmcURL = '''', rmcExchange = '''', rmcExchangeType = ''direct'', rmcRoutingKey = ''q'',
        rmcQueue = ''q'', rmcDurable = True, rmcAutoDelete = False, rmcExclusive = False, rmcNoWait = False,
        rmcPrefetch = 1, rmcDropOnError = False, rmcConsumerTag = ''''\<rparr>,
      rbcDialFn = None, rbcClosed = \<lparr>isSet = (\<lambda>_. False), setFlag = (\<lambda>w. w)\<rparr>\<rparr>"

lemmas restarting_defs =
  restarting_def restarting_consumer_def rabbit_consumer_dial_def consumer_topology_def rabbit_consume_def
  rabbit_iteration_def subscription_next_def rabbit_stopped_def

theorem rabbit_consumption_ends_witness:
  "RabbitMQConsumer_Consume 3 2 (restarting 1) restarting_consumer (\<lambda>_. None)
     (Some (\<lambda>_ _ w. (None, w))) (0, 0) =
   ([], Some (Some (Wrap ''failed to connect to RabbitMQ: %w'' [] IoEOF)), 1, 2) \<and>
   (\<exists>w0. rabbit_consumer_dial (restarting 1) restarting_consumer w0 =
     (Inl (Wrap ''failed to connect to RabbitMQ: %w'' [] IoEOF), 1, 2))"
proof -
  let ?e = "Wrap ''failed to connect to RabbitMQ: %w'' [] IoEOF"
  have run: "RabbitMQConsumer_Consume 3 2 (restarting 1) restarting_consumer (\<lambda>_. None)
      (Some (\<lambda>_ _ w. (None, w))) (0, 0) = ([], Some (Some ?e), 1, 2)"
    by (simp add: RabbitMQConsumer_Consume_def numeral_3_eq_3 numeral_2_eq_2 restarting_defs)
  from rabbit_consumption_ends [OF run] have "\<exists>w0. rabbit_consumer_dial (restarting 1) restarting_consumer w0 = (Inl ?e, 1, 2)"
    by (simp add: settle_failure_def)
  with run show ?thesis by simp
qed

section \<open>The connections of the subscriptions\<close>

text \<open>
  The count of \<open>counts_connections\<close>, for what a consumer calls: the connections that were dialed
  and that the code has not closed.
\<close>

definition counts_consumer_connections :: "('c, 'h, 'd, 'w) amqp_consumer_lib \<Rightarrow> 'w handler \<Rightarrow> ('w \<Rightarrow> int) \<Rightarrow> bool" where
  "counts_consumer_connections lib handler conns \<longleftrightarrow>
     (\<forall>url w e w'. amqpDial lib url w = (Inl e, w') \<longrightarrow> conns w' = conns w) \<and>
     (\<forall>url w c w'. amqpDial lib url w = (Inr c, w') \<longrightarrow> conns w' = conns w + 1) \<and>
     (\<forall>c w. conns (closeConn lib c w) = conns w - 1) \<and>
     (\<forall>ch w. conns (closeChannel lib ch w) = conns w) \<and>
     (\<forall>c w rc w'. openChannel lib c w = (rc, w') \<longrightarrow> conns w' = conns w) \<and>
     (\<forall>ch x t d a w re w'. ExchangeDeclare lib ch x t d a w = (re, w') \<longrightarrow> conns w' = conns w) \<and>
     (\<forall>ch q d a ex n w re w'. QueueDeclare lib ch q d a ex n w = (re, w') \<longrightarrow> conns w' = conns w) \<and>
     (\<forall>ch q k x n w re w'. QueueBind lib ch q k x n w = (re, w') \<longrightarrow> conns w' = conns w) \<and>
     (\<forall>ch n w re w'. Qos lib ch n w = (re, w') \<longrightarrow> conns w' = conns w) \<and>
     (\<forall>ch q t a ex n w re w'. ConsumeQueue lib ch q t a ex n w = (re, w') \<longrightarrow> conns w' = conns w) \<and>
     (\<forall>ch w d w'. nextDelivery lib ch w = (d, w') \<longrightarrow> conns w' = conns w) \<and>
     (\<forall>d m w re w'. deliveryAck lib d m w = (re, w') \<longrightarrow> conns w' = conns w) \<and>
     (\<forall>d m q w re w'. deliveryNack lib d m q w = (re, w') \<longrightarrow> conns w' = conns w) \<and>
     (\<forall>c ev w re w'. handler c ev w = (re, w') \<longrightarrow> conns w' = conns w)"

lemma counts_consumerD:
  assumes "counts_consumer_connections lib handler conns"
  shows "amqpDial lib url w = (Inl e, w') \<Longrightarrow> conns w' = conns w"
    and "amqpDial lib url w = (Inr c, w') \<Longrightarrow> conns w' = conns w + 1"
    and "conns (closeConn lib c w) = conns w - 1" and "conns (closeChannel lib ch w) = conns w"
    and "openChannel lib c w = (rc, w') \<Longrightarrow> conns w' = conns w"
    and "ExchangeDeclare lib ch x t d a w = (re, w') \<Longrightarrow> conns w' = conns w"
    and "QueueDeclare lib ch q d a ex n w = (re, w') \<Longrightarrow> conns w' = conns w"
    and "QueueBind lib ch q k x n w = (re, w') \<Longrightarrow> conns w' = conns w"
    and "Qos lib ch p w = (re, w') \<Longrightarrow> conns w' = conns w"
    and "ConsumeQueue lib ch q t a ex n w = (re, w') \<Longrightarrow> conns w' = conns w"
    and "nextDelivery lib ch w = (dl, w') \<Longrightarrow> conns w' = conns w"
    and "deliveryAck lib del m w = (re, w') \<Longrightarrow> conns w' = conns w"
    and "deliveryNack lib del m rq w = (re, w') \<Longrightarrow> conns w' = conns w"
    and "handler cx ev w = (re, w') \<Longrightarrow> conns w' = conns w"
  using assms unfolding counts_consumer_connections_def by - (elim conjE, (fast | simp))+

lemma consumer_topology_conns:
  assumes "counts_consumer_connections lib handler conns" and "consumer_topology lib cfg ch w = (e, w')"
  shows "conns w' = conns w"
  using assms(2) unfolding consumer_topology_def
  by (auto split: if_splits prod.splits option.splits dest!: counts_consumerD(6-10) [OF assms(1)])

text \<open>A dial that fails closes the connection it made; one that succeeds keeps it.\<close>

lemma rabbit_consumer_dial_conns:
  assumes "counts_consumer_connections lib handler conns" and "rbcDialFn r = None"
    and "rabbit_consumer_dial lib r w = (x, w')"
  shows "conns w' = conns w + (case x of Inl _ \<Rightarrow> 0 | Inr _ \<Rightarrow> 1)"
  using assms(2,3) unfolding rabbit_consumer_dial_def Let_def
  by (auto simp: subscription_close_def Let_def counts_consumerD(3,4) [OF assms(1)]
      split: if_splits prod.splits sum.splits option.splits
      dest!: counts_consumerD(1,2,5) [OF assms(1)] consumer_topology_conns [OF assms(1)])

lemma rabbit_iteration_conns:
  assumes "counts_consumer_connections lib handler conns"
    and "rabbit_iteration lib r ch ctx handler w = (acts, e, w')"
  shows "conns w' = conns w"
proof -
  have handled: "conns w2 = conns w1"
    if "processMessage ctx handler p w1 = (d, w2)" for p w1 d w2
    using processMessage_frame [OF that, of conns] counts_consumerD(14) [OF assms(1)] by blast
  show ?thesis
    using assms(2) unfolding rabbit_iteration_def subscription_next_def Let_def
    by (auto split: prod.splits sum.splits option.splits disposition.splits if_splits
        dest!: handled counts_consumerD(11-13) [OF assms(1)])
qed

lemma rabbit_loop_conns:
  assumes "counts_consumer_connections lib handler conns"
    and "for_loop n (rabbit_iteration lib r ch ctx handler) w = (acts, e, w')"
  shows "conns w' = conns w"
  using assms(2) by (rule for_loop_induct) (auto dest!: rabbit_iteration_conns [OF assms(1)])

text \<open>
  C37. A consumption survives any number of subscriptions the broker closes, as long as the dials
  succeed: it dials again every time and is still consuming. But it never closes the connection of
  the subscription it leaves: after \<open>n\<close> of them, \<open>n\<close> more connections were dialed and not closed.
  A broker that ended only the channel, because the queue was deleted for instance, keeps them
  all open.
\<close>

theorem rabbit_redials_and_leaks:
  assumes "counts_consumer_connections lib handler conns" and "rbcDialFn r = None"
    and "\<And>w. \<not> rabbit_stopped r ctx w"
    and "\<And>w. \<exists>sub w'. rabbit_consumer_dial lib r w = (Inr sub, w')"
    and "\<And>ch w. \<exists>acts w'. for_loop fuel (rabbit_iteration lib r ch ctx handler) w =
      (acts, Some (Some ErrDeliveriesClosed), w')"
  shows "\<exists>acts w'. RabbitMQConsumer_Consume n fuel lib r ctx (Some handler) w = (acts, None, w') \<and>
    conns w' = conns w + int n"
proof -
  have alive: "\<not> isSet (rbcClosed r) w" "ctx w = None" for w
    using assms(3) [of w] by (auto simp: rabbit_stopped_def)
  have "\<exists>acts w'. rabbit_subscriptions n fuel lib r ctx handler w = (acts, None, w') \<and>
      conns w' = conns w + int n"
  proof (induction n arbitrary: w)
    case (Suc n)
    obtain sub w1 where dial: "rabbit_consumer_dial lib r w = (Inr sub, w1)" using assms(4) by blast
    obtain acts w2 where loop: "for_loop fuel (rabbit_iteration lib r (snd sub) ctx handler) w1 =
        (acts, Some (Some ErrDeliveriesClosed), w2)"
      using assms(5) by blast
    obtain acts' w' where rest: "rabbit_subscriptions n fuel lib r ctx handler w2 = (acts', None, w')"
        "conns w' = conns w2 + int n"
      using Suc.IH by blast
    have "conns w2 = conns w + 1"
      using rabbit_loop_conns [OF assms(1) loop] rabbit_consumer_dial_conns [OF assms(1,2) dial] by simp
    then show ?case
      using dial loop rest alive [of w] alive [of w2] by (simp add: rabbit_consume_def rabbit_stopped_def)
  qed simp
  then show ?thesis by (simp add: RabbitMQConsumer_Consume_def)
qed

theorem rabbit_redials_and_leaks_witness:
  "\<exists>acts w'. RabbitMQConsumer_Consume 5 1
     ((restarting 0)\<lparr>amqpDial := \<lambda>_ (c, n). (Inr (), c + 1, n + 1)\<rparr>) restarting_consumer (\<lambda>_. None)
     (Some (\<lambda>_ _ w. (None, w))) (0, 0) = (acts, None, w') \<and> fst w' = fst (0 :: int, 0 :: nat) + int 5"
  by (rule rabbit_redials_and_leaks [where conns = fst])
    (auto simp: counts_consumer_connections_def restarting_defs numeral_2_eq_2)

end
