(* ===== verification/Consumer_Rocket.thy ===== *)
theory Consumer_Rocket
  imports Consumer_Core Producer_Reconnect
begin

text \<open>
  \<open>queue/consumer/rocket.go\<close>: the push consumer, which hands batches to a callback. The client
  library is a record of the functions the code calls.
\<close>

section \<open>Configuration\<close>

datatype consume_from_where = ConsumeFromFirstOffset | ConsumeFromLastOffset

definition consumeFromWhere :: "string \<Rightarrow> go_error + consume_from_where" where
  "consumeFromWhere name =
     (let s = fold_name name in
      if s \<in> {'''', ''first_offset'', ''first'', ''earliest''} then Inr ConsumeFromFirstOffset
      else if s \<in> {''last_offset'', ''last'', ''latest''} then Inr ConsumeFromLastOffset
      else Inl (ErrNew ''unsupported consume_from_where %q: use first_offset or last_offset'' [FStr name]))"

datatype rocket_consumer_option =
    ConsumerGroupName string
  | ConsumerNsResolver "string list"
  | ConsumerModelClustering
  | ConsumerConsumeFromWhere consume_from_where
  | ConsumerConsumeGoroutineNums int
  | ConsumerNamespace string
  | ConsumerCredentials string string

definition buildConsumerOptions :: "RocketMQConsumerConfig \<Rightarrow> consume_from_where \<Rightarrow> rocket_consumer_option list" where
  "buildConsumerOptions cfg fromWhere =
     [ConsumerGroupName (rkcGroup cfg), ConsumerNsResolver (rkcServers cfg), ConsumerModelClustering,
      ConsumerConsumeFromWhere fromWhere, ConsumerConsumeGoroutineNums (rkcConsumeGoroutineNums cfg)]
     @ (if rkcNamespace cfg \<noteq> '''' then [ConsumerNamespace (rkcNamespace cfg)] else [])
     @ (if rkcAccessKey cfg \<noteq> '''' \<and> rkcSecretKey cfg \<noteq> ''''
        then [ConsumerCredentials (rkcAccessKey cfg) (rkcSecretKey cfg)] else [])"

datatype consume_result = ConsumeSuccess | ConsumeRetryLater

text \<open>
  \<open>SubscribePush\<close> is given the callback; \<open>await_stop\<close> is the \<open>select\<close> of \<open>Consume\<close>: the world in which
  the context or \<open>done\<close> has ended it, after whatever the library delivered in the meantime.
\<close>

record ('p, 'm, 'w) rocket_consumer_lib =
  NewPushConsumer :: "rocket_consumer_option list \<Rightarrow> 'w \<Rightarrow> (go_error + 'p) \<times> 'w"
  SubscribePush :: "'p \<Rightarrow> string \<Rightarrow> ('w ctx \<Rightarrow> 'm list \<Rightarrow> 'w \<Rightarrow> consume_result \<times> 'w) \<Rightarrow> 'w \<Rightarrow> go_error option \<times> 'w"
  StartPush :: "'p \<Rightarrow> 'w \<Rightarrow> go_error option \<times> 'w"
  ShutdownPush :: "'p \<Rightarrow> 'w \<Rightarrow> go_error option \<times> 'w"
  messageBody :: "'m \<Rightarrow> string"
  await_stop :: "'w ctx \<Rightarrow> 'w \<Rightarrow> 'w"

record ('p, 'w) RocketMQConsumer =
  rkcnCfg :: RocketMQConsumerConfig
  rkcnOptions :: "rocket_consumer_option list"
  rkcnNewPushConsumerFn :: "(rocket_consumer_option list \<Rightarrow> 'w \<Rightarrow> (go_error + 'p) \<times> 'w) option"
  rkcnClosed :: "'w flag"

definition NewRocketMQConsumer :: "'w flag \<Rightarrow> RocketMQConsumerConfig \<Rightarrow> go_error + ('p, 'w) RocketMQConsumer" where
  "NewRocketMQConsumer closed cfg =
     (if length (rkcServers cfg) = 0 then
        Inl (ErrNew ''the RocketMQ consumer needs at least one entry in servers'' [])
      else if rkcTopic cfg = '''' then Inl (ErrNew ''the RocketMQ consumer needs a topic'' [])
      else if rkcGroup cfg = '''' then Inl (ErrNew ''the RocketMQ consumer needs a group'' [])
      else case consumeFromWhere (rkcConsumeFromWhere cfg) of
        Inl err \<Rightarrow> Inl err
      | Inr fromWhere \<Rightarrow>
          Inr \<lparr>rkcnCfg = cfg, rkcnOptions = buildConsumerOptions cfg fromWhere,
            rkcnNewPushConsumerFn = None, rkcnClosed = closed\<rparr>)"

section \<open>Consuming\<close>

text \<open>The callback: the messages of the batch in their order, up to the first rejected one.\<close>

fun rocket_callback :: "('p, 'm, 'w) rocket_consumer_lib \<Rightarrow> 'w handler \<Rightarrow> 'w ctx \<Rightarrow>
    'm list \<Rightarrow> 'w \<Rightarrow> consume_result \<times> 'w" where
  "rocket_callback lib handler ctx [] w = (ConsumeSuccess, w)"
| "rocket_callback lib handler ctx (msg # msgs) w =
     (case processMessage ctx handler (messageBody lib msg) w of
        (retryDisposition, w1) \<Rightarrow> (ConsumeRetryLater, w1)
      | (ackDisposition, w1) \<Rightarrow> rocket_callback lib handler ctx msgs w1)"

definition newPushConsumer :: "('p, 'm, 'w) rocket_consumer_lib \<Rightarrow> ('p, 'w) RocketMQConsumer \<Rightarrow> 'w \<Rightarrow>
    (go_error + 'p) \<times> 'w" where
  "newPushConsumer lib r w =
     (case rkcnNewPushConsumerFn r of
        Some f \<Rightarrow> f (rkcnOptions r) w
      | None \<Rightarrow>
          (case NewPushConsumer lib (rkcnOptions r) w of
             (Inl err, w1) \<Rightarrow> (Inl (Wrap ''failed to create the RocketMQ consumer: %w'' [] err), w1)
           | (Inr push, w1) \<Rightarrow> (Inr push, w1)))"

definition RocketMQConsumer_Consume :: "('p, 'm, 'w) rocket_consumer_lib \<Rightarrow>
    ('p, 'w) RocketMQConsumer \<Rightarrow> 'w ctx \<Rightarrow> 'w handler option \<Rightarrow> 'w \<Rightarrow> go_error option \<times> 'w" where
  "RocketMQConsumer_Consume lib r ctx handler w =
     (case handler of
        None \<Rightarrow> (Some ErrNilHandler, w)
      | Some hdl \<Rightarrow>
          if isSet (rkcnClosed r) w then (None, w)
          else (case newPushConsumer lib r w of
              (Inl err, w1) \<Rightarrow> (Some err, w1)
            | (Inr push, w1) \<Rightarrow>
             (case SubscribePush lib push (rkcTopic (rkcnCfg r)) (rocket_callback lib hdl) w1 of
                (Some err, w2) \<Rightarrow>
                  (Some (Wrap ''failed to subscribe to the topic %q: %w'' [FStr (rkcTopic (rkcnCfg r))] err), w2)
              | (None, w2) \<Rightarrow>
               (case StartPush lib push w2 of
                  (Some err, w3) \<Rightarrow> (Some (Wrap ''failed to start the RocketMQ consumer: %w'' [] err), w3)
                | (None, w3) \<Rightarrow>
                    (let w4 = await_stop lib ctx w3;
                         w5 = snd (ShutdownPush lib push w4) in
                     if isSet (rkcnClosed r) w5 then (None, w5) else (ctx w5, w5))))))"

definition RocketMQConsumer_Close :: "('p, 'w) RocketMQConsumer \<Rightarrow> 'w \<Rightarrow> go_error option \<times> 'w" where
  "RocketMQConsumer_Close r w =
     (if isSet (rkcnClosed r) w then (None, w) else (None, setFlag (rkcnClosed r) w))"

section \<open>Properties\<close>

text \<open>
  C38. A batch is acknowledged as a whole exactly when every message of it was accepted (or is no
  event), each in the world its predecessors left. Otherwise it is asked for again, and the call
  ends with the first message the handler rejected: the ones behind it are not handed out.
\<close>

theorem rocket_batch_acknowledged:
  "(fst (rocket_callback lib handler ctx msgs w) = ConsumeSuccess \<longleftrightarrow>
     (\<forall>k < length msgs.
        fst (processMessage ctx handler (messageBody lib (msgs ! k))
          (snd (rocket_callback lib handler ctx (take k msgs) w))) = ackDisposition)) \<and>
   (rocket_callback lib handler ctx msgs w = (ConsumeRetryLater, w') \<longleftrightarrow>
     (\<exists>k < length msgs.
        fst (rocket_callback lib handler ctx (take k msgs) w) = ConsumeSuccess \<and>
        processMessage ctx handler (messageBody lib (msgs ! k))
          (snd (rocket_callback lib handler ctx (take k msgs) w)) = (retryDisposition, w')))"
proof (induction msgs arbitrary: w)
  case (Cons m msgs)
  obtain d w1 where p: "processMessage ctx handler (messageBody lib m) w = (d, w1)" by fastforce
  show ?case
  proof (cases d)
    case ackDisposition
    with p Cons.IH [of w1] show ?thesis
      by (simp add: All_less_Suc2 Ex_less_Suc2)
  next
    case retryDisposition
    with p show ?thesis by (simp add: All_less_Suc2 Ex_less_Suc2)
  qed
qed simp

theorem rocket_batch_acknowledged_witness:
  "fst (rocket_callback
     \<lparr>NewPushConsumer = (\<lambda>_ w. (Inr (), w)), SubscribePush = (\<lambda>_ _ _ w. (None, w)),
       StartPush = (\<lambda>_ w. (None, w)), ShutdownPush = (\<lambda>_ w. (None, w)), messageBody = (\<lambda>m :: string. m),
       await_stop = (\<lambda>_ w. w)\<rparr>
     (\<lambda>_ _ n. (if n = 1 then Some IoEOF else None, n + 1)) (\<lambda>_. None) [''null'', [], ''null'', ''null''] (0 :: nat))
   \<noteq> ConsumeSuccess"
  unfolding rocket_batch_acknowledged [THEN conjunct1]
  by (auto intro!: exI [of _ 2] simp: processMessage_def decodeEvent_def numeral_2_eq_2)

end
