(* ===== verification/Consumers.thy ===== *)
theory Consumers
  imports Consumer_Kafka Consumer_Redis Consumer_Pulsar Consumer_Rabbit Consumer_Rocket
begin

text \<open>
  What the consumers of \<open>queue/consumer\<close> have in common: the discipline of their acknowledgements,
  which the three interpretations of \<open>settling\<close> give, and the contract of \<open>IConsumer.Consume\<close> on
  how a consumption ends.
\<close>

text \<open>
  Consumers for the witnesses. The world counts the messages read; there is one, and reading it
  finds that \<open>Close\<close> was called.
\<close>

definition closed_after_one :: "nat flag" where
  "closed_after_one = \<lparr>isSet = (\<lambda>n. 0 < n), setFlag = Suc\<rparr>"

definition sample_redis :: "nat RedisConsumer" where
  "sample_redis =
     \<lparr>rcnCfg = \<lparr>rccAddr = ''a'', rccPassword = [], rccDB = 0, rccKey = ''k'', rccTimeout = 5\<rparr>,
      rcnRdb = \<lparr>rrPing = (\<lambda>w. (None, w)), BRPop = (\<lambda>_ _ _ n. (Inl IoEOF, Suc n)), rrClose = (\<lambda>w. (None, w))\<rparr>,
      rcnTimeout = 5 * Second, rcnClosed = closed_after_one\<rparr>"

definition sample_message :: kafka_message where
  "sample_message = \<lparr>kmTopic = ''t'', kmPartition = 0, kmOffset = 7, kmValue = ''null''\<rparr>"

lemma sample_message_value [simp]: "kmValue sample_message = ''null''"
  by (simp add: sample_message_def)

definition sample_kafka :: "nat KafkaConsumer" where
  "sample_kafka =
     \<lparr>kcnCfg = \<lparr>kccBrokers = [''b''], kccTopic = ''t'', kccGroup = ''g'', kccStartOffset = ''first''\<rparr>,
      kcnReader = \<lparr>FetchMessage = (\<lambda>_ n. (Inr sample_message, Suc n)),
        CommitMessages = (\<lambda>_ _ n. (Some IoEOF, n)), CloseReader = (\<lambda>w. (None, w))\<rparr>,
      kcnClosed = closed_after_one\<rparr>"

definition sample_pulsar_lib :: "(unit, unit, string, nat) pulsar_consumer_lib" where
  "sample_pulsar_lib =
     \<lparr>NewConsumerClient = (\<lambda>_ w. (Inr (), w)), Subscribe = (\<lambda>_ _ w. (Inr (), w)), CloseConsumerClient = (\<lambda>_ w. w),
      Receive = (\<lambda>_ _ n. (Inr ''null'', Suc n)), Payload = (\<lambda>m. m), Ack = (\<lambda>_ _ n. (Some IoEOF, n)),
      Nack = (\<lambda>_ _ w. w), CloseSubscription = (\<lambda>_ w. w)\<rparr>"

definition sample_pulsar :: "(unit, unit, nat) PulsarConsumer" where
  "sample_pulsar =
     \<lparr>pcnCfg = \<lparr>plcURL = ''u'', plcTopic = ''t'', plcSubscription = ''s'', plcSubscriptionType = [],
        plcSubscriptionInitialPosition = [], plcToken = [], plcOperationTimeout = 30, plcConnectionTimeout = 30,
        plcNackRedeliveryDelay = 0\<rparr>,
      pcnState = \<lparr>peek = (\<lambda>n. \<lparr>pcsClosed = 0 < n, pcsClient = Some (), pcsConsumer = Some ()\<rparr>), poke = (\<lambda>_ w. w)\<rparr>,
      pcnDialFn = None\<rparr>"

definition sample_rabbit_lib :: "(unit, unit, string, nat) amqp_consumer_lib" where
  "sample_rabbit_lib =
     \<lparr>amqpDial = (\<lambda>_ w. (Inr (), w)),
      openChannel = (\<lambda>_ w. (Inr (), w)), ExchangeDeclare = (\<lambda>_ _ _ _ _ w. (None, w)),
      QueueDeclare = (\<lambda>_ _ _ _ _ _ w. (None, w)), QueueBind = (\<lambda>_ _ _ _ _ w. (None, w)),
      ConfirmMode = (\<lambda>_ w. (None, w)), closeChannel = (\<lambda>_ w. w), closeConn = (\<lambda>_ w. w),
      Qos = (\<lambda>_ _ w. (None, w)), ConsumeQueue = (\<lambda>_ _ _ _ _ _ w. (None, w)),
      nextDelivery = (\<lambda>_ n. (if n = 0 then Some ''null'' else None, Suc n)), deliveryBody = (\<lambda>d. d),
      deliveryAck = (\<lambda>_ _ w. (None, w)), deliveryNack = (\<lambda>_ _ _ w. (None, w)), watchdog = (\<lambda>_. True)\<rparr>"

definition sample_rabbit :: "(unit, unit, nat) RabbitMQConsumer" where
  "sample_rabbit =
     \<lparr>rbcConfig = rbcConfig restarting_consumer, rbcDialFn = Some (\<lambda>w. (Inr (\<lparr>asConn = (), asCh = Some ()\<rparr>, ()), w)),
      rbcClosed = closed_after_one\<rparr>"

lemmas sample_defs =
  sample_redis_def sample_kafka_def sample_pulsar_lib_def sample_pulsar_def sample_rabbit_lib_def sample_rabbit_def
  closed_after_one_def RedisConsumer_Consume_def KafkaConsumer_Consume_def PulsarConsumer_Consume_def
  RabbitMQConsumer_Consume_def redis_iteration_def kafka_iteration_def pulsar_iteration_def pulsar_subscription_def
  rabbit_iteration_def rabbit_consume_def rabbit_consumer_dial_def subscription_next_def subscription_close_def
  rabbit_stopped_def processMessage_def decodeEvent_def numeral_2_eq_2

abbreviation accept_all :: "nat handler" where
  "accept_all \<equiv> \<lambda>_ _ n. (None, n)"

lemma sample_runs:
  "RedisConsumer_Consume 2 sample_redis (\<lambda>_. None) (Some accept_all) 0 = ([], Some None, 1)"
  "KafkaConsumer_Consume 2 sample_kafka (\<lambda>_. None) (Some accept_all) 0 =
    ([Fetched sample_message, Handled sample_message 1 ackDisposition, Acked sample_message (Some IoEOF)], Some None, 1)"
  "PulsarConsumer_Consume 2 sample_pulsar_lib sample_pulsar (\<lambda>_. None) (Some accept_all) 0 =
    ([Fetched ''null'', Handled ''null'' 1 ackDisposition, Acked ''null'' (Some IoEOF)],
     Some (Some (Wrap ''failed to acknowledge a message: %w'' [] IoEOF)), 1)"
  "RabbitMQConsumer_Consume 2 2 sample_rabbit_lib sample_rabbit (\<lambda>_. None) (Some accept_all) 0 =
    ([Fetched ''null'', Handled ''null'' 1 ackDisposition, Acked ''null'' None], Some None, 2)"
  by (simp_all add: sample_defs)

section \<open>Acknowledgements\<close>

text \<open>
  C5. No event is acknowledged unless it was handled. In any run of the Kafka, the Pulsar and the
  RabbitMQ consumer, a message is acknowledged (its offset committed) only directly after the
  handler was given its event and accepted it, or when its payload is no event; and a message is
  given back only directly after the handler rejected it.
\<close>

theorem acknowledged_means_handled:
  assumes "KafkaConsumer_Consume n k ctx (Some handler) w = (kacts, kr, kw)"
    and "PulsarConsumer_Consume n plib p ctx (Some handler) w = (pacts, pr, pw)"
    and "RabbitMQConsumer_Consume j n rlib r ctx (Some handler) w = (racts, rr, rw)"
  shows "before (rightly kmValue ctx handler) kacts \<and>
    before (rightly (Payload plib) ctx handler) pacts \<and>
    before (rightly (deliveryBody rlib) ctx handler) racts"
proof (intro conjI)
  show "before (rightly kmValue ctx handler) kacts"
    using assms(1) by (auto simp: KafkaConsumer_Consume_def intro: kafka.loop_settles)
  show "before (rightly (Payload plib) ctx handler) pacts"
    using assms(2) by (auto simp: PulsarConsumer_Consume_def intro: pulsar_consumer.loop_settles
        split: if_splits prod.splits sum.splits)
  show "before (rightly (deliveryBody rlib) ctx handler) racts"
    using assms(3) by (auto simp: RabbitMQConsumer_Consume_def intro: rabbit_subscriptions_settle)
qed

theorem acknowledged_means_handled_witness:
  "before (rightly kmValue (\<lambda>_. None) accept_all)
     [Fetched sample_message, Handled sample_message 1 ackDisposition, Acked sample_message (Some IoEOF)] \<and>
   before (rightly (Payload sample_pulsar_lib) (\<lambda>_. None) accept_all)
     [Fetched ''null'', Handled ''null'' 1 ackDisposition, Acked ''null'' (Some IoEOF)] \<and>
   before (rightly (deliveryBody sample_rabbit_lib) (\<lambda>_. None) accept_all)
     [Fetched ''null'', Handled ''null'' 1 ackDisposition, Acked ''null'' None]"
  by (rule acknowledged_means_handled [OF sample_runs(2-4)])

section \<open>How a consumption ends\<close>

lemma redis_iteration_ends:
  assumes "redis_iteration c ctx handler w = (acts, Stop res, w')"
  shows "(isSet (rcnClosed c) w' \<longrightarrow> res = None) \<and>
    (\<not> isSet (rcnClosed c) w' \<longrightarrow> res \<noteq> None \<and> (ctx w' = None \<or> res = ctx w'))"
  using assms by (auto simp: redis_iteration_def dest: sym split: if_splits prod.splits sum.splits option.splits)

lemma kafka_iteration_ends:
  assumes "kafka_iteration k ctx handler w = (acts, Stop res, w')"
  shows "(isSet (kcnClosed k) w' \<longrightarrow> res = None) \<and>
    (\<not> isSet (kcnClosed k) w' \<longrightarrow> ctx w' = None \<or> res = ctx w')"
  using assms by (auto simp: kafka_iteration_def
      split: if_splits prod.splits sum.splits option.splits disposition.splits)

definition pulsar_ack_failure :: "go_error option \<Rightarrow> bool" where
  "pulsar_ack_failure res \<longleftrightarrow> (\<exists>err. res = Some (Wrap ''failed to acknowledge a message: %w'' [] err))"

lemma pulsar_iteration_ends:
  assumes "pulsar_iteration lib p h ctx handler w = (acts, Stop res, w')"
  shows "pulsar_ack_failure res \<or>
     (pcsClosed (peek (pcnState p) w') \<longrightarrow> res = None) \<and>
     (\<not> pcsClosed (peek (pcnState p) w') \<longrightarrow> ctx w' = None \<or> res = ctx w')"
  using assms by (auto simp: pulsar_iteration_def pulsar_ack_failure_def
      split: if_splits prod.splits sum.splits option.splits disposition.splits)

text \<open>
  C34. The contract of \<open>Consume\<close> on shutdown, for the consumers that loop on their own. A
  consumption that ends after \<open>Close\<close> reports nil, and one that ends in a canceled context reports
  the context's error. The Redis and the Kafka consumer keep it in every case; the Pulsar consumer
  keeps it once it has its subscription, unless an acknowledgement failed: that it reports as an
  error even after \<open>Close\<close>.
\<close>

theorem shutdown_reported:
  assumes "RedisConsumer_Consume n c ctx (Some handler) w1 = (cacts, Some cr, cw)"
    and "KafkaConsumer_Consume n k ctx (Some handler) w2 = (kacts, Some kr, kw)"
    and "PulsarConsumer_Consume n lib p ctx (Some handler) w3 = (pacts, Some pr, pw)"
  shows "(isSet (rcnClosed c) cw \<longrightarrow> cr = None) \<and>
    (\<not> isSet (rcnClosed c) cw \<longrightarrow> cr \<noteq> None \<and> (ctx cw = None \<or> cr = ctx cw)) \<and>
    (isSet (kcnClosed k) kw \<longrightarrow> kr = None) \<and>
    (\<not> isSet (kcnClosed k) kw \<longrightarrow> ctx kw = None \<or> kr = ctx kw) \<and>
    (pulsar_ack_failure pr \<or>
       (pcsClosed (peek (pcnState p) pw) \<longrightarrow> pr = None) \<and>
       (\<not> pcsClosed (peek (pcnState p) pw) \<longrightarrow> ctx pw = None \<or> pr = ctx pw \<or>
          (\<exists>err. pr = Some err \<and> pulsar_subscription lib p w3 = (Inl err, pw))))"
proof -
  have c: "(isSet (rcnClosed c) cw \<longrightarrow> cr = None) \<and>
      (\<not> isSet (rcnClosed c) cw \<longrightarrow> cr \<noteq> None \<and> (ctx cw = None \<or> cr = ctx cw))"
    using for_loop_stopped [of n "redis_iteration c ctx handler" w1 cacts cr cw] assms(1)
      redis_iteration_ends [of c ctx handler _ _ cr cw]
    by (auto simp: RedisConsumer_Consume_def)
  have k: "(isSet (kcnClosed k) kw \<longrightarrow> kr = None) \<and> (\<not> isSet (kcnClosed k) kw \<longrightarrow> ctx kw = None \<or> kr = ctx kw)"
    using for_loop_stopped [of n "kafka_iteration k ctx handler" w2 kacts kr kw] assms(2)
      kafka_iteration_ends [of k ctx handler _ _ kr kw]
    by (auto simp: KafkaConsumer_Consume_def)
  have loop: "pulsar_ack_failure pr \<or>
     (pcsClosed (peek (pcnState p) pw) \<longrightarrow> pr = None) \<and>
     (\<not> pcsClosed (peek (pcnState p) pw) \<longrightarrow> ctx pw = None \<or> pr = ctx pw)"
    if "for_loop n (pulsar_iteration lib p h ctx handler) w = (pacts, Some pr, pw)" for h w
    using for_loop_stopped [OF that] pulsar_iteration_ends [of lib p h ctx handler _ _ pr pw] by blast
  have "pulsar_ack_failure pr \<or>
       (pcsClosed (peek (pcnState p) pw) \<longrightarrow> pr = None) \<and>
       (\<not> pcsClosed (peek (pcnState p) pw) \<longrightarrow> ctx pw = None \<or> pr = ctx pw \<or>
          (\<exists>err. pr = Some err \<and> pulsar_subscription lib p w3 = (Inl err, pw)))"
    using assms(3) loop by (fastforce simp: PulsarConsumer_Consume_def split: if_splits prod.splits sum.splits)
  with c k show ?thesis by blast
qed

theorem shutdown_reported_witness:
  "isSet closed_after_one 1 \<and> (None :: go_error option) = None \<and>
   pulsar_ack_failure (Some (Wrap ''failed to acknowledge a message: %w'' [] IoEOF)) \<and>
   pcsClosed (peek (pcnState sample_pulsar) 1)"
  using shutdown_reported [OF sample_runs(1-3)]
  by (simp add: pulsar_ack_failure_def closed_after_one_def sample_pulsar_def)

end
