(* ===== verification/Wire_Rows.thy ===== *)
theory Wire_Rows
  imports Source_Rows Consumer_Redis Task_Runner
begin

text \<open>
  What a captured row is on the wire, and what a task is told of it: \<open>OnRow\<close> and \<open>rowToMap\<close> of the
  source, the encoding, the queue, the decoding, and the key value the runner reads.
\<close>

section \<open>Captured rows can be sent\<close>

text \<open>
  A cell the binlog library hands over: a scalar \<open>encoding/json\<close> supports. Of the bytes of a number
  column only the words for an infinity and a NaN are excluded.
\<close>

definition cell_fits :: "column_type \<Rightarrow> go_val \<Rightarrow> bool" where
  "cell_fits ty raw \<longleftrightarrow>
     wire_cell raw \<and> encodable raw \<and>
     (case raw of VBytes b \<Rightarrow> ty \<in> {TYPE_FLOAT, TYPE_DECIMAL} \<longrightarrow> special_word b = None | _ \<Rightarrow> True)"

fun row_fits :: "TableColumn list \<Rightarrow> go_val list \<Rightarrow> bool" where
  "row_fits (col # cols) (raw # row) \<longleftrightarrow> cell_fits (colType col) raw \<and> row_fits cols row"
| "row_fits _ _ \<longleftrightarrow> True"

definition rows_fit :: "RowsEvent \<Rightarrow> bool" where
  "rows_fit e \<longleftrightarrow>
     list_all (\<lambda>col. valid_utf8 (colName col)) (reColumns e) \<and> list_all (row_fits (reColumns e)) (reRows e)"

lemma row_fitsD: "row_fits cols row \<Longrightarrow> j < length cols \<Longrightarrow> cell_fits (colType (cols ! j)) (cell row j)"
proof (induction cols row arbitrary: j rule: row_fits.induct)
  case (1 col cols raw row)
  then show ?case
  proof (cases j)
    case (Suc k)
    with 1 have "cell_fits (colType (cols ! k)) (cell row k)" by simp
    moreover have "cell (raw # row) (Suc k) = cell row k" by (simp add: cell_def)
    ultimately show ?thesis using Suc by simp
  qed (simp add: cell_def)
qed (auto simp: cell_def cell_fits_def wire_cell_def)

text \<open>A float that was read is finite unless it is a word.\<close>

lemma sign_bit_mod:
  assumes "n < 2047 * 2 ^ 52" shows "unat (word_of_nat (sign_bit s + n) :: 64 word) mod 2 ^ 63 = n"
proof -
  have "sign_bit s + n < 2 ^ 64" using assms by (simp add: sign_bit_def)
  then have "unat (word_of_nat (sign_bit s + n) :: 64 word) = sign_bit s + n" by (simp add: unsigned_of_nat take_bit_nat_eq_self del: of_nat_add)
  then show ?thesis using assms by (simp add: sign_bit_def del: of_nat_add)
qed

lemma ParseFloat_finite:
  assumes "ParseFloat b = Some w" and "special_word b = None" shows "encodable (VFloat64 w)"
proof -
  from assms obtain s n where "w = word_of_nat (sign_bit s + n)" "n < infinity_bits"
    unfolding ParseFloat_def Let_def
    by (auto simp: not_le simp del: of_nat_add split: prod.splits option.splits if_splits)
  then show ?thesis using sign_bit_mod [of n s] by (simp add: infinity_bits_def del: of_nat_add)
qed

lemma convert_fits:
  assumes "cell_fits ty raw" shows "wire_cell (convert ty raw)" and "encodable (convert ty raw)"
proof -
  have "wire_cell (convert ty raw) \<and> encodable (convert ty raw)"
  proof (cases raw)
    case (VBytes b)
    have "wire_cell (convert ty (VBytes b))"
      by (cases ty) (auto simp: convert_def column_defs wire_cell_def split: option.split dest: ParseInt_range)
    moreover have "encodable (convert ty (VBytes b))"
      using assms VBytes
      by (cases ty) (auto simp: convert_def column_defs cell_fits_def split: option.split
          dest: time_Parse_in_range ParseFloat_finite simp del: encodable.simps(2))
    ultimately show ?thesis using VBytes by simp
  qed (use assms in \<open>auto simp: cell_fits_def convert_other\<close>)
  then show "wire_cell (convert ty raw)" "encodable (convert ty raw)" by simp_all
qed

lemma rowToMap_fits:
  assumes "row_fits cols row" and "list_all (\<lambda>col. valid_utf8 (colName col)) cols"
  shows "wire_row (rowToMap row cols)" and "fmpred (\<lambda>_. encodable) (rowToMap row cols)"
proof -
  have step: "(\<forall>j<length cols. cell_fits (colType (cols ! j)) (cell row (i + j))) \<Longrightarrow>
      list_all (\<lambda>col. valid_utf8 (colName col)) cols \<Longrightarrow> fmpred (\<lambda>k v. valid_utf8 k \<and> wire_cell v \<and> encodable v) m \<Longrightarrow>
      fmpred (\<lambda>k v. valid_utf8 k \<and> wire_cell v \<and> encodable v) (rowLoop row i cols m)" for i m
  proof (induction cols arbitrary: i m)
    case (Cons col cols)
    have "cell_fits (colType col) (cell row i)" using Cons.prems(1) by force
    then have "fmpred (\<lambda>k v. valid_utf8 k \<and> wire_cell v \<and> encodable v) (fmupd (colName col) (convert (colType col) (cell row i)) m)"
      using Cons.prems(2,3) convert_fits by (intro fmpred_upd) auto
    moreover have "\<forall>j<length cols. cell_fits (colType (cols ! j)) (cell row (Suc i + j))" using Cons.prems(1) by force
    ultimately show ?case using Cons.IH Cons.prems(2) by (simp add: rowLoop_step del: rowLoop.simps(2))
  qed simp
  from step [of 0 fmempty] row_fitsD [OF assms(1)] assms(2)
  have "fmpred (\<lambda>k v. valid_utf8 k \<and> wire_cell v \<and> encodable v) (rowToMap row cols)" by (simp add: rowToMap_def)
  then show "wire_row (rowToMap row cols)" "fmpred (\<lambda>_. encodable) (rowToMap row cols)"
    by (auto simp: wire_row_def fmpred_iff)
qed

lemma row_round_rows:
  assumes "i < length (reRows e)" and "ev = fst (row_round now e i)"
  shows "eTime ev = now i" and "rData (eRow ev) \<in> (\<lambda>row. rowToMap row (reColumns e)) ` set (reRows e)"
    and "rOld (eRow ev) \<in> insert fmempty ((\<lambda>row. rowToMap row (reColumns e)) ` set (reRows e))"
  using assms by (auto simp: row_round_def change_event_def Let_def split: row_action.split)

lemma row_events_rounds:
  "ev \<in> set (row_events now e i) \<Longrightarrow> \<exists>j < length (reRows e). ev = fst (row_round now e j)"
proof (induction now e i rule: row_events.induct)
  case (1 now e i)
  then show ?case by (subst (asm) (2) row_events.simps) (auto split: if_splits)
qed

text \<open>What the process has to be given: rows that fit, and a clock in the range of RFC 3339.\<close>

definition capturable :: "location \<Rightarrow> (nat \<Rightarrow> go_time) \<Rightarrow> RowsEvent \<Rightarrow> bool" where
  "capturable loc now e \<longleftrightarrow>
     rows_fit e \<and> list_all (\<lambda>i. rfc3339_text (loc (now i)) (now i) \<noteq> None) [0..<length (reRows e)]"

lemma captured_rows_sendable:
  assumes "capturable loc now e" and "ev \<in> set (row_events now e 0)"
  shows "sendable loc ev"
proof -
  obtain j where j: "j < length (reRows e)" "ev = fst (row_round now e j)"
    using row_events_rounds [OF assms(2)] by blast
  have fits: "wire_row m \<and> fmpred (\<lambda>_. encodable) m"
    if "m \<in> insert fmempty ((\<lambda>row. rowToMap row (reColumns e)) ` set (reRows e))" for m
    using that assms(1) rowToMap_fits [of "reColumns e"]
    by (auto simp: capturable_def rows_fit_def list_all_iff wire_row_def)
  have "rfc3339_text (loc (now j)) (now j) \<noteq> None"
    using assms(1) j(1) by (simp add: capturable_def list_all_iff)
  with row_round_rows [OF j] fits show ?thesis
    by (simp add: sendable_def encodable_event_def)
qed

text \<open>The way from the rows to what the handler makes of their events.\<close>

lemma captured_rows_handled:
  assumes "redis_list (rpRdb p) (rcnRdb r) (rpKey p) ctx (rcnClosed r) q obs" and "observed ctx handler q obs step"
    and "rccKey (rcnCfg r) = rpKey p" and "q w = []" and "capturable loc now e"
  shows "\<exists>w1 acts w2. let es = row_events now e 0 in
    send_each loc p ctx es w = (replicate (length es) None, w1) \<and>
    RedisConsumer_Consume (length es) r ctx (Some handler) w1 = (acts, None, w2) \<and>
    q w2 = [] \<and> obs w2 = fold step (map wire_event es) (obs w)"
proof -
  let ?es = "row_events now e 0"
  have sendable: "\<And>ev. ev \<in> set ?es \<Longrightarrow> sendable loc ev" using captured_rows_sendable [OF assms(5)] .
  obtain w1 where send: "send_each loc p ctx ?es w = (replicate (length ?es) None, w1)"
      "q w1 = rev (map (wire_text loc) ?es)" "obs w1 = obs w"
    using send_each_queue [OF assms(1) sendable, of ?es w] assms(4) by auto
  have "redis_list (rpRdb p) (rcnRdb r) (rccKey (rcnCfg r)) ctx (rcnClosed r) q obs" using assms(1,3) by simp
  from redis_loop_drains [OF this assms(2) sendable send(2)] send show ?thesis
    by (simp add: RedisConsumer_Consume_def Let_def)
qed

section \<open>Properties\<close>

text \<open>
  A captured change reaches the handler. Of the rows of a binlog rows event, whose columns are
  named in UTF-8 and whose cells are scalars JSON can carry, none fails to be sent: every send of
  the events \<open>OnRow\<close> makes of it into an empty Redis list succeeds, and as many rounds of the
  consumer give the handler these events, each once and in order, as the wire carries them.
\<close>

lemma captured_rows_reach_handler:
  assumes "redis_list (rpRdb p) (rcnRdb r) (rpKey p) ctx (rcnClosed r) q seen" and "observed ctx handler q seen note_event"
    and "rccKey (rcnCfg r) = rpKey p" and "q w = []" and "capturable loc now e"
  shows "\<exists>w1 acts w2. let es = row_events now e 0 in
    send_each loc p ctx es w = (replicate (length es) None, w1) \<and>
    RedisConsumer_Consume (length es) r ctx (Some handler) w1 = (acts, None, w2) \<and>
    q w2 = [] \<and> seen w2 = seen w @ map wire_event es"
  using captured_rows_handled [OF assms] by simp

text \<open>The witness: a user is inserted with an identifier, a name and a price, in Shanghai.\<close>

definition user_rows :: RowsEvent where
  "user_rows =
     \<lparr>reLogPos = 4096, reServerID = 1, reTimestamp = 1700000000, reSchema = ''app'', reTable = ''user'',
      reColumns = [\<lparr>colName = ''id'', colType = TYPE_NUMBER\<rparr>, \<lparr>colName = ''name'', colType = TYPE_STRING\<rparr>,
        \<lparr>colName = ''price'', colType = TYPE_DECIMAL\<rparr>],
      reAction = InsertAction,
      reRows = [[VInt KInt64 42, VBytes ''Ada'', VBytes ''12.50''], [VInt KInt64 43, VNil, VString ''9.99'']]\<rparr>"

lemma user_rows_capturable: "capturable shanghai (\<lambda>_. 1700000000123456789) user_rows"
proof -
  have "civil 19676 = (2023, 11, 15)" by code_simp
  then have "rfc3339_text 480 1700000000123456789 \<noteq> None" by (simp add: rfc3339_text_def Let_def)
  moreover have "special_word ''12.50'' = None" by (simp add: special_word_def sign_of_def char_upper_def)
  moreover have "valid_utf8 ''id''" "valid_utf8 ''name''" "valid_utf8 ''price''" by code_simp+
  ultimately show ?thesis
    by (simp add: capturable_def rows_fit_def user_rows_def shanghai_def cell_fits_def wire_cell_def upt_rec)
qed

lemma captured_rows_reach_handler_witness:
  "\<exists>w1 acts w2. let es = row_events (\<lambda>_. 1700000000123456789) user_rows 0 in
    send_each shanghai list_producer (\<lambda>_. None) es ([], []) = (replicate (length es) None, w1) \<and>
    RedisConsumer_Consume (length es) list_consumer (\<lambda>_. None) (Some (\<lambda>_ e (l, s). (None, l, s @ [e]))) w1
      = (acts, None, w2) \<and>
    fst w2 = [] \<and> snd w2 = map wire_event es"
proof -
  have noted: "observed (\<lambda>_. None) (\<lambda>_ e (l, s). (None, l, s @ [e])) fst snd note_event" by (auto simp: observed_def)
  from captured_rows_reach_handler [OF sample_list noted sample_key _ user_rows_capturable, of "([], [])"]
  show ?thesis by simp
qed

lemma float_of_int_collision: "float_of_int (2 ^ 53) = float_of_int (2 ^ 53 + 1)"
proof -
  define a b :: nat where "a = 2 ^ 53 * 2 ^ 1074" and "b = (2 ^ 53 + 1) * 2 ^ 1074"
  have len: "bit_length a = Suc 1127" "bit_length b = Suc 1127"
    unfolding a_def b_def
    by (rule bit_length_eq; simp only: power_add [symmetric] power_Suc distrib_right; simp)+
  have "round_even a (2 ^ 1075) = 2 ^ 52" "round_even b (2 ^ 1075) = 2 ^ 52"
    by (simp_all add: round_even_def a_def b_def)
  with len show ?thesis by (simp add: float_of_int_def read_bits_def nearest_def a_def b_def)
qed

text \<open>
  C19. What a task is told of a row. An integer key of a captured event leaves the process as its
  decimal digits; the decoder of the consumers makes the nearest \<open>float64\<close> of them, and that is the
  value a task is run with. Of two events that are sent and decoded, the keys of at
  most 53 bits are told apart exactly as they were; of two larger keys the task may be given the same
  value: the rows \<open>2 ^ 53\<close> and \<open>2 ^ 53 + 1\<close> are one row to it.
\<close>

theorem key_on_the_wire:
  assumes "sendable loc e" and "fmlookup (rData (eRow e)) (keyColumn w) = Some (VInt k i)"
    and "sendable loc' e'" and "fmlookup (rData (eRow e')) (keyColumn w) = Some (VInt k' j)"
  shows "\<exists>s s' d d'. marshal loc e = Inr s \<and> decodeEvent s = Inr d \<and> marshal loc' e' = Inr s' \<and> decodeEvent s' = Inr d' \<and>
    mainPkVal w e = (VInt k i, True) \<and> mainPkVal w d = (VFloat64 (float_of_int i), True) \<and>
    mainPkVal w e' = (VInt k' j, True) \<and> mainPkVal w d' = (VFloat64 (float_of_int j), True) \<and>
    (\<bar>i\<bar> \<le> 2 ^ 53 \<longrightarrow> \<bar>j\<bar> \<le> 2 ^ 53 \<longrightarrow> (mainPkVal w d = mainPkVal w d' \<longleftrightarrow> i = j)) \<and>
    (i = 2 ^ 53 \<longrightarrow> j = 2 ^ 53 + 1 \<longrightarrow> mainPkVal w d = mainPkVal w d')"
proof -
  have captured: "mainPkVal w e = (VInt k i, True)" "mainPkVal w e' = (VInt k' j, True)"
    using assms(2,4) by (simp_all add: mainPkVal_def map_index_def Let_def)
  have told: "mainPkVal w (wire_event e) = (VFloat64 (float_of_int i), True)"
    "mainPkVal w (wire_event e') = (VFloat64 (float_of_int j), True)"
    using assms(2,4) by (simp_all add: mainPkVal_def map_index_def wire_event_def wire_value_def Let_def)
  show ?thesis
    using sendableD [OF assms(1)] sendableD [OF assms(3)] captured told float_of_int_inject float_of_int_collision
    by (intro exI [of _ "wire_text loc e"] exI [of _ "wire_text loc' e'"] exI [of _ "wire_event e"] exI [of _ "wire_event e'"])
      (auto simp: decodeEvent_def)
qed

text \<open>The witness: rows of the user table, two with small keys and two with keys of 54 bits.\<close>

definition user_row :: "int \<Rightarrow> EventData" where
  "user_row i = zeroEvent\<lparr>eRow := zeroRow\<lparr>rData := fmap_of_list [(''id'', VInt KInt64 i)]\<rparr>\<rparr>"

lemma user_row_sendable: "\<bar>i\<bar> < 2 ^ 63 \<Longrightarrow> sendable utc (user_row i)"
proof -
  assume "\<bar>i\<bar> < 2 ^ 63"
  moreover have "rfc3339_text 0 zero_time = Some ''0001-01-01T00:00:00Z''" by code_simp
  moreover have "valid_utf8 ''id''" by code_simp
  ultimately show ?thesis
    by (auto simp: sendable_def encodable_event_def wire_row_def wire_cell_def user_row_def zeroEvent_def zeroRow_def
        utc_def fmpred_iff split: if_splits)
qed

theorem key_on_the_wire_witness:
  "(let w = \<lparr>wTask = sampleTask, wTable = sampleUser, wMain = True\<rparr>;
      told = (\<lambda>i. case marshal utc (user_row i) of
        Inr s \<Rightarrow> (case decodeEvent s of Inr d \<Rightarrow> Some (mainPkVal w d) | Inl _ \<Rightarrow> None) | Inl _ \<Rightarrow> None) in
    told 7 \<noteq> told 8 \<and> told (2 ^ 53) = told (2 ^ 53 + 1) \<and> told 7 \<noteq> None)"
proof -
  let ?w = "\<lparr>wTask = sampleTask, wTable = sampleUser, wMain = True\<rparr>"
  have row: "fmlookup (rData (eRow (user_row i))) (keyColumn ?w) = Some (VInt KInt64 i)" for i
    by (simp add: user_row_def keyColumn_def sampleUser_def)
  have pair: "\<bar>i\<bar> < 2 ^ 63 \<Longrightarrow> \<bar>j\<bar> < 2 ^ 63 \<Longrightarrow> \<exists>s s' d d'. marshal utc (user_row i) = Inr s \<and> decodeEvent s = Inr d \<and>
      marshal utc (user_row j) = Inr s' \<and> decodeEvent s' = Inr d' \<and>
      (\<bar>i\<bar> \<le> 2 ^ 53 \<longrightarrow> \<bar>j\<bar> \<le> 2 ^ 53 \<longrightarrow> (mainPkVal ?w d = mainPkVal ?w d' \<longleftrightarrow> i = j)) \<and>
      (i = 2 ^ 53 \<longrightarrow> j = 2 ^ 53 + 1 \<longrightarrow> mainPkVal ?w d = mainPkVal ?w d')" for i j
    using key_on_the_wire [OF user_row_sendable row user_row_sendable row, of i j] by blast
  show ?thesis
    unfolding Let_def using pair [of 7 8] pair [of "2 ^ 53" "2 ^ 53 + 1"] by auto
qed

end
