(* ===== verification/Pipeline.thy ===== *)
theory Pipeline
  imports Wire_Rows
begin

text \<open>
  From a row of the binlog to the run of a task: both programs around a Redis list, with the runner of
  \<open>task/runner.go\<close> as the handler of the consumption.
\<close>

section \<open>What a change tells the tasks\<close>

text \<open>
  The value a watcher reads out of a captured event after its way over the wire, and the runs the
  event asks for: one for every declaration of its table whose column has a value.
\<close>

definition wire_key :: "'w watcher \<Rightarrow> EventData \<Rightarrow> go_val" where
  "wire_key w ev = (case fmlookup (rData (eRow ev)) (keyColumn w) of None \<Rightarrow> VNil | Some v \<Rightarrow> wire_value v)"

definition told :: "'w ITask list \<Rightarrow> EventData \<Rightarrow> (Table \<times> go_val) list" where
  "told tasks ev =
     [(wTable w, wire_key w ev). w \<leftarrow> watching tasks (rDatabase (eRow ev)) (rTable (eRow ev)),
       wire_key w ev \<noteq> VNil \<and> wire_key w ev \<noteq> VString '''']"

text \<open>
  What the tasks do, seen from outside: every run is noted in \<open>calls\<close>, whatever else it does and
  reports, and the queue \<open>q\<close> is left alone.
\<close>

definition noted_runs :: "'w ctx \<Rightarrow> 'w ITask list \<Rightarrow> ('w \<Rightarrow> string list) \<Rightarrow> ('w \<Rightarrow> (Table \<times> go_val) multiset) \<Rightarrow> bool" where
  "noted_runs ctx tasks q calls \<longleftrightarrow>
     (\<forall>t \<in> set tasks. \<forall>tbl pk w. \<exists>err w'. RunByPrimaryKey t ctx tbl pk w = (err, w') \<and>
        q w' = q w \<and> calls w' = add_mset (tbl, pk) (calls w))"

definition run_of :: "EventData \<Rightarrow> 'w watcher \<Rightarrow> (Table \<times> go_val) multiset" where
  "run_of ev w = (let (pk, found) = mainPkVal w ev in if found then {#(wTable w, pk)#} else {#})"

definition runs_of :: "'w ITask list \<Rightarrow> EventData \<Rightarrow> (Table \<times> go_val) multiset" where
  "runs_of tasks ev = (\<Sum>w \<in># mset (watching tasks (rDatabase (eRow ev)) (rTable (eRow ev))). run_of ev w)"

section \<open>Lemmas\<close>

lemma change_run_noted:
  assumes "noted_runs ctx tasks q calls" and "wTask w \<in> set tasks"
  shows "q (snd (change_run ctx ev w s)) = q s \<and> calls (snd (change_run ctx ev w s)) = run_of ev w + calls s"
proof -
  obtain err s' where "RunByPrimaryKey (wTask w) ctx (wTable w) (fst (mainPkVal w ev)) s = (err, s')"
      "q s' = q s" "calls s' = add_mset (wTable w, fst (mainPkVal w ev)) (calls s)"
    using assms unfolding noted_runs_def by blast
  then show ?thesis by (simp add: change_run_def run_of_def runTask_def split_beta Let_def)
qed

lemma change_runs_noted:
  assumes "noted_runs ctx tasks q calls" and "\<And>w. w \<in> set ws \<Longrightarrow> wTask w \<in> set tasks"
  shows "q (fold (\<lambda>w s. snd (change_run ctx ev w s)) ws s) = q s \<and>
    calls (fold (\<lambda>w s. snd (change_run ctx ev w s)) ws s) = (\<Sum>w \<in># mset ws. run_of ev w) + calls s"
  using assms(2)
  by (induction ws arbitrary: s) (simp_all add: change_run_noted [OF assms(1)] ac_simps)

lemma handle_observed:
  assumes "NewRunner c tasks = Inr r" and "complete_schedule sched" and "\<And>w. ctx w = None"
    and "noted_runs ctx tasks q calls"
  shows "observed ctx (handle sched r) q calls (\<lambda>ev m. runs_of tasks ev + m)"
proof -
  have "q (snd (handle sched r ctx ev s)) = q s \<and> calls (snd (handle sched r ctx ev s)) = runs_of tasks ev + calls s" for ev s
  proof -
    let ?ws = "watching tasks (rDatabase (eRow ev)) (rTable (eRow ev))"
    obtain xs where xs: "mset xs = mset ?ws"
        "snd (runEach sched ctx ?ws (change_run ctx ev) s) = fold (\<lambda>w s. snd (change_run ctx ev w s)) xs s"
      using runEach_world [where ctx = ctx and w = s, OF assms(2,3)] by blast
    have "set xs = set ?ws" using xs(1) by (rule mset_eq_setD)
    then have "wTask w \<in> set tasks" if "w \<in> set xs" for w using that watching_task by blast
    from change_runs_noted [OF assms(4) this, of xs] xs show ?thesis
      by (simp add: handle_runs NewRunner_routes [OF assms(1)] runs_of_def Let_def)
  qed
  then show ?thesis unfolding observed_def by (metis prod.collapse)
qed

lemma mainPkVal_wire:
  "mainPkVal w (wire_event ev) = (wire_key w ev, wire_key w ev \<noteq> VNil \<and> wire_key w ev \<noteq> VString '''')"
  by (simp add: mainPkVal_def map_index_def wire_event_def wire_key_def Let_def split: option.split)

lemma runs_of_wire:
  assumes "valid_utf8 (rDatabase (eRow ev))" and "valid_utf8 (rTable (eRow ev))"
  shows "runs_of tasks (wire_event ev) = mset (told tasks ev)"
proof -
  have row: "rDatabase (eRow (wire_event ev)) = rDatabase (eRow ev)" "rTable (eRow (wire_event ev)) = rTable (eRow ev)"
    using assms by (simp_all add: wire_event_def Let_def to_valid_utf8_id)
  have "(\<Sum>w \<in># mset ws. run_of (wire_event ev) w) =
      mset [(wTable w, wire_key w ev). w \<leftarrow> ws, wire_key w ev \<noteq> VNil \<and> wire_key w ev \<noteq> VString '''']" for ws :: "'a watcher list"
    by (induction ws) (simp_all add: run_of_def mainPkVal_wire)
  then show ?thesis by (simp add: runs_of_def told_def row)
qed

lemma fold_runs:
  "(\<And>ev. ev \<in> set es \<Longrightarrow> runs_of tasks (wire_event ev) = mset (told tasks ev)) \<Longrightarrow>
   fold (\<lambda>ev m. runs_of tasks ev + m) (map wire_event es) m = m + mset (concat (map (told tasks) es))"
  by (induction es arbitrary: m) simp_all

section \<open>Properties\<close>

text \<open>
  C2. A captured change runs its tasks. The rows of a binlog rows event are captured, sent into the
  empty Redis list and consumed with the runner of the given tasks as the handler: whatever the
  schedule of the goroutines and whatever the tasks report, every event runs every declaration of
  its table whose key column has a value exactly once, with that value as the wire carries it, and
  nothing else is run.
\<close>

theorem captured_rows_run_tasks:
  assumes "redis_list (rpRdb p) (rcnRdb r) (rpKey p) ctx (rcnClosed r) q calls" and "rccKey (rcnCfg r) = rpKey p"
    and "NewRunner c tasks = Inr runner" and "complete_schedule sched" and "noted_runs ctx tasks q calls"
    and "capturable loc now e" and "valid_utf8 (reSchema e)" and "valid_utf8 (reTable e)" and "q w = []"
  shows "\<exists>w1 acts w2. let es = row_events now e 0 in
    send_each loc p ctx es w = (replicate (length es) None, w1) \<and>
    RedisConsumer_Consume (length es) r ctx (Some (handle sched runner)) w1 = (acts, None, w2) \<and>
    q w2 = [] \<and> calls w2 = calls w + mset (concat (map (told tasks) es))"
proof -
  have "ctx w = None" for w using assms(1) by (simp add: redis_list_def)
  note handled = captured_rows_handled [OF assms(1) handle_observed [OF assms(3,4) this assms(5)] assms(2,9,6)]
  have "rDatabase (eRow ev) = reSchema e" "rTable (eRow ev) = reTable e" if "ev \<in> set (row_events now e 0)" for ev
    using row_events_rounds [OF that] by (auto simp: row_round_def change_event_def Let_def split: row_action.split)
  then have runs: "runs_of tasks (wire_event ev) = mset (told tasks ev)" if "ev \<in> set (row_events now e 0)" for ev
    using runs_of_wire [of ev tasks] assms(7,8) that by simp
  from handled show ?thesis by (simp only: Let_def fold_runs [OF runs])
qed

text \<open>
  The witness: a task that works on the users, twice, and the rows of two new users. Its world is
  the list and the runs.
\<close>

definition noting_task :: "(string list \<times> (Table \<times> go_val) multiset) ITask" where
  "noting_task =
     \<lparr>taskType = ''*app.UserTask'', MainTable = sampleUser, SubTables = [],
      RunByPrimaryKey = (\<lambda>_ tbl pk (l, m). (None, l, add_mset (tbl, pk) m)), RunByTimeRange = (\<lambda>_ _ _ _ w. (None, w))\<rparr>"

lemma user_id:
  assumes "i < 2"
  shows "fmlookup (rowToMap (reRows user_rows ! i) (reColumns user_rows)) ''id'' = Some (VInt KInt64 (42 + int i))"
proof -
  have "i = 0 \<or> i = 1" using assms by linarith
  then show ?thesis
    using rowToMap_nth [of "reColumns user_rows" 0 "reRows user_rows ! i"]
    by (auto simp: user_rows_def cell_def convert_def number_column_def)
qed

lemma user_round:
  "rDatabase (eRow (fst (row_round now user_rows i))) = ''app''" "rTable (eRow (fst (row_round now user_rows i))) = ''user''"
  "rData (eRow (fst (row_round now user_rows i))) = rowToMap (reRows user_rows ! i) (reColumns user_rows)"
  by (simp_all add: row_round_def change_event_def user_rows_def Let_def)

lemma watching_users:
  "watching [noting_task, noting_task] ''app'' ''user'' = replicate 2 \<lparr>wTask = noting_task, wTable = sampleUser, wMain = True\<rparr>"
  by (simp add: watching_def declarations_def noting_task_def sampleUser_def numeral_2_eq_2)

theorem captured_rows_run_tasks_witness:
  "\<exists>runner w1 acts w2. NewRunner None [noting_task, noting_task] = Inr runner \<and>
    send_each shanghai list_producer (\<lambda>_. None) (row_events (\<lambda>_. 1700000000123456789) user_rows 0) ([], {#}) =
      ([None, None], w1) \<and>
    RedisConsumer_Consume 2 list_consumer (\<lambda>_. None) (Some (handle (\<lambda>n. rev [0..<n]) runner)) w1 = (acts, None, w2) \<and>
    fst w2 = [] \<and>
    snd w2 = mset (concat (map (\<lambda>i. replicate 2 (sampleUser, VFloat64 (float_of_int i))) [42, 43]))"
proof -
  let ?tasks = "[noting_task, noting_task]" and ?now = "\<lambda>_ :: nat. 1700000000123456789 :: go_time"
  obtain runner where runner: "NewRunner None ?tasks = Inr runner"
    using indexLoop_Inr_iff [of ?tasks Map.empty]
    by (auto simp: NewRunner_Inr indexTasks_def routable_iff well_declared_def declared_tables_def
        plain_name_def sampleUser_def noting_task_def)
  have noted: "noted_runs (\<lambda>_. None) ?tasks fst snd" by (auto simp: noted_runs_def noting_task_def)
  have names: "valid_utf8 (reSchema user_rows)" "valid_utf8 (reTable user_rows)"
    by (simp_all add: user_rows_def, code_simp+)
  have "row_events ?now user_rows 0 = [fst (row_round ?now user_rows 0), fst (row_round ?now user_rows 1)]"
    by (simp add: row_events.simps [of _ _ 0] row_events.simps [of _ _ "Suc 0"] row_events.simps [of _ _ "Suc (Suc 0)"] row_round_def
        user_rows_def numeral_2_eq_2)
  moreover have "told ?tasks (fst (row_round ?now user_rows i)) = replicate 2 (sampleUser, VFloat64 (float_of_int (42 + int i)))"
    if "i < 2" for i
    unfolding told_def user_round watching_users
    by (simp add: wire_key_def user_round user_id [OF that] keyColumn_def wire_value_def sampleUser_def numeral_2_eq_2)
  ultimately show ?thesis
    using captured_rows_run_tasks [OF sample_list sample_key runner sample_schedule noted user_rows_capturable names, of "([], {#})"] runner
    by (auto simp: numeral_2_eq_2 Let_def)
qed

end
