(* ===== verification/Main_Programs.thy ===== *)
theory Main_Programs
  imports Setup Task_Commands
begin

text \<open>
  The two \<open>main.go\<close> and the command \<open>listen\<close>: the applications they put together, and their exit codes.
  The command-line library is a parameter, the function that runs an application on the arguments;
  \<open>Listen\<close>, which is a step system in the theory \<open>Listen\<close>, is one too.
\<close>

section \<open>The applications\<close>

definition version_text :: "string \<Rightarrow> string \<Rightarrow> build \<Rightarrow> string" where
  "version_text name ver b =
     name @ '' '' @ ver @ '' '' @ [CHR 0xE2, CHR 0x80, CHR 0x94] @ '' built with '' @ buildGo b @ '' on '' @
     buildOS b @ ''/'' @ buildArch b"

definition trigger_app :: "(string \<Rightarrow> go_error + Config) \<Rightarrow> ('w ctx \<Rightarrow> Config \<Rightarrow> 'w \<Rightarrow> go_error option \<times> 'w) \<Rightarrow>
    string \<Rightarrow> (Config, 'w) cli_app" where
  "trigger_app LoadFile listen version =
     (let listenCmd = ListenCommand listen in
      \<lparr>appName = ''cdc-trigger'',
       appUsage = ''a Go CDC tool that real-time captures, processes database changes and sends them to downstream'',
       appVersion = version, appVersionPrinter = version_text ''cdc-trigger'' version, appFlags = Flags,
       appBefore = Before LoadFile, appSubcommands = [listenCmd], appAction = cmdAction listenCmd\<rparr>)"

definition task_app :: "(string \<Rightarrow> go_error + TaskConfig) \<Rightarrow> ('w ctx \<Rightarrow> TaskConfig \<Rightarrow> 'w \<Rightarrow> go_error option \<times> 'w) \<Rightarrow>
    (log_line list, 'w) guarded \<Rightarrow> scheduler \<Rightarrow> string \<Rightarrow> (TaskConfig, 'w) cli_app" where
  "task_app load run g sched version =
     (let runCmd = TaskRunCommand load run in
      \<lparr>appName = ''cdc-trigger-task'',
       appUsage = ''a Go CDC task runner that consumes events from middleware and executes tasks'',
       appVersion = version, appVersionPrinter = version_text ''cdc-trigger-task'' version, appFlags = TaskFlags,
       appBefore = TaskBefore load,
       appSubcommands = [runCmd, TaskRunByPrimaryKeyCommand load g sched, TaskRunByTimeRangeCommand load g sched],
       appAction = cmdAction runCmd\<rparr>)"

section \<open>Running them\<close>

text \<open>
  \<open>app.Run\<close> under a context that a signal ends. An error is logged and makes the exit code one;
  \<open>os.Exit\<close> leaves out the deferred release of the signals, which the end of the process makes up for.
\<close>

type_synonym ('v, 'w) app_runner = "('v, 'w) cli_app \<Rightarrow> 'w ctx \<Rightarrow> string list \<Rightarrow> 'w \<Rightarrow> go_error option \<times> 'w"

definition exit_code :: "(go_error \<Rightarrow> 'w \<Rightarrow> 'w) \<Rightarrow> go_error option \<times> 'w \<Rightarrow> nat \<times> 'w" where
  "exit_code logError = (\<lambda>(err, w). case err of None \<Rightarrow> (0, w) | Some e \<Rightarrow> (1, logError e w))"

definition trigger_main :: "(Config, 'w) app_runner \<Rightarrow> ('w \<Rightarrow> bool) \<Rightarrow> (go_error \<Rightarrow> 'w \<Rightarrow> 'w) \<Rightarrow>
    (Config, 'w) cli_app \<Rightarrow> string list \<Rightarrow> 'w \<Rightarrow> nat \<times> 'w" where
  "trigger_main Run signalled logError app args w =
     exit_code logError (Run app (NotifyContext signalled (\<lambda>_. None)) args w)"

definition task_main :: "(TaskConfig, 'w) app_runner \<Rightarrow> ('w \<Rightarrow> bool) \<Rightarrow> (go_error \<Rightarrow> 'w \<Rightarrow> 'w) \<Rightarrow>
    (TaskConfig, 'w) cli_app \<Rightarrow> string list \<Rightarrow> 'w \<Rightarrow> nat \<times> 'w" where
  "task_main Run signalled logError app args w =
     exit_code logError (Run app (NotifyContext signalled (\<lambda>_. None)) args w)"

text \<open>
  What the library does with a command line it accepts, as the comments of \<open>cmd/taskrun.go\<close> describe
  it: the root's \<open>Before\<close> is called with what the root's flags say, its error ends the run, and then
  the action of the named subcommand, or of the root when none is named, gets its own input.
\<close>

definition dispatches :: "('v, 'w) app_runner \<Rightarrow> ('v, 'w) cli_app \<Rightarrow> string list \<Rightarrow> cli_input \<Rightarrow>
    (nat \<times> cli_input) option \<Rightarrow> bool" where
  "dispatches Run app args root sub \<longleftrightarrow>
     (\<forall>ctx w. Run app ctx args w =
        (case appBefore app root Map.empty of
           (vals, Some err) \<Rightarrow> (Some err, w)
         | (vals, None) \<Rightarrow>
             (case sub of
                None \<Rightarrow> appAction app vals ctx root w
              | Some (i, inp) \<Rightarrow> cmdAction (appSubcommands app ! i) vals ctx inp w)))"

section \<open>Properties\<close>

text \<open>What the listening program does: its command always finds the configuration in the context.\<close>

lemma trigger_program:
  assumes "dispatches Run (trigger_app LoadFile listen version) args root sub"
    and "\<And>i inp. sub = Some (i, inp) \<Longrightarrow> i = 0"
  shows "trigger_main Run signalled logError (trigger_app LoadFile listen version) args w =
    exit_code logError
      (case config_Load LoadFile (inString root FlagConfig) of
         Inl err \<Rightarrow> (Some err, w)
       | Inr cfg \<Rightarrow> listen (NotifyContext signalled (\<lambda>_. None)) cfg w)"
  using assms
  by (auto simp: dispatches_def trigger_main_def trigger_app_def ListenCommand_def Before_def Let_def
      split: sum.split option.split)

text \<open>The task program as one expression: the two configurations, the arguments, the command.\<close>

lemma task_main_eq:
  assumes "dispatches Run (task_app load run g sched version) args root sub"
    and "\<And>i inp. sub = Some (i, inp) \<Longrightarrow> i < 3"
  shows "task_main Run signalled logError (task_app load run g sched version) args w =
    exit_code logError
      (let ctx = NotifyContext signalled (\<lambda>_. None); (cmd, inp) = (case sub of None \<Rightarrow> (0, root) | Some c \<Rightarrow> c) in
       case loadTaskConfig load root of
         Inl err \<Rightarrow> (Some err, w)
       | Inr unused \<Rightarrow>
           (case loadTaskConfig load inp of
              Inl err \<Rightarrow> (Some err, w)
            | Inr cfg \<Rightarrow>
                (if cmd = 0 then run ctx cfg w
                 else if length (inArgs inp) < Suc cmd then
                   (Some (ErrNew (if cmd = 1 then ''usage: run-by-pk <db.table> <primary-key-value>''
                      else ''usage: run-by-range <db.table> <start> <end>  (time format: 2006-01-02 15:04:05)'') []), w)
                 else if cmd = 1 then TaskRunByPrimaryKey g sched ctx cfg (inArgs inp ! 0) (inArgs inp ! 1) w
                 else TaskRunByTimeRange g sched ctx cfg (inArgs inp ! 0) (inArgs inp ! 1) (inArgs inp ! 2) w)))"
proof (cases sub)
  case None
  with assms(1) show ?thesis
    by (simp add: dispatches_def task_main_def task_app_def TaskRunCommand_def TaskBefore_def Let_def split: sum.split)
next
  case (Some c)
  obtain i inp where c: "c = (i, inp)" by fastforce
  then have "i = 0 \<or> i = 1 \<or> i = 2" using assms(2) Some by fastforce
  with assms(1) Some c show ?thesis
    by (auto simp: dispatches_def task_main_def task_app_def TaskRunCommand_def TaskRunByPrimaryKeyCommand_def
        TaskRunByTimeRangeCommand_def TaskBefore_def Let_def split: sum.split)
qed

text \<open>
  C20. What the task program does. It exits with zero exactly when the file the root's flag names
  (or its default) was read, the file the command's own flag names was read, the command has its
  arguments, and the command, \<open>run\<close> when none is named, reports nil; the world is then as the command left
  it. In every other case it exits with one and logs the error of the first of these that failed,
  and unless that is the command itself nothing was run: without the default file
  the flag after the name of a subcommand is of no use, although only that file is used.
\<close>

theorem task_program:
  assumes "dispatches Run (task_app load run g sched version) args root sub"
    and "(cmd, inp) = (case sub of None \<Rightarrow> (0, root) | Some c \<Rightarrow> c)" and "cmd < 3"
    and "task_main Run signalled logError (task_app load run g sched version) args w = (code, w')"
    and "command = (\<lambda>cfg. let ctx = NotifyContext signalled (\<lambda>_. None) in
           if cmd = 0 then run ctx cfg w
           else if cmd = 1 then TaskRunByPrimaryKey g sched ctx cfg (inArgs inp ! 0) (inArgs inp ! 1) w
           else TaskRunByTimeRange g sched ctx cfg (inArgs inp ! 0) (inArgs inp ! 1) (inArgs inp ! 2) w)"
  shows "(code = 0 \<longleftrightarrow>
      (\<exists>unused cfg. loadTaskConfig load root = Inr unused \<and> loadTaskConfig load inp = Inr cfg \<and>
         (cmd = 0 \<or> cmd < length (inArgs inp)) \<and> command cfg = (None, w'))) \<and>
    (code \<noteq> 0 \<longrightarrow> code = 1 \<and>
      (\<forall>err. loadTaskConfig load root = Inl err \<longrightarrow> w' = logError err w) \<and>
      (\<forall>unused. loadTaskConfig load root = Inr unused \<longrightarrow>
         (\<forall>err. loadTaskConfig load inp = Inl err \<longrightarrow> w' = logError err w) \<and>
         (\<forall>cfg. loadTaskConfig load inp = Inr cfg \<longrightarrow>
            (if cmd = 0 \<or> cmd < length (inArgs inp)
             then \<exists>e w1. command cfg = (Some e, w1) \<and> w' = logError e w1
             else w' = logError (ErrNew (if cmd = 1 then ''usage: run-by-pk <db.table> <primary-key-value>''
               else ''usage: run-by-range <db.table> <start> <end>  (time format: 2006-01-02 15:04:05)'') []) w))))"
proof -
  let ?e = "case loadTaskConfig load root of Inl err \<Rightarrow> (Some err, w)
     | Inr unused \<Rightarrow> (case loadTaskConfig load inp of Inl err \<Rightarrow> (Some err, w)
        | Inr cfg \<Rightarrow> if cmd = 0 \<or> cmd < length (inArgs inp) then command cfg
            else (Some (ErrNew (if cmd = 1 then ''usage: run-by-pk <db.table> <primary-key-value>''
                 else ''usage: run-by-range <db.table> <start> <end>  (time format: 2006-01-02 15:04:05)'') []), w))"
  have "\<And>i inp'. sub = Some (i, inp') \<Longrightarrow> i < 3" using assms(2,3) by auto
  then have "(code, w') = exit_code logError ?e"
    using task_main_eq [where signalled = signalled and logError = logError and w = w, OF assms(1)] assms(4)
    unfolding assms(2) [symmetric] assms(5) by (auto simp: Let_def not_less split: sum.split)
  then show ?thesis
    by (auto simp: exit_code_def split: sum.splits prod.splits option.splits if_splits)
qed

text \<open>
  The witness: the command \<open>run -c mine.yml\<close>, with a library that does no more than dispatch. Where
  only \<open>mine.yml\<close> is readable, the program exits with one before it runs anything; where the default
  file is readable too, it runs.
\<close>

definition dispatcher :: "cli_input \<Rightarrow> (nat \<times> cli_input) option \<Rightarrow> ('v, 'w) app_runner" where
  "dispatcher root sub app ctx args w =
     (case appBefore app root Map.empty of
        (vals, Some err) \<Rightarrow> (Some err, w)
      | (vals, None) \<Rightarrow>
          (case sub of
             None \<Rightarrow> appAction app vals ctx root w
           | Some (i, inp) \<Rightarrow> cmdAction (appSubcommands app ! i) vals ctx inp w))"

lemma dispatcher_dispatches: "dispatches (dispatcher root sub) app args root sub"
  by (simp add: dispatches_def dispatcher_def)

definition readable :: "string list \<Rightarrow> string \<Rightarrow> go_error + TaskConfig" where
  "readable files path = (if path \<in> set files then Inr sample_tasks else Inl (ErrNew ''no such file'' []))"

definition default_input :: cli_input where
  "default_input = \<lparr>inString = (\<lambda>_. ''config.task.yml''), inArgs = []\<rparr>"

definition mine_input :: cli_input where
  "mine_input = \<lparr>inString = (\<lambda>_. ''mine.yml''), inArgs = []\<rparr>"

theorem task_program_witness:
  "(let start = (\<lambda>files. task_main (dispatcher default_input (Some (0, mine_input))) (\<lambda>_. False) (\<lambda>err w. w)
      (task_app (readable files) (\<lambda>ctx cfg w. (None, w @ [RowLine ''run'' VNil []])) whole_log (\<lambda>n. [0..<n]) ''main'')
      [''run'', ''-c'', ''mine.yml''] []) in
    start [''mine.yml''] = (1, []) \<and> start [''mine.yml'', ''config.task.yml''] = (0, [RowLine ''run'' VNil []]))"
proof -
  let ?app = "\<lambda>files. task_app (readable files) (\<lambda>ctx cfg w. (None, w @ [RowLine ''run'' VNil []])) whole_log (\<lambda>n. [0..<n]) ''main''"
  have "task_main (dispatcher default_input (Some (0, mine_input))) (\<lambda>_. False) (\<lambda>err w. w) (?app files) args [] =
      (if {''config.task.yml'', ''mine.yml''} \<subseteq> set files then (0, [RowLine ''run'' VNil []]) else (1, []))" for files args
  proof -
    obtain code w' where run: "task_main (dispatcher default_input (Some (0, mine_input))) (\<lambda>_. False) (\<lambda>err w. w) (?app files) args []
        = (code, w')" by fastforce
    show ?thesis
      using task_program [where cmd = 0 and inp = mine_input, OF dispatcher_dispatches _ _ run refl] unfolding run
      by (auto simp: loadTaskConfig_def readable_def default_input_def mine_input_def Let_def split: if_splits)
  qed
  then show ?thesis by simp
qed

end
