(* ===== verification/Spec2Isabelle.thy ===== *)
theory Spec2Isabelle
  imports Listen Task_Commands Producer_Reconnect Producer_Simple Rabbit_Producer Consumers Pipeline Main_Programs
begin

text \<open>
  A model of cdc-trigger (Go) and what is proved of it.

  \<^bold>\<open>The program.\<close> Two programs around a message broker. \<open>cdc-trigger\<close> reads the binlog of a MySQL
  server (\<open>source/\<close>), keeps the position it has reached in a store (\<open>store/\<close>) and publishes every row
  change as an event (\<open>types/\<close>) through a producer (\<open>queue/producer/\<close>); \<open>cmd/clisten.go\<close> runs the
  three together. \<open>cdc-trigger-task\<close> reads the events through a consumer (\<open>queue/consumer/\<close>) and runs
  the tasks that watch the changed table (\<open>task/\<close>, \<open>cmd/taskrun.go\<close>), or runs them by hand for one
  row or a range of time.

  \<^bold>\<open>The theories\<close>, in the order they build on each other, with the Go files they translate:

  \<^item> \<open>Prelude\<close>: Go values, errors as values with \<open>errors.Is\<close>, \<open>As\<close> and \<open>Join\<close>, contexts as views of a
    world, panics as outcomes, string functions, shared lemmas. \<open>Types\<close>: \<open>types/event.go\<close>.
  \<^item> \<open>Decimal\<close>, \<open>Go_Float\<close>, \<open>Go_ParseFloat\<close>, \<open>Go_Time\<close>, \<open>Go_Rfc3339\<close>, \<open>Md5\<close>, \<open>Json_String\<close>, \<open>Json\<close>,
    \<open>Json_Print\<close>, \<open>Json_Number\<close>, \<open>Go_Chan\<close>: the parts of the standard library and of the language that
    the code rests on: \<open>strconv\<close> with correctly rounded and shortest floats, \<open>time.Parse\<close> for the
    one layout used, RFC 3339, \<open>crypto/md5\<close>, the scanner, printer and numbers of \<open>encoding/json\<close>,
    buffered channels.
  \<^item> \<open>Event_Json\<close>: an event on the wire, as the struct tags of \<open>types/event.go\<close> make \<open>encoding/json\<close> write
    and read it, with the theorem that says which event comes back (\<open>wire_event\<close>).
  \<^item> \<open>Task_Watchers\<close>, \<open>Task_Runner\<close>, \<open>Task_Commands\<close>: \<open>task/*.go\<close> and \<open>cmd/taskrun.go\<close>. The index from
    tables to watchers, the routing of a change, the runs by hand, the guard of \<open>Run\<close>, the commands.
  \<^item> \<open>Producer_Core\<close>, \<open>Producer_Simple\<close>, \<open>Producer_Reconnect\<close>, \<open>Rabbit_Client\<close>, \<open>Rabbit_Producer\<close>:
    \<open>queue/producer/*.go\<close>. The registry and the retry loop; Stdout, Redis and Kafka; Pulsar and
    RocketMQ with their reconnection (the locale \<open>reconnecting\<close>, interpreted on both); RabbitMQ's
    publisher confirms as a step system, and the producer over them.
  \<^item> \<open>Consumer_Core\<close>, \<open>Consumer_Kafka\<close>, \<open>Consumer_Redis\<close>, \<open>Consumer_Pulsar\<close>, \<open>Consumer_Rabbit\<close>,
    \<open>Consumer_Rocket\<close>, \<open>Consumers\<close>: \<open>queue/consumer/*.go\<close>. One message, the loops of the five consumers
    (the locale \<open>settling\<close>, interpreted on the three that acknowledge), and what they have in common.
  \<^item> \<open>Store\<close>: \<open>store/*.go\<close>. The locale \<open>kv_store\<close> says what a store promises; the file store is its
    interpretation, on a model of the directory in which every system call can fail.
  \<^item> \<open>Position\<close>, \<open>Source_Rows\<close>, \<open>Source\<close>, \<open>Source_Life\<close>: \<open>source/*.go\<close>. The saved position and its JSON; the
    conversion of rows; the source's construction, \<open>Run\<close>, \<open>stop\<close>, \<open>Close\<close>; its life under any
    interleaving, and resuming.
  \<^item> \<open>Setup\<close>, \<open>Listen\<close>: \<open>config/config.go\<close>, \<open>cmd/before.go\<close>, \<open>flags.go\<close>, \<open>setup.go\<close>, \<open>clisten.go\<close>. Creating
    and closing the components, and the listening program as a step system over all of them.
  \<^item> \<open>Cli\<close>, \<open>Main_Programs\<close>: the values of the command-line library, and the two \<open>main.go\<close>: the
    applications they put together and their exit codes.
  \<^item> \<open>Wire_Rows\<close>, \<open>Pipeline\<close>: the way of a captured row across both programs: every event of \<open>OnRow\<close> can
    be sent, reaches the handler through the Redis queue, and names the row to a task; the rows of a
    rows event run exactly the declarations of their table.

  \<^bold>\<open>How the code is read.\<close> A struct is a record, an enumeration a datatype, an error a value. An operation
  with effects takes the world and answers with it: \<open>f args w = (result, w')\<close>. A library outside the
  repository is a record of the functions the code calls, over the same world, so that anything it
  may answer is covered; what is assumed of one stands as a hypothesis of the property. Goroutines
  are the steps of an inductive relation, or a schedule that is any permutation; a section under
  a mutex is one step. Machine integers are words where they can wrap (the backoff, message
  numbers, positions). A panic is an outcome or a crashed state.

  \<^bold>\<open>Fuel.\<close> The loops of the consumers may run for ever: \<open>for_loop\<close> takes a number of rounds and answers
  \<open>None\<close> when they are spent; \<open>for_loop_mono\<close> says that more rounds change nothing once the loop has
  returned, and the properties hold for every number. The JSON parser takes twice the length of
  the text and one more, which \<open>parse_more\<close> proves to be enough. All other recursions terminate by
  a measure; \<open>Listen.listen_ends\<close> bounds the runs of the listening program by the work left.

  \<^bold>\<open>What is proved.\<close> Along the way of an event: every event put into the channel reaches the producer
  once and in order (\<open>Listen.events_in_order\<close>), its text carries it (\<open>Event_Json.event_roundtrip\<close>), a
  send that reports nil was taken by the broker and one that reports an error says what the last
  publish met (\<open>Producer_Core\<close>, \<open>Rabbit_Client\<close>, \<open>Rabbit_Producer\<close>, \<open>Producer_Reconnect\<close>), the rows of the binlog reach their tasks (\<open>Pipeline\<close>), a message is acknowledged only after its
  handler accepted it (\<open>Consumers.acknowledged_means_handled\<close>), and a change runs exactly the tasks
  that watch its table (\<open>Task_Runner\<close>). Around it: positions are written atomically and resumed
  (\<open>Store\<close>, \<open>Source_Life\<close>), rows are converted and paired (\<open>Source_Rows\<close>), connections are held and closed
  (\<open>Rabbit_Producer\<close>, \<open>Setup\<close>), the event channel is closed once. Where the code does not do what it
  means to, the property says so: \<open>Listen.shutdown_can_lose_events\<close>, \<open>Consumer_Kafka.kafka_commit_passes_rejected\<close>,
  \<open>Consumer_Rabbit.rabbit_redials_and_leaks\<close>, \<open>Setup.setup_leaves_open\<close>, \<open>Wire_Rows.key_on_the_wire\<close>,
  \<open>Main_Programs.task_program\<close> and the second half of \<open>Producer_Core.backoff_capped\<close>.

  \<^bold>\<open>Not modelled.\<close> The parsing of a command line (the library's part; \<open>dispatches\<close> says what is assumed of it), logging, the
  reading of configuration files (a parameter), the time zone data (the offset of the process's
  location at an instant is a parameter of the encoder) and the monotonic part of a \<open>time.Time\<close>, the
  difference between a nil and an empty map, JSON exponents of more than five digits and escapes
  inside the text of a time, which no event has, the memory model below mutexes and channels (fields read without their lock are
  read at the step that uses them), the \<open>sync.Map\<close> that holds the locks of the file store, and what a
  power loss does to data that was not synced to the disk.
\<close>

end
